(* ===== verification/Py_Base.thy ===== *)
theory Py_Base
  imports Main "HOL-Library.List_Lexorder" "HOL-Library.Char_ord"
begin

text \<open>
  Shared vocabulary of the development: Python exceptions as values of a sum type, the loops the
  tools write over them, and the part of \<open>str\<close> the tools use.

  A Python \<open>str\<close> is a HOL \<^typ>\<open>string\<close> whose characters stand for the code points 0 to 255; the
  character classes and the line boundaries below are the ones Python has on that range.
\<close>

section \<open>Exceptions and results\<close>

text \<open>
  One constructor per exception class that can leave a function of the tools. The first three are
  the classes the tools declare (\<open>compile_deployment.py\<close>, \<open>verify_resources.py\<close>,
  \<open>check_static_control_metrics.py\<close>), with the code and the message they carry.
\<close>

datatype pyexn =
    DeploymentError string string
  | ResourceError string string
  | MetricsError string
  | ValueError string
  | KeyError string
  | TypeError
  | IndexError
  | StructError
  | AttributeError
  | AssertionError
  | UnicodeDecodeError
  | UnicodeEncodeError
  | RecursionError
  | OverflowError
  | CalledProcessError
  | OSError string
  | RuntimeError string
  | EOFError

type_synonym 'a res = "pyexn + 'a"

named_theorems res_simps \<open>inversion of successful runs\<close>
named_theorems str_simps \<open>evaluation of the string functions\<close>

definition bindE :: "'a res \<Rightarrow> ('a \<Rightarrow> 'b res) \<Rightarrow> 'b res" where
  "bindE m f = (case m of Inl e \<Rightarrow> Inl e | Inr x \<Rightarrow> f x)"

lemma bindE_simps [simp]:
  "bindE (Inl e) f = Inl e"
  "bindE (Inr x) f = f x"
  by (simp_all add: bindE_def)

lemma bindE_eq_Inr [res_simps]:
  "bindE m f = Inr y \<longleftrightarrow> (\<exists>x. m = Inr x \<and> f x = Inr y)"
  by (cases m) auto

lemma bindE_eq_Inl:
  "bindE m f = Inl e \<longleftrightarrow> m = Inl e \<or> (\<exists>x. m = Inr x \<and> f x = Inl e)"
  by (cases m) auto

lemma if_raise_eq_Inr [res_simps]:
  "(if c then Inl e else r) = Inr y \<longleftrightarrow> \<not> c \<and> r = Inr y"
  by simp

lemma bindE_cong [fundef_cong]:
  assumes "m = m'" and "\<And>x. m' = Inr x \<Longrightarrow> f x = f' x"
  shows "bindE m f = bindE m' f'"
  using assms by (cases m') auto

lemma bindE_assoc: "bindE (bindE m f) g = bindE m (\<lambda>x. bindE (f x) g)"
  by (cases m) auto

text \<open>A comprehension whose element expression may raise, and a \<open>for\<close> loop without state.\<close>

fun mapE :: "('a \<Rightarrow> 'b res) \<Rightarrow> 'a list \<Rightarrow> 'b list res" where
  "mapE f [] = Inr []"
| "mapE f (x # xs) = bindE (f x) (\<lambda>y. bindE (mapE f xs) (\<lambda>ys. Inr (y # ys)))"

fun forE :: "('a \<Rightarrow> unit res) \<Rightarrow> 'a list \<Rightarrow> unit res" where
  "forE f [] = Inr ()"
| "forE f (x # xs) = bindE (f x) (\<lambda>_. forE f xs)"

fun foldE :: "('s \<Rightarrow> 'a \<Rightarrow> 's res) \<Rightarrow> 's \<Rightarrow> 'a list \<Rightarrow> 's res" where
  "foldE f s [] = Inr s"
| "foldE f s (x # xs) = bindE (f s x) (\<lambda>s'. foldE f s' xs)"

lemma mapE_eq_Inr [res_simps]:
  "mapE f xs = Inr ys \<longleftrightarrow> list_all2 (\<lambda>x y. f x = Inr y) xs ys"
  by (induction xs arbitrary: ys) (auto simp: bindE_eq_Inr list_all2_Cons1)

lemma mapE_memD: "mapE f xs = Inr ys \<Longrightarrow> y \<in> set ys \<Longrightarrow> \<exists>x \<in> set xs. f x = Inr y"
  by (induction xs arbitrary: ys) (auto simp: bindE_eq_Inr)

lemma mapE_mem: "mapE f xs = Inr ys \<Longrightarrow> x \<in> set xs \<Longrightarrow> \<exists>y \<in> set ys. f x = Inr y"
  by (induction xs arbitrary: ys) (auto simp: bindE_eq_Inr)

lemma mapE_total: "(\<And>x. x \<in> set xs \<Longrightarrow> \<exists>y. f x = Inr y) \<Longrightarrow> \<exists>ys. mapE f xs = Inr ys"
  by (induction xs) fastforce+

lemma mapE_pure: "(\<And>x. x \<in> set xs \<Longrightarrow> f x = Inr (g x)) \<Longrightarrow> mapE f xs = Inr (map g xs)"
  by (induction xs) auto

lemma forE_eq_Inr [res_simps]:
  "forE f xs = Inr u \<longleftrightarrow> (\<forall>x \<in> set xs. f x = Inr ())"
  by (induction xs) (auto simp: bindE_eq_Inr)

lemma forE_eq_Inl: "forE f xs = Inl e \<Longrightarrow> \<exists>x \<in> set xs. f x = Inl e"
  by (induction xs) (auto simp: bindE_eq_Inl)

lemma foldE_append: "foldE f s (xs @ ys) = bindE (foldE f s xs) (\<lambda>s'. foldE f s' ys)"
  by (induction xs arbitrary: s) (auto simp: bindE_assoc)

lemma foldE_invariant:
  assumes "foldE f s xs = Inr t" and "P s"
    and "\<And>u x v. x \<in> set xs \<Longrightarrow> P u \<Longrightarrow> f u x = Inr v \<Longrightarrow> P v"
  shows "P t"
  using assms by (induction xs arbitrary: s) (auto simp: bindE_eq_Inr)

text \<open>\<open>any(f(x) for x in xs)\<close>, which stops at the first true element.\<close>

fun anyE :: "('a \<Rightarrow> bool res) \<Rightarrow> 'a list \<Rightarrow> bool res" where
  "anyE f [] = Inr False"
| "anyE f (x # xs) = bindE (f x) (\<lambda>b. if b then Inr True else anyE f xs)"

lemma anyE_pure: "(\<And>x. x \<in> set xs \<Longrightarrow> f x = Inr (P x)) \<Longrightarrow> anyE f xs = Inr (list_ex P xs)"
  by (induction xs) auto

lemma anyE_False [res_simps]: "anyE f xs = Inr False \<longleftrightarrow> (\<forall>x \<in> set xs. f x = Inr False)"
  by (induction xs) (auto simp: bindE_eq_Inr split: if_splits)

text \<open>\<open>max(xs, default=d)\<close>.\<close>

definition max_default :: "int \<Rightarrow> int list \<Rightarrow> int" where
  "max_default d xs = (case xs of [] \<Rightarrow> d | y # ys \<Rightarrow> foldl max y ys)"

lemma foldl_max: "foldl max y ys = Max (insert y (set ys))" for y :: int
proof (induction ys arbitrary: y)
  case (Cons z ys)
  have "Max (insert (max y z) (set ys)) = Max (insert y (insert z (set ys)))"
    by (cases "ys = []") (simp_all add: Max_insert max.assoc)
  with Cons [of "max y z"] show ?case by simp
qed simp

lemma max_default_upper: "x \<in> set xs \<Longrightarrow> x \<le> max_default d xs"
  by (cases xs) (auto simp: max_default_def foldl_max)

lemma max_default_mem: "max_default d xs = d \<and> xs = [] \<or> max_default d xs \<in> set xs"
  using Max_in [of "set xs"] by (cases xs) (auto simp: max_default_def foldl_max)

section \<open>Which exceptions a computation can raise\<close>

definition raises_only :: "(pyexn \<Rightarrow> bool) \<Rightarrow> 'a res \<Rightarrow> bool" where
  "raises_only P r \<longleftrightarrow> (case r of Inl e \<Rightarrow> P e | Inr _ \<Rightarrow> True)"

named_theorems raises \<open>rules that bound the exceptions of a computation\<close>

lemma raises_only_simps [simp]:
  "raises_only P (Inl e) \<longleftrightarrow> P e"
  "raises_only P (Inr x)"
  by (simp_all add: raises_only_def)

lemma raises_onlyD: "raises_only P r \<Longrightarrow> r = Inl e \<Longrightarrow> P e"
  by simp

lemma raises_only_bindE [raises]:
  assumes "raises_only P m" and "\<And>x. m = Inr x \<Longrightarrow> raises_only P (f x)"
  shows "raises_only P (bindE m f)"
  using assms by (cases m) auto

lemma raises_only_if [raises]:
  assumes "c \<Longrightarrow> raises_only P r" and "\<not> c \<Longrightarrow> raises_only P r'"
  shows "raises_only P (if c then r else r')"
  using assms by simp

lemma raises_only_option [raises]:
  assumes "x = None \<Longrightarrow> raises_only P r" and "\<And>y. x = Some y \<Longrightarrow> raises_only P (f y)"
  shows "raises_only P (case x of None \<Rightarrow> r | Some y \<Rightarrow> f y)"
  using assms by (cases x) simp_all

lemma raises_only_forE [raises]:
  assumes "\<And>x. x \<in> set xs \<Longrightarrow> raises_only P (f x)"
  shows "raises_only P (forE f xs)"
  using assms by (induction xs) (auto intro!: raises_only_bindE)

lemma raises_only_mapE [raises]:
  assumes "\<And>x. x \<in> set xs \<Longrightarrow> raises_only P (f x)"
  shows "raises_only P (mapE f xs)"
  using assms by (induction xs) (auto intro!: raises_only_bindE)

lemma raises_only_foldE:
  assumes "\<And>s x. x \<in> set xs \<Longrightarrow> raises_only P (f s x)"
  shows "raises_only P (foldE f s xs)"
  using assms by (induction xs arbitrary: s) (auto intro!: raises_only_bindE)

section \<open>Strings\<close>

definition nl :: string where "nl = [CHR 0x0A]"
definition dq :: string where "dq = [CHR 0x22]"
definition sq :: string where "sq = [CHR 0x27]"

definition quoted :: "string \<Rightarrow> string" where
  "quoted s = dq @ s @ dq"

definition startswith :: "string \<Rightarrow> string \<Rightarrow> bool" where
  "startswith s p \<longleftrightarrow> take (length p) s = p"

definition endswith :: "string \<Rightarrow> string \<Rightarrow> bool" where
  "endswith s p \<longleftrightarrow> length p \<le> length s \<and> drop (length s - length p) s = p"

lemma startswith_iff: "startswith s p \<longleftrightarrow> (\<exists>r. s = p @ r)"
proof
  assume "startswith s p"
  then have "s = p @ drop (length p) s"
    using append_take_drop_id [of "length p" s] by (simp add: startswith_def)
  then show "\<exists>r. s = p @ r" ..
qed (auto simp: startswith_def)

lemma endswith_iff: "endswith s p \<longleftrightarrow> (\<exists>r. s = r @ p)"
proof
  assume "endswith s p"
  then have "s = take (length s - length p) s @ p"
    using append_take_drop_id [of "length s - length p" s] by (simp add: endswith_def)
  then show "\<exists>r. s = r @ p" ..
qed (auto simp: endswith_def)

text \<open>\<open>t in s\<close> for two strings.\<close>

fun contains :: "string \<Rightarrow> string \<Rightarrow> bool" where
  "contains t [] = (t = [])"
| "contains t (x # xs) = (startswith (x # xs) t \<or> contains t xs)"

lemma contains_iff: "contains t s \<longleftrightarrow> (\<exists>a b. s = a @ t @ b)"
proof (induction s)
  case Nil
  then show ?case by simp
next
  case (Cons x xs)
  have "(\<exists>a b. x # xs = a @ t @ b) \<longleftrightarrow> (\<exists>b. x # xs = t @ b) \<or> (\<exists>a b. xs = a @ t @ b)"
    by (auto simp: Cons_eq_append_conv)
  with Cons.IH show ?case by (simp add: startswith_iff)
qed

fun join :: "string \<Rightarrow> string list \<Rightarrow> string" where
  "join sep [] = []"
| "join sep [x] = x"
| "join sep (x # y # ys) = x @ sep @ join sep (y # ys)"

lemma join_Cons: "xs \<noteq> [] \<Longrightarrow> join sep (x # xs) = x @ sep @ join sep xs"
  by (cases xs) auto

lemma join_append:
  "xs \<noteq> [] \<Longrightarrow> ys \<noteq> [] \<Longrightarrow> join sep (xs @ ys) = join sep xs @ sep @ join sep ys"
proof (induction xs)
  case Nil
  then show ?case by simp
next
  case (Cons x xs)
  then show ?case by (cases xs) (auto simp: join_Cons)
qed

text \<open>\<open>sorted(set(xs))\<close>: the distinct elements in increasing order.\<close>

definition sorted_set :: "'a::linorder list \<Rightarrow> 'a list" where
  "sorted_set xs = sort (remdups xs)"

lemma sorted_set_props [simp]:
  "set (sorted_set xs) = set xs" "sorted (sorted_set xs)" "distinct (sorted_set xs)"
  by (simp_all add: sorted_set_def)

lemma sorted_set_Nil_iff [simp]: "sorted_set xs = [] \<longleftrightarrow> xs = []"
  using sorted_set_props(1) [of xs] by (cases "sorted_set xs"; cases xs) auto

lemma sorted_set_hd: "xs \<noteq> [] \<Longrightarrow> hd (sorted_set xs) = Min (set xs)"
proof -
  assume "xs \<noteq> []"
  then obtain y ys where ys: "sorted_set xs = y # ys"
    by (cases "sorted_set xs") auto
  then have "set xs = insert y (set ys)" and "\<forall>z \<in> set ys. y \<le> z"
    using sorted_set_props(1,2) [of xs] by auto
  with ys show ?thesis by (auto intro!: Min_eqI [symmetric])
qed

text \<open>The partition of \<open>s.split(sep, 1)\<close> at the first occurrence of \<open>sep\<close>, if it has one.\<close>

fun split_once :: "string \<Rightarrow> string \<Rightarrow> (string \<times> string) option" where
  "split_once sep [] = (if sep = [] then Some ([], []) else None)"
| "split_once sep (x # xs) =
     (if startswith (x # xs) sep then Some ([], drop (length sep) (x # xs))
      else map_option (\<lambda>(a, b). (x # a, b)) (split_once sep xs))"

lemma split_once_Some: "split_once sep s = Some (a, b) \<Longrightarrow> s = a @ sep @ b"
proof (induction s arbitrary: a)
  case Nil
  then show ?case by (auto split: if_splits)
next
  case (Cons x xs)
  then show ?case
    by (auto simp: startswith_iff split: if_splits)
qed

lemma split_once_None: "split_once sep s = None \<longleftrightarrow> \<not> contains sep s"
  by (induction s) (auto split: if_splits)

text \<open>
  The earliest occurrence is the one taken: nothing before it together with the separator's
  characters contains the separator already.
\<close>

lemma split_once_single:
  "c \<notin> set a \<Longrightarrow> split_once [c] (a @ c # b) = Some (a, b)"
  by (induction a) (auto simp: startswith_def)

end
