(* ===== verification/Py_Text.thy ===== *)
theory Py_Text
  imports Py_Base
begin

text \<open>
  The text functions of Python that the tools call: \<open>splitlines\<close>, \<open>strip\<close>, \<open>upper\<close>, \<open>lower\<close>,
  \<open>repr\<close>, the decimal and the grouped printing of integers, and \<open>int(text, base)\<close>. The last
  section shows that printing and parsing are inverse.
\<close>

section \<open>Character classes\<close>

abbreviation ord :: "char \<Rightarrow> nat" where
  "ord c \<equiv> of_char c"

definition in_range :: "char \<Rightarrow> nat \<Rightarrow> nat \<Rightarrow> bool" where
  "in_range c lo hi \<longleftrightarrow> lo \<le> ord c \<and> ord c \<le> hi"

text \<open>\<open>str.isspace\<close>, which is also what \<open>\\s\<close> matches.\<close>

definition is_space :: "char \<Rightarrow> bool" where
  "is_space c \<longleftrightarrow>
     in_range c 9 13 \<or> in_range c 28 32 \<or> ord c = 133 \<or> ord c = 160"

text \<open>The line boundaries of \<open>str.splitlines\<close>; a carriage return takes a following line feed.\<close>

definition is_linebreak :: "char \<Rightarrow> bool" where
  "is_linebreak c \<longleftrightarrow> in_range c 10 13 \<or> in_range c 28 30 \<or> ord c = 133"

fun splitlines_acc :: "string \<Rightarrow> string \<Rightarrow> string list" where
  "splitlines_acc acc [] = (if acc = [] then [] else [rev acc])"
| "splitlines_acc acc (c # cs) =
     (if c = CHR 0x0D then
        (case cs of
           d # ds \<Rightarrow> if d = CHR 0x0A then rev acc # splitlines_acc [] ds
                     else rev acc # splitlines_acc [] cs
         | [] \<Rightarrow> [rev acc])
      else if is_linebreak c then rev acc # splitlines_acc [] cs
      else splitlines_acc (c # acc) cs)"

definition splitlines :: "string \<Rightarrow> string list" where
  "splitlines s = splitlines_acc [] s"

definition lstrip_by :: "(char \<Rightarrow> bool) \<Rightarrow> string \<Rightarrow> string" where
  "lstrip_by P s = dropWhile P s"

definition strip_by :: "(char \<Rightarrow> bool) \<Rightarrow> string \<Rightarrow> string" where
  "strip_by P s = rev (dropWhile P (rev (dropWhile P s)))"

definition strip :: "string \<Rightarrow> string" where
  "strip = strip_by is_space"

text \<open>\<open>s.strip(dq)\<close>: every leading and trailing double quote.\<close>

definition strip_dq :: "string \<Rightarrow> string" where
  "strip_dq = strip_by (\<lambda>c. c = CHR 0x22)"

text \<open>
  \<open>str.split()\<close>: the maximal runs of non-space characters.
\<close>

fun split_ws_acc :: "string \<Rightarrow> string \<Rightarrow> string list" where
  "split_ws_acc acc [] = (if acc = [] then [] else [rev acc])"
| "split_ws_acc acc (c # cs) =
     (if is_space c then (if acc = [] then split_ws_acc [] cs else rev acc # split_ws_acc [] cs)
      else split_ws_acc (c # acc) cs)"

definition split_ws :: "string \<Rightarrow> string list" where
  "split_ws s = split_ws_acc [] s"

definition lower_char :: "char \<Rightarrow> char" where
  "lower_char c =
     (if in_range c 65 90 \<or> in_range c 192 222 \<and> ord c \<noteq> 215 then char_of (ord c + 32) else c)"

definition lower :: "string \<Rightarrow> string" where
  "lower s = map lower_char s"

text \<open>\<open>str.upper\<close> on ASCII text, the only text the tools apply it to.\<close>

definition upper_char :: "char \<Rightarrow> char" where
  "upper_char c = (if in_range c 97 122 then char_of (ord c - 32) else c)"

definition upper :: "string \<Rightarrow> string" where
  "upper s = map upper_char s"

section \<open>Printing\<close>

definition digit_char :: "nat \<Rightarrow> char" where
  "digit_char d = ''0123456789abcdef'' ! d"

fun show_nat :: "nat \<Rightarrow> string" where
  "show_nat n = (if n < 10 then [digit_char n] else show_nat (n div 10) @ [digit_char (n mod 10)])"

declare show_nat.simps [simp del]

definition show_int :: "int \<Rightarrow> string" where
  "show_int i = (if i < 0 then ''-'' @ show_nat (nat (- i)) else show_nat (nat i))"

text \<open>The \<open>,\<close> format: groups of three digits from the right.\<close>

fun group3 :: "string \<Rightarrow> string" where
  "group3 (a # b # c # d # ds) = a # b # c # CHR '','' # group3 (d # ds)"
| "group3 ds = ds"

definition show_grouped :: "int \<Rightarrow> string" where
  "show_grouped i =
     (if i < 0 then ''-'' else '''') @ rev (group3 (rev (show_nat (nat (abs i)))))"

definition hex2 :: "nat \<Rightarrow> string" where
  "hex2 n = [digit_char (n div 16), digit_char (n mod 16)]"

text \<open>\<open>repr\<close> of a string: the quote is a single quote unless only single quotes occur inside.\<close>

definition repr_char :: "char \<Rightarrow> char \<Rightarrow> string" where
  "repr_char q c =
     (if c = CHR 0x5C \<or> c = q then [CHR 0x5C, c]
      else if c = CHR 0x09 then CHR 0x5C # ''t''
      else if c = CHR 0x0A then CHR 0x5C # ''n''
      else if c = CHR 0x0D then CHR 0x5C # ''r''
      else if ord c < 32 \<or> in_range c 127 160 \<or> ord c = 173
        then CHR 0x5C # ''x'' @ hex2 (ord c)
      else [c])"

definition repr_str :: "string \<Rightarrow> string" where
  "repr_str s =
     (let q = (if CHR 0x27 \<in> set s \<and> CHR 0x22 \<notin> set s then CHR 0x22 else CHR 0x27)
      in q # concat (map (repr_char q) s) @ [q])"

section \<open>Parsing integers\<close>

text \<open>The digit values \<open>int\<close> knows; a digit must be below the base.\<close>

definition digit_val :: "char \<Rightarrow> nat option" where
  "digit_val c =
     (if in_range c 48 57 then Some (ord c - 48)
      else if in_range c 97 122 then Some (ord c - 87)
      else if in_range c 65 90 then Some (ord c - 55)
      else None)"

text \<open>
  A digit sequence with single underscores between digits. The flag says whether the last
  character read was a digit.
\<close>

fun digits_val :: "nat \<Rightarrow> nat \<Rightarrow> bool \<Rightarrow> string \<Rightarrow> nat option" where
  "digits_val b acc ld [] = (if ld then Some acc else None)"
| "digits_val b acc ld (c # cs) =
     (if c = CHR ''_'' then (if ld then digits_val b acc False cs else None)
      else case digit_val c of
             None \<Rightarrow> None
           | Some d \<Rightarrow> if d < b then digits_val b (acc * b + d) True cs else None)"

text \<open>One underscore may follow a base prefix.\<close>

definition after_prefix :: "nat \<Rightarrow> string \<Rightarrow> nat option" where
  "after_prefix b s =
     (case s of
        c # cs \<Rightarrow> if c = CHR ''_'' then digits_val b 0 False cs else digits_val b 0 False s
      | [] \<Rightarrow> None)"

definition has_prefix :: "char list \<Rightarrow> string \<Rightarrow> bool" where
  "has_prefix ls s \<longleftrightarrow> (case s of z # c # _ \<Rightarrow> z = CHR ''0'' \<and> c \<in> set ls | _ \<Rightarrow> False)"

definition unsigned_val :: "nat \<Rightarrow> string \<Rightarrow> nat option" where
  "unsigned_val base s =
     (if base = 16 then
        (if has_prefix ''xX'' s then after_prefix 16 (drop 2 s) else digits_val 16 0 False s)
      else if base = 10 then digits_val 10 0 False s
      else if has_prefix ''xX'' s then after_prefix 16 (drop 2 s)
      else if has_prefix ''oO'' s then after_prefix 8 (drop 2 s)
      else if has_prefix ''bB'' s then after_prefix 2 (drop 2 s)
      else case digits_val 10 0 False s of
             None \<Rightarrow> None
           | Some n \<Rightarrow> if n \<noteq> 0 \<and> s \<noteq> [] \<and> hd s = CHR ''0'' then None else Some n)"

text \<open>
  \<open>int(s, base)\<close> for the bases 0, 10 and 16; \<open>None\<close> is the \<open>ValueError\<close>. Surrounding white
  space is dropped and one sign is read. Base 0 takes the base from the prefix and rejects a
  non-zero decimal literal with a leading zero.
\<close>

definition py_int :: "nat \<Rightarrow> string \<Rightarrow> int option" where
  "py_int base s =
     (case strip s of
        [] \<Rightarrow> None
      | c # cs \<Rightarrow>
          if c = CHR ''-'' then map_option (\<lambda>n. - int n) (unsigned_val base cs)
          else if c = CHR ''+'' then map_option int (unsigned_val base cs)
          else map_option int (unsigned_val base (c # cs)))"

section \<open>Paths\<close>

text \<open>\<open>d / n\<close> for a path and a name; an absolute name replaces the path.\<close>

definition path_join :: "string \<Rightarrow> string \<Rightarrow> string" where
  "path_join d n =
     (if startswith n ''/'' \<or> d = ''.'' then n else if endswith d ''/'' then d @ n else d @ ''/'' @ n)"

section \<open>Printing and parsing are inverse\<close>

lemma less10_cases: "(n::nat) < 10 \<Longrightarrow> n \<in> {0, 1, 2, 3, 4, 5, 6, 7, 8, 9}"
  by auto

lemma digit_val_digit_char: "d < 10 \<Longrightarrow> digit_val (digit_char d) = Some d"
  by (drule less10_cases) (auto simp: digit_char_def digit_val_def in_range_def)

lemma digit_char_range: "d < 10 \<Longrightarrow> in_range (digit_char d) 48 57"
  by (drule less10_cases) (auto simp: digit_char_def in_range_def)

lemma digit_char_0: "d < 10 \<Longrightarrow> digit_char d = CHR ''0'' \<longleftrightarrow> d = 0"
  by (drule less10_cases) (auto simp: digit_char_def)

lemma show_nat_digits: "c \<in> set (show_nat n) \<Longrightarrow> in_range c 48 57"
proof (induction n rule: show_nat.induct)
  case (1 n)
  then show ?case
    by (subst (asm) (2) show_nat.simps) (auto split: if_splits intro: digit_char_range)
qed

lemma show_nat_not_Nil [simp]: "show_nat n \<noteq> []"
  by (subst show_nat.simps) simp

lemma hd_show_nat: "hd (show_nat n) = CHR ''0'' \<longleftrightarrow> n = 0"
proof (induction n rule: show_nat.induct)
  case (1 n)
  show ?case
  proof (cases "n < 10")
    case True
    then show ?thesis by (subst show_nat.simps) (simp add: digit_char_0)
  next
    case False
    then have "hd (show_nat n) = hd (show_nat (n div 10))"
      by (subst show_nat.simps) simp
    with False 1 show ?thesis by simp
  qed
qed

lemma digits_val_append:
  "digits_val b acc ld xs = Some a \<Longrightarrow> digits_val b acc ld (xs @ ys) = digits_val b a True ys"
  by (induction b acc ld xs rule: digits_val.induct) (auto split: if_splits option.splits)

lemma digit_not_underscore: "in_range c 48 57 \<Longrightarrow> c \<noteq> CHR ''_''"
  by (auto simp: in_range_def)

lemma digits_val_show_nat:
  "digits_val 10 acc ld (show_nat n) = Some (acc * 10 ^ length (show_nat n) + n)"
proof (induction n arbitrary: acc ld rule: show_nat.induct)
  case (1 n)
  show ?case
  proof (cases "n < 10")
    case True
    then have "digit_char n \<noteq> CHR ''_''"
      by (blast dest: digit_char_range digit_not_underscore)
    with True show ?thesis
      by (subst (1 2) show_nat.simps) (simp add: digit_val_digit_char)
  next
    case False
    then have un: "show_nat n = show_nat (n div 10) @ [digit_char (n mod 10)]"
      by (subst show_nat.simps) simp
    have "digit_char (n mod 10) \<noteq> CHR ''_''"
      by (intro digit_not_underscore digit_char_range) simp
    moreover have "digits_val 10 acc ld (show_nat (n div 10))
        = Some (acc * 10 ^ length (show_nat (n div 10)) + n div 10)"
      using 1 False by simp
    ultimately show ?thesis
      unfolding un by (simp add: digits_val_append digit_val_digit_char algebra_simps)
  qed
qed

lemma dropWhile_none: "\<forall>c \<in> set s. \<not> P c \<Longrightarrow> dropWhile P s = s"
  by (cases s) auto

lemma strip_by_id: "\<forall>c \<in> set s. \<not> P c \<Longrightarrow> strip_by P s = s"
  by (simp add: strip_by_def dropWhile_none)

lemma digit_not_space: "in_range c 48 57 \<Longrightarrow> \<not> is_space c"
  by (auto simp: in_range_def is_space_def)

lemma strip_show_nat: "strip (show_nat n) = show_nat n"
  unfolding strip_def by (rule strip_by_id) (blast dest: show_nat_digits digit_not_space)

lemma strip_show_int: "strip (show_int i) = show_int i"
  unfolding strip_def show_int_def
  by (rule strip_by_id) (auto dest: show_nat_digits digit_not_space simp: is_space_def in_range_def)

lemma no_prefix_show_nat: "\<forall>c \<in> set ls. \<not> in_range c 48 57 \<Longrightarrow>
    \<not> has_prefix ls (show_nat n)"
  using show_nat_digits [of _ n] by (auto simp: has_prefix_def split: list.splits)

lemma unsigned_val_show_nat:
  assumes "base = 0 \<or> base = 10"
  shows "unsigned_val base (show_nat n) = Some n"
proof -
  have "\<not> has_prefix ''xX'' (show_nat n)" "\<not> has_prefix ''oO'' (show_nat n)"
    "\<not> has_prefix ''bB'' (show_nat n)"
    by (rule no_prefix_show_nat; simp add: in_range_def)+
  then show ?thesis
    using assms by (auto simp: unsigned_val_def digits_val_show_nat hd_show_nat)
qed

lemma py_int_show_int:
  assumes "base = 0 \<or> base = 10"
  shows "py_int base (show_int i) = Some i"
proof -
  obtain c cs where c: "show_nat (nat i) = c # cs"
    by (cases "show_nat (nat i)") auto
  then have "in_range c 48 57" using show_nat_digits [of c "nat i"] by simp
  then have "c \<noteq> CHR ''-''" "c \<noteq> CHR ''+''" by (auto simp: in_range_def)
  then show ?thesis
    using c unsigned_val_show_nat [OF assms, of "nat i"]
      unsigned_val_show_nat [OF assms, of "nat (- i)"]
    by (auto simp: py_int_def strip_show_int) (auto simp: show_int_def)
qed

end
