(* ===== verification/Py_Json.thy ===== *)
theory Py_Json
  imports Py_Text
begin

text \<open>
  JSON documents as the Python values \<open>json.loads\<close> makes of them, with the operations the tools
  apply: subscripts and \<open>get\<close>, \<open>isinstance\<close> tests, truth values, comparison with a constant,
  membership, \<open>str\<close>, \<open>repr\<close> and \<open>json.dumps(..., indent=2, sort_keys=True)\<close>.

  A dictionary is an association list in insertion order. A float carries its exact value and the
  text \<open>repr\<close> prints for it.
\<close>

section \<open>Values\<close>

datatype fval = Dyadic int int | Infty bool | Nan

datatype pyfloat = PyFloat (float_val: fval) (float_repr: string)

datatype json =
    JNull
  | JBool bool
  | JInt int
  | JFloat pyfloat
  | JStr string
  | JArr "json list"
  | JObj "(string \<times> json) list"

text \<open>
  What \<open>json.loads\<close> does with a text: the document, a \<open>JSONDecodeError\<close> with its text, the plain \<open>ValueError\<close> of an
  integer with more digits than the interpreter converts, or a \<open>RecursionError\<close> where the nesting is too deep.
\<close>

datatype loads_result = Json_document json | Json_decode_error string | Json_value_error string | Json_too_deep

type_synonym dict = "(string \<times> json) list"

text \<open>\<open>isinstance(v, int)\<close> accepts booleans, which count as 0 and 1.\<close>

definition int_of :: "json \<Rightarrow> int option" where
  "int_of v = (case v of JInt i \<Rightarrow> Some i | JBool b \<Rightarrow> Some (of_bool b) | _ \<Rightarrow> None)"

definition is_bool :: "json \<Rightarrow> bool" where
  "is_bool v \<longleftrightarrow> (case v of JBool _ \<Rightarrow> True | _ \<Rightarrow> False)"

definition is_str :: "json \<Rightarrow> bool" where
  "is_str v \<longleftrightarrow> (case v of JStr _ \<Rightarrow> True | _ \<Rightarrow> False)"

text \<open>The value of each JSON type, if it has that type.\<close>

definition as_str :: "json \<Rightarrow> string option" where
  "as_str v = (case v of JStr s \<Rightarrow> Some s | _ \<Rightarrow> None)"

definition as_int :: "json \<Rightarrow> int option" where
  "as_int v = (case v of JInt i \<Rightarrow> Some i | _ \<Rightarrow> None)"

definition as_bool :: "json \<Rightarrow> bool option" where
  "as_bool v = (case v of JBool b \<Rightarrow> Some b | _ \<Rightarrow> None)"

definition as_arr :: "json \<Rightarrow> json list option" where
  "as_arr v = (case v of JArr vs \<Rightarrow> Some vs | _ \<Rightarrow> None)"

definition as_obj :: "json \<Rightarrow> dict option" where
  "as_obj v = (case v of JObj d \<Rightarrow> Some d | _ \<Rightarrow> None)"

lemma as_Some:
  "as_str v = Some s \<longleftrightarrow> v = JStr s"
  "as_int v = Some i \<longleftrightarrow> v = JInt i"
  "as_bool v = Some b \<longleftrightarrow> v = JBool b"
  "as_arr v = Some vs \<longleftrightarrow> v = JArr vs"
  "as_obj v = Some d \<longleftrightarrow> v = JObj d"
  by (auto simp: as_str_def as_int_def as_bool_def as_arr_def as_obj_def split: json.splits)

text \<open>The strings among a list of values.\<close>

definition strs :: "json list \<Rightarrow> string list" where
  "strs vs = concat (map (\<lambda>v. case v of JStr s \<Rightarrow> [s] | _ \<Rightarrow> []) vs)"

lemma set_strs: "set (strs vs) = {s. JStr s \<in> set vs}"
  by (auto simp: strs_def split: json.splits)

lemma strs_Cons: "strs (v # vs) = (case v of JStr s \<Rightarrow> [s] | _ \<Rightarrow> []) @ strs vs"
  by (simp add: strs_def)

lemma list_all_is_str: "list_all is_str vs \<longleftrightarrow> vs = map JStr (strs vs)"
proof (induction vs)
  case Nil
  then show ?case by (simp add: strs_def)
next
  case (Cons v vs)
  have "length (strs vs) \<le> length vs"
    by (induction vs) (auto simp: strs_def split: json.splits)
  then have "v # vs \<noteq> map JStr (strs vs)"
    by (metis Suc_n_not_le_n length_Cons length_map)
  with Cons show ?case by (auto simp: strs_Cons is_str_def split: json.splits)
qed

lemma strs_map_JStr [simp]: "strs (map JStr xs) = xs"
  by (induction xs) (simp_all add: strs_def)

text \<open>\<open>v == n\<close> for an integer constant \<open>n\<close>: booleans and floats compare by value.\<close>

definition float_eq_int :: "fval \<Rightarrow> int \<Rightarrow> bool" where
  "float_eq_int f n \<longleftrightarrow>
     (case f of
        Dyadic m e \<Rightarrow> if 0 \<le> e then m * 2 ^ nat e = n else m = n * 2 ^ nat (- e)
      | _ \<Rightarrow> False)"

definition eq_int :: "json \<Rightarrow> int \<Rightarrow> bool" where
  "eq_int v n \<longleftrightarrow>
     (case v of
        JInt i \<Rightarrow> i = n
      | JBool b \<Rightarrow> of_bool b = n
      | JFloat f \<Rightarrow> float_eq_int (float_val f) n
      | _ \<Rightarrow> False)"

text \<open>\<open>n <= f\<close> for an integer \<open>n\<close> and a float.\<close>

definition int_le_float :: "int \<Rightarrow> fval \<Rightarrow> bool" where
  "int_le_float n f \<longleftrightarrow>
     (case f of
        Dyadic m e \<Rightarrow> if 0 \<le> e then n \<le> m * 2 ^ nat e else n * 2 ^ nat (- e) \<le> m
      | Infty pos \<Rightarrow> pos
      | Nan \<Rightarrow> False)"

text \<open>The truth value of an object in a condition.\<close>

definition truthy :: "json \<Rightarrow> bool" where
  "truthy v \<longleftrightarrow>
     (case v of
        JNull \<Rightarrow> False
      | JBool b \<Rightarrow> b
      | JInt i \<Rightarrow> i \<noteq> 0
      | JFloat f \<Rightarrow> \<not> float_eq_int (float_val f) 0
      | JStr s \<Rightarrow> s \<noteq> []
      | JArr vs \<Rightarrow> vs \<noteq> []
      | JObj kvs \<Rightarrow> kvs \<noteq> [])"

section \<open>Dictionaries\<close>

text \<open>\<open>d.get(k)\<close> is \<open>None\<close> for a missing key; \<open>d[k]\<close> raises.\<close>

definition dict_get :: "dict \<Rightarrow> string \<Rightarrow> json" where
  "dict_get d k = (case map_of d k of Some v \<Rightarrow> v | None \<Rightarrow> JNull)"

definition dict_get_default :: "dict \<Rightarrow> string \<Rightarrow> json \<Rightarrow> json" where
  "dict_get_default d k v0 = (case map_of d k of Some v \<Rightarrow> v | None \<Rightarrow> v0)"

definition getitem :: "dict \<Rightarrow> string \<Rightarrow> json res" where
  "getitem d k = (case map_of d k of Some v \<Rightarrow> Inr v | None \<Rightarrow> Inl (KeyError k))"

text \<open>\<open>v[k]\<close> with a string \<open>k\<close> on a value that need not be a dictionary.\<close>

definition subscript :: "json \<Rightarrow> string \<Rightarrow> json res" where
  "subscript v k = (case v of JObj d \<Rightarrow> getitem d k | _ \<Rightarrow> Inl TypeError)"

lemma getitem_eq_Inr [res_simps]: "getitem d k = Inr v \<longleftrightarrow> map_of d k = Some v"
  by (simp add: getitem_def split: option.splits)

lemma subscript_eq_Inr [res_simps]:
  "subscript v k = Inr w \<longleftrightarrow> (\<exists>d. v = JObj d \<and> map_of d k = Some w)"
  by (cases v) (auto simp: subscript_def getitem_eq_Inr)

text \<open>\<open>d[k] = v\<close>: an existing key keeps its place, a new one goes to the end.\<close>

fun dict_set :: "string \<Rightarrow> 'v \<Rightarrow> (string \<times> 'v) list \<Rightarrow> (string \<times> 'v) list" where
  "dict_set k v [] = [(k, v)]"
| "dict_set k v ((k', v') # d) = (if k = k' then (k, v) # d else (k', v') # dict_set k v d)"

text \<open>\<open>d[k]\<close> on a dictionary of any value type.\<close>

definition dict_item :: "(string \<times> 'v) list \<Rightarrow> string \<Rightarrow> 'v res" where
  "dict_item d k = (case map_of d k of Some v \<Rightarrow> Inr v | None \<Rightarrow> Inl (KeyError k))"

lemma dict_item_eq_Inr [res_simps]: "dict_item d k = Inr v \<longleftrightarrow> map_of d k = Some v"
  by (simp add: dict_item_def split: option.splits)

lemma dict_item_Some [simp]: "map_of d k = Some v \<Longrightarrow> dict_item d k = Inr v"
  by (simp add: dict_item_def)

abbreviation wf_dict :: "(string \<times> 'v) list \<Rightarrow> bool" where
  "wf_dict d \<equiv> distinct (map fst d)"

lemma map_of_dict_set: "map_of (dict_set k v d) = (map_of d)(k \<mapsto> v)"
  by (induction d) auto

lemma dict_set_keys: "set (map fst (dict_set k v d)) = insert k (set (map fst d))"
  by (simp add: dom_map_of_conv_image_fst [symmetric] map_of_dict_set)

lemma wf_dict_set: "wf_dict d \<Longrightarrow> wf_dict (dict_set k v d)"
proof (induction d)
  case (Cons a d)
  then show ?case using dict_set_keys [of k v d] by (cases a) auto
qed simp

section \<open>Membership\<close>

text \<open>
  \<open>s in v\<close> for a string \<open>s\<close>: an element of a list, a key of a dictionary, a substring of a
  string; other values raise \<open>TypeError\<close>.
\<close>

definition str_in :: "string \<Rightarrow> json \<Rightarrow> bool res" where
  "str_in s v =
     (case v of
        JArr vs \<Rightarrow> Inr (JStr s \<in> set vs)
      | JObj d \<Rightarrow> Inr (s \<in> set (map fst d))
      | JStr t \<Rightarrow> Inr (contains s t)
      | _ \<Rightarrow> Inl TypeError)"

text \<open>
  The strings of \<open>set(v)\<close>: a list with an unhashable element (a list or a dictionary) raises, and
  so does a value that cannot be iterated.
\<close>

definition hashable :: "json \<Rightarrow> bool" where
  "hashable v \<longleftrightarrow> (case v of JArr _ \<Rightarrow> False | JObj _ \<Rightarrow> False | _ \<Rightarrow> True)"

definition str_set :: "json \<Rightarrow> string list res" where
  "str_set v =
     (case v of
        JArr vs \<Rightarrow> if list_all hashable vs then Inr (strs vs) else Inl TypeError
      | JObj d \<Rightarrow> Inr (map fst d)
      | JStr t \<Rightarrow> Inr (map (\<lambda>c. [c]) t)
      | _ \<Rightarrow> Inl TypeError)"

section \<open>Printing\<close>

definition show_bool :: "bool \<Rightarrow> string" where
  "show_bool b = (if b then ''True'' else ''False'')"

fun repr_json :: "json \<Rightarrow> string" where
  "repr_json JNull = ''None''"
| "repr_json (JBool b) = show_bool b"
| "repr_json (JInt i) = show_int i"
| "repr_json (JFloat f) = float_repr f"
| "repr_json (JStr s) = repr_str s"
| "repr_json (JArr vs) = ''['' @ join '', '' (map repr_json vs) @ '']''"
| "repr_json (JObj kvs) =
     ''{'' @ join '', '' (map (\<lambda>(k, v). repr_str k @ '': '' @ repr_json v) kvs) @ ''}''"

text \<open>\<open>str(v)\<close>, which is what a replacement field prints: only strings differ from \<open>repr\<close>.\<close>

definition str_json :: "json \<Rightarrow> string" where
  "str_json v = (case v of JStr s \<Rightarrow> s | _ \<Rightarrow> repr_json v)"

definition dump_char :: "char \<Rightarrow> string" where
  "dump_char c =
     (if c = CHR 0x22 \<or> c = CHR 0x5C then [CHR 0x5C, c]
      else if c = CHR 0x0A then CHR 0x5C # ''n''
      else if c = CHR 0x0D then CHR 0x5C # ''r''
      else if c = CHR 0x09 then CHR 0x5C # ''t''
      else if c = CHR 0x0C then CHR 0x5C # ''f''
      else if c = CHR 0x08 then CHR 0x5C # ''b''
      else if in_range c 32 126 then [c]
      else CHR 0x5C # ''u00'' @ hex2 (ord c))"

definition dump_str :: "string \<Rightarrow> string" where
  "dump_str s = dq @ concat (map dump_char s) @ dq"

definition dump_float :: "pyfloat \<Rightarrow> string" where
  "dump_float f =
     (case float_val f of
        Nan \<Rightarrow> ''NaN''
      | Infty pos \<Rightarrow> if pos then ''Infinity'' else ''-Infinity''
      | _ \<Rightarrow> float_repr f)"

definition indent :: "nat \<Rightarrow> string" where
  "indent n = nl @ replicate (2 * n) CHR '' ''"

text \<open>\<open>json.dumps(v, indent=2)\<close> at nesting level \<open>n\<close>; \<open>dumps_sorted\<close> adds \<open>sort_keys=True\<close>.\<close>

fun dumps :: "nat \<Rightarrow> json \<Rightarrow> string" where
  "dumps n JNull = ''null''"
| "dumps n (JBool b) = (if b then ''true'' else ''false'')"
| "dumps n (JInt i) = show_int i"
| "dumps n (JFloat f) = dump_float f"
| "dumps n (JStr s) = dump_str s"
| "dumps n (JArr vs) =
     (if vs = [] then ''[]''
      else ''['' @ indent (Suc n) @ join ('','' @ indent (Suc n)) (map (dumps (Suc n)) vs)
        @ indent n @ '']'')"
| "dumps n (JObj kvs) =
     (if kvs = [] then ''{}''
      else ''{'' @ indent (Suc n)
        @ join ('','' @ indent (Suc n))
            (map (\<lambda>(k, v). dump_str k @ '': '' @ dumps (Suc n) v) kvs)
        @ indent n @ ''}'')"

fun sort_keys :: "json \<Rightarrow> json" where
  "sort_keys (JArr vs) = JArr (map sort_keys vs)"
| "sort_keys (JObj kvs) = JObj (sort_key fst (map (\<lambda>(k, v). (k, sort_keys v)) kvs))"
| "sort_keys v = v"

definition dumps_sorted :: "json \<Rightarrow> string" where
  "dumps_sorted v = dumps 0 (sort_keys v)"

end
