(* ===== verification/Kconfig.thy ===== *)
theory Kconfig
  imports Py_Json "HOL-Library.Word"
begin

text \<open>
  The inputs of \<open>src/tools/verify_resources.py\<close>: the files it reads, \<open>reject\<close>, \<open>load_json\<close>, and
  the Kconfig files of a Zephyr build with \<open>parse_config\<close> and \<open>integer_config\<close>. Printing a
  configuration and parsing it is shown to be the identity.
\<close>

section \<open>Files\<close>

text \<open>
  What the tool can find at a path. The decodings of the bytes are part of the parameter:
  \<open>strict_text\<close> is \<open>None\<close> for bytes that are not UTF-8, \<open>lossy_text\<close> is the decoding with
  \<open>errors=replace\<close>, and \<open>decoded\<close> is what \<open>json.loads\<close> makes of the text.
\<close>

record rfile =
  content :: "8 word list"
  strict_text :: "string option"
  lossy_text :: string
  decoded :: loads_result

datatype node = Absent string | Directory | Regular rfile

type_synonym rworld = "string \<Rightarrow> node"

definition is_file :: "rworld \<Rightarrow> string \<Rightarrow> bool" where
  "is_file w p \<longleftrightarrow> (case w p of Regular _ \<Rightarrow> True | _ \<Rightarrow> False)"

definition is_dir :: "rworld \<Rightarrow> string \<Rightarrow> bool" where
  "is_dir w p \<longleftrightarrow> w p = Directory"

text \<open>Opening a path for reading; the left value is the text of the \<open>OSError\<close>.\<close>

definition open_file :: "rworld \<Rightarrow> string \<Rightarrow> string + rfile" where
  "open_file w p =
     (case w p of
        Absent err \<Rightarrow> Inl err
      | Directory \<Rightarrow> Inl (''[Errno 21] Is a directory: '' @ repr_str p)
      | Regular f \<Rightarrow> Inr f)"

text \<open>A file with a text of one-byte characters that is not JSON.\<close>

definition text_file :: "string \<Rightarrow> rfile" where
  "text_file t = \<lparr>content = map (\<lambda>c. of_nat (ord c)) t, strict_text = Some t, lossy_text = t,
     decoded = Json_decode_error []\<rparr>"

definition resource_reject :: "string \<Rightarrow> string \<Rightarrow> 'a res" where
  "resource_reject code msg = Inl (ResourceError code msg)"

definition resource_load_json :: "rworld \<Rightarrow> string \<Rightarrow> dict res" where
  "resource_load_json w path =
     (case open_file w path of
        Inl err \<Rightarrow> resource_reject ''E_RESOURCE_INPUT'' (''cannot read '' @ path @ '': '' @ err)
      | Inr f \<Rightarrow>
          (case strict_text f of
             None \<Rightarrow> Inl UnicodeDecodeError
           | Some _ \<Rightarrow>
               (case decoded f of
                  Json_value_error err \<Rightarrow> Inl (ValueError err)
                | Json_too_deep \<Rightarrow> Inl RecursionError
                | Json_decode_error err \<Rightarrow>
                    resource_reject ''E_RESOURCE_INPUT'' (''cannot read '' @ path @ '': '' @ err)
                | Json_document (JObj d) \<Rightarrow> Inr d
                | Json_document _ \<Rightarrow>
                    resource_reject ''E_RESOURCE_INPUT'' (path @ '' must contain a JSON object''))))"

section \<open>Configurations\<close>

type_synonym kconfig = "(string \<times> string) list"

definition config_line :: "kconfig \<Rightarrow> string \<Rightarrow> kconfig" where
  "config_line vals line =
     (if startswith line ''CONFIG_'' \<and> contains ''='' line then
        (case split_once ''='' line of
           Some (key, value) \<Rightarrow> dict_set key (strip_dq value) vals
         | None \<Rightarrow> vals)
      else if startswith line ''# CONFIG_'' \<and> endswith line '' is not set'' then
        dict_set (take (length line - 13) (drop 2 line)) ''n'' vals
      else vals)"

definition parse_config_text :: "string \<Rightarrow> kconfig" where
  "parse_config_text text = foldl config_line [] (splitlines text)"

definition parse_config :: "rworld \<Rightarrow> string \<Rightarrow> kconfig res" where
  "parse_config w path =
     (case open_file w path of
        Inl err \<Rightarrow> resource_reject ''E_RESOURCE_INPUT'' (''cannot read '' @ path @ '': '' @ err)
      | Inr f \<Rightarrow>
          (case strict_text f of
             None \<Rightarrow> Inl UnicodeDecodeError
           | Some text \<Rightarrow> Inr (parse_config_text text)))"

definition integer_config :: "kconfig \<Rightarrow> string \<Rightarrow> int option" where
  "integer_config config key =
     (case map_of config key of
        None \<Rightarrow> None
      | Some value \<Rightarrow> if value \<in> {''n'', ''y''} then None else py_int 0 value)"

section \<open>Printing a configuration\<close>

text \<open>The form in which Zephyr writes \<open>.config\<close>: a line per symbol, unset symbols as comments.\<close>

datatype setting = Value string | Text string | Unset

fun setting_line :: "string \<times> setting \<Rightarrow> string" where
  "setting_line (key, Value v) = key @ ''='' @ v"
| "setting_line (key, Text v) = key @ ''='' @ quoted v"
| "setting_line (key, Unset) = ''# '' @ key @ '' is not set''"

fun setting_value :: "setting \<Rightarrow> string" where
  "setting_value (Value v) = v"
| "setting_value (Text v) = v"
| "setting_value Unset = ''n''"

definition wf_key :: "string \<Rightarrow> bool" where
  "wf_key k \<longleftrightarrow> startswith k ''CONFIG_'' \<and> CHR ''='' \<notin> set k \<and> (\<forall>c \<in> set k. \<not> is_linebreak c)"

definition wf_value :: "string \<Rightarrow> bool" where
  "wf_value v \<longleftrightarrow> (\<forall>c \<in> set v. \<not> is_linebreak c) \<and>
     \<not> startswith v dq \<and> \<not> endswith v dq"

definition wf_setting :: "string \<times> setting \<Rightarrow> bool" where
  "wf_setting ks \<longleftrightarrow> wf_key (fst ks) \<and> wf_value (setting_value (snd ks))"

definition print_config :: "(string \<times> setting) list \<Rightarrow> string" where
  "print_config kss = concat (map (\<lambda>ks. setting_line ks @ nl) kss)"

lemma splitlines_acc_line:
  "\<forall>c \<in> set l. \<not> is_linebreak c \<Longrightarrow>
     splitlines_acc acc (l @ nl @ rest) = (rev acc @ l) # splitlines_acc [] rest"
proof (induction l arbitrary: acc)
  case Nil
  then show ?case by (simp add: nl_def is_linebreak_def in_range_def)
next
  case (Cons c l)
  then have "c \<noteq> CHR 0x0D" by (auto simp: is_linebreak_def in_range_def)
  with Cons show ?case by simp
qed

lemma splitlines_lines:
  "\<forall>l \<in> set ls. \<forall>c \<in> set l. \<not> is_linebreak c \<Longrightarrow> splitlines (concat (map (\<lambda>l. l @ nl) ls)) = ls"
  unfolding splitlines_def
  by (induction ls) (simp_all add: splitlines_acc_line)

lemma splitlines_join:
  assumes "\<forall>l \<in> set ls. \<forall>c \<in> set l. \<not> is_linebreak c"
  shows "splitlines (join nl (ls @ [''''])) = ls"
proof -
  have "join nl (ls @ ['''']) = concat (map (\<lambda>l. l @ nl) ls)"
    by (induction ls) (simp_all add: join_Cons)
  with splitlines_lines [OF assms] show ?thesis by simp
qed

lemma strip_dq_wf: "wf_value v \<Longrightarrow> strip_dq v = v"
proof -
  assume "wf_value v"
  then have h: "v = [] \<or> hd v \<noteq> CHR 0x22"
    by (cases v) (auto simp: wf_value_def startswith_def dq_def)
  from \<open>wf_value v\<close> have h2: "v = [] \<or> last v \<noteq> CHR 0x22"
    by (cases v rule: rev_cases) (auto simp: wf_value_def endswith_iff dq_def)
  from h have "dropWhile (\<lambda>c. c = CHR 0x22) v = v" by (cases v) auto
  moreover from h2 have "dropWhile (\<lambda>c. c = CHR 0x22) (rev v) = rev v"
    by (cases v rule: rev_cases) auto
  ultimately show ?thesis by (simp add: strip_dq_def strip_by_def)
qed

lemma strip_dq_quoted: "wf_value v \<Longrightarrow> strip_dq (quoted v) = v"
proof (cases "v = []")
  case False
  assume wf: "wf_value v"
  then have h: "hd v \<noteq> CHR 0x22" using False by (cases v) (auto simp: wf_value_def startswith_def dq_def)
  have "dropWhile (\<lambda>c. c = CHR 0x22) (quoted v) = v @ dq"
    using h False by (cases v) (simp_all add: quoted_def dq_def)
  moreover have "dropWhile (\<lambda>c. c = CHR 0x22) (rev v) = rev v"
    using wf False by (cases v rule: rev_cases) (auto simp: wf_value_def endswith_iff dq_def)
  ultimately show ?thesis by (simp add: strip_dq_def strip_by_def dq_def)
qed (simp add: strip_dq_def strip_by_def quoted_def dq_def)

lemma config_line_assign:
  assumes "wf_key k"
  shows "config_line vals (k @ ''='' @ v) = dict_set k (strip_dq v) vals"
proof -
  from assms obtain r where "k = ''CONFIG_'' @ r" by (auto simp: wf_key_def startswith_iff)
  then have "startswith (k @ ''='' @ v) ''CONFIG_''" by (simp add: startswith_def)
  moreover have "contains ''='' (k @ ''='' @ v)" unfolding contains_iff by blast
  moreover have "split_once ''='' (k @ ''='' @ v) = Some (k, v)"
    using assms split_once_single [of "CHR ''=''" k v] by (simp add: wf_key_def)
  ultimately show ?thesis by (simp add: config_line_def)
qed

lemma config_line_unset:
  assumes "wf_key k"
  shows "config_line vals (''# '' @ k @ '' is not set'') = dict_set k ''n'' vals"
proof -
  from assms obtain r where r: "k = ''CONFIG_'' @ r" by (auto simp: wf_key_def startswith_iff)
  have "\<not> startswith (''# '' @ k @ '' is not set'') ''CONFIG_''" by (simp add: startswith_def)
  moreover have "startswith (''# '' @ k @ '' is not set'') ''# CONFIG_''"
    unfolding r by (simp add: startswith_def)
  moreover have "endswith (''# '' @ k @ '' is not set'') '' is not set''"
    unfolding endswith_iff by (metis append_assoc)
  moreover have "take (length (''# '' @ k @ '' is not set'') - 13) (drop 2 (''# '' @ k @ '' is not set'')) = k"
    by simp
  ultimately show ?thesis unfolding config_line_def by presburger
qed

lemma config_line_setting:
  "wf_setting ks \<Longrightarrow>
     config_line vals (setting_line ks) = dict_set (fst ks) (setting_value (snd ks)) vals"
  by (cases ks rule: setting_line.cases)
     (simp_all only: setting_line.simps fst_conv snd_conv setting_value.simps config_line_assign
       config_line_unset wf_setting_def strip_dq_wf strip_dq_quoted)

lemma setting_line_no_break:
  assumes "wf_setting ks" and "c \<in> set (setting_line ks)"
  shows "\<not> is_linebreak c"
  using assms
  by (cases ks rule: setting_line.cases)
     (auto simp: wf_setting_def wf_key_def wf_value_def quoted_def dq_def is_linebreak_def in_range_def)

lemma parse_lines:
  "\<forall>ks \<in> set kss. wf_setting ks \<Longrightarrow>
     foldl config_line vals (map setting_line kss) =
     foldl (\<lambda>d ks. dict_set (fst ks) (setting_value (snd ks)) d) vals kss"
  by (induction kss arbitrary: vals) (simp_all add: config_line_setting)

lemma parse_print:
  assumes "\<forall>ks \<in> set kss. wf_setting ks"
  shows "parse_config_text (print_config kss) =
    foldl (\<lambda>d ks. dict_set (fst ks) (setting_value (snd ks)) d) [] kss"
proof -
  have "splitlines (print_config kss) = map setting_line kss"
    unfolding print_config_def
    by (rule splitlines_lines [of "map setting_line kss", unfolded map_map comp_def])
       (use assms setting_line_no_break in auto)
  with parse_lines [OF assms] show ?thesis by (simp add: parse_config_text_def)
qed

lemma dict_set_new: "k \<notin> set (map fst d) \<Longrightarrow> dict_set k v d = d @ [(k, v)]"
  by (induction d) auto

lemma foldl_dict_set:
  "wf_dict (d @ kvs) \<Longrightarrow> foldl (\<lambda>d kv. dict_set (fst kv) (f (snd kv)) d) (map (apsnd f) d) kvs =
     map (apsnd f) (d @ kvs)"
proof (induction kvs arbitrary: d)
  case (Cons kv kvs)
  have "fst kv \<notin> set (map fst (map (apsnd f) d))" using Cons.prems by auto
  then have "dict_set (fst kv) (f (snd kv)) (map (apsnd f) d) = map (apsnd f) (d @ [kv])"
    by (cases kv) (simp add: dict_set_new)
  with Cons.IH [of "d @ [kv]"] Cons.prems show ?case by simp
qed simp

section \<open>Properties\<close>

text \<open>
  Property C16. Parsing the printed form of a configuration gives the configuration back, symbol by
  symbol in order: plain values, quoted strings without their quotes, and unset symbols as \<open>n\<close>.
\<close>

theorem parse_config_print:
  assumes "\<forall>ks \<in> set kss. wf_setting ks" and "wf_dict kss"
  shows "parse_config_text (print_config kss) = map (apsnd setting_value) kss"
  using parse_print [OF assms(1)] foldl_dict_set [of "[]" kss setting_value] assms(2) by simp

theorem parse_config_print_witness:
  "parse_config_text (print_config [(''CONFIG_A'', Value ''7''), (''CONFIG_B'', Text ''x y''),
     (''CONFIG_C'', Unset)]) = [(''CONFIG_A'', ''7''), (''CONFIG_B'', ''x y''), (''CONFIG_C'', ''n'')]"
proof -
  let ?kss = "[(''CONFIG_A'', Value ''7''), (''CONFIG_B'', Text ''x y''), (''CONFIG_C'', Unset)]"
  have "\<forall>ks \<in> set ?kss. wf_setting ks"
    by (simp add: wf_setting_def wf_key_def wf_value_def startswith_def endswith_def dq_def
        is_linebreak_def in_range_def)
  from parse_config_print [OF this] show ?thesis by simp
qed

end
