(* ===== verification/Resource_Plan.thy ===== *)
theory Resource_Plan
  imports Kconfig
begin

text \<open>
  The pre-link half of \<open>src/tools/verify_resources.py\<close>: \<open>make_check\<close>, \<open>configured_reservations\<close>
  and \<open>build_prelink_plan\<close>. The deployment plan is an arbitrary JSON object, as it is in the code:
  the tool reads it from a file. Reports are JSON objects with the keys in the order of the code.
\<close>

section \<open>Checks\<close>

definition opt_json :: "int option \<Rightarrow> json" where
  "opt_json v = (case v of None \<Rightarrow> JNull | Some i \<Rightarrow> JInt i)"

text \<open>
  \<open>a <= b\<close> on Python numbers: integers, booleans and floats compare by their exact values, NaN
  with nothing. Every call has a number on one side, so that any other type raises \<open>TypeError\<close>.
\<close>

definition num_val :: "json \<Rightarrow> fval option" where
  "num_val v =
     (case v of
        JInt i \<Rightarrow> Some (Dyadic i 0)
      | JBool b \<Rightarrow> Some (Dyadic (of_bool b) 0)
      | JFloat f \<Rightarrow> Some (float_val f)
      | _ \<Rightarrow> None)"

fun fval_le :: "fval \<Rightarrow> fval \<Rightarrow> bool" where
  "fval_le (Dyadic m e) (Dyadic n d) =
     (m * 2 ^ nat (e - min e d) \<le> n * 2 ^ nat (d - min e d))"
| "fval_le (Infty pos) y = (\<not> pos \<and> y \<noteq> Nan \<or> y = Infty True)"
| "fval_le (Dyadic m e) (Infty pos) = pos"
| "fval_le x y = False"

definition json_le :: "json \<Rightarrow> json \<Rightarrow> bool res" where
  "json_le a b =
     (case (num_val a, num_val b) of
        (Some x, Some y) \<Rightarrow> Inr (fval_le x y)
      | _ \<Rightarrow> Inl TypeError)"

definition check_row :: "string \<Rightarrow> string \<Rightarrow> json \<Rightarrow> json \<Rightarrow> string \<Rightarrow> string \<Rightarrow> json" where
  "check_row check_id code required available status detail =
     JObj [(''id'', JStr check_id), (''code'', JStr code), (''required'', required),
           (''available'', available), (''status'', JStr status), (''detail'', JStr detail)]"

definition make_check :: "string \<Rightarrow> string \<Rightarrow> json \<Rightarrow> json \<Rightarrow> string \<Rightarrow> json res" where
  "make_check check_id code required available detail =
     bindE (if available = JNull then Inr False else json_le required available) (\<lambda>passed.
     Inr (check_row check_id code required available (if passed then ''PASS'' else ''FAIL'') detail))"

section \<open>Reservations\<close>

definition reservation :: "string \<Rightarrow> json \<Rightarrow> string \<Rightarrow> json" where
  "reservation name bytes source =
     JObj [(''name'', JStr name), (''bytes'', bytes), (''source'', JStr source)]"

text \<open>The integer that a Python \<open>int\<close> or \<open>bool\<close> stands for.\<close>

definition int_val :: "json \<Rightarrow> int" where
  "int_val v = (case int_of v of Some i \<Rightarrow> i | None \<Rightarrow> 0)"

definition stack_keys :: "(string \<times> string) list" where
  "stack_keys =
     [(''main stack'', ''CONFIG_MAIN_STACK_SIZE''), (''idle stack'', ''CONFIG_IDLE_STACK_SIZE''),
      (''system workqueue stack'', ''CONFIG_SYSTEM_WORKQUEUE_STACK_SIZE'')]"

definition configured_stacks :: "kconfig \<Rightarrow> (json \<times> int) list" where
  "configured_stacks config =
     concat (map (\<lambda>(name, key).
       case integer_config config key of
         None \<Rightarrow> []
       | Some value \<Rightarrow> [(reservation name (JInt value) key, value)]) stack_keys)"

definition worker_stacks :: "kconfig \<Rightarrow> string \<Rightarrow> json \<Rightarrow> (json \<times> int) list" where
  "worker_stacks config backend worker_count =
     (if backend = ''rmw_cyclonedds_c'' then
        (case integer_config config ''CONFIG_ROS2_ZEPHYR_CYCLONEDDS_THREAD_STACK_SIZE'' of
           None \<Rightarrow> []
         | Some worker_stack \<Rightarrow>
             (let value = int_val worker_count * worker_stack
              in [(reservation ''Cyclone DDS worker stacks'' (JInt value)
                     (str_json worker_count @ '' x '' @ show_int worker_stack), value)]))
      else [])"

definition configured_heaps :: "kconfig \<Rightarrow> (json \<times> int) list" where
  "configured_heaps config =
     (case integer_config config ''CONFIG_HEAP_MEM_POOL_SIZE'' of
        None \<Rightarrow> []
      | Some heap \<Rightarrow> [(reservation ''Zephyr heap backing'' (JInt heap) ''CONFIG_HEAP_MEM_POOL_SIZE'', heap)])
     @ (case integer_config config ''CONFIG_COMMON_LIBC_MALLOC_ARENA_SIZE'' of
          Some heap \<Rightarrow>
            if 0 \<le> heap
            then [(reservation ''libc heap backing'' (JInt heap)
                     ''CONFIG_COMMON_LIBC_MALLOC_ARENA_SIZE'', heap)]
            else [(reservation ''libc heap backing'' JNull ''target-resolved linker remainder'', 0)]
        | None \<Rightarrow> [(reservation ''libc heap backing'' JNull ''target-resolved linker remainder'', 0)])"

definition configured_reservations ::
  "kconfig \<Rightarrow> string \<Rightarrow> json \<Rightarrow> json list \<times> json list \<times> int" where
  "configured_reservations config backend worker_count =
     (let stacks = configured_stacks config @ worker_stacks config backend worker_count;
          heaps = configured_heaps config
      in (map fst stacks, map fst heaps, sum_list (map snd stacks) + sum_list (map snd heaps)))"

section \<open>The plan\<close>

definition REMOTE_CONFIG_KEYS :: "(string \<times> string) list" where
  "REMOTE_CONFIG_KEYS =
     [(''participants'', ''CONFIG_ROS2_ZEPHYR_GRAPH_CACHE_MAX_PARTICIPANTS''),
      (''nodes'', ''CONFIG_ROS2_ZEPHYR_GRAPH_CACHE_MAX_NODES''),
      (''endpoints'', ''CONFIG_ROS2_ZEPHYR_GRAPH_CACHE_MAX_ENDPOINTS'')]"

definition STATIC_BUFFER_KEYS :: "string list" where
  "STATIC_BUFFER_KEYS =
     [''CONFIG_NET_PKT_RX_COUNT'', ''CONFIG_NET_PKT_TX_COUNT'', ''CONFIG_NET_BUF_RX_COUNT'',
      ''CONFIG_NET_BUF_TX_COUNT'', ''CONFIG_NET_BUF_DATA_SIZE'', ''CONFIG_NET_MAX_CONTEXTS'',
      ''CONFIG_MAX_PTHREAD_MUTEX_COUNT'', ''CONFIG_MAX_PTHREAD_COND_COUNT'']"

record contract =
  c_deployment :: dict
  c_capability :: dict
  c_backend :: string
  c_resources :: dict
  c_endpoints :: "json list"
  c_target :: string
  c_budget :: dict

text \<open>The target is the configured board when the deployment has a budget for it.\<close>

definition select_target :: "kconfig \<Rightarrow> json \<Rightarrow> string \<Rightarrow> string" where
  "select_target config targets target =
     (case (map_of config ''CONFIG_BOARD_TARGET'', targets) of
        (Some configured, JObj ts) \<Rightarrow>
          if configured \<noteq> [] \<and> configured \<in> set (map fst ts) then configured else target
      | _ \<Rightarrow> target)"

definition plan_contract :: "dict \<Rightarrow> kconfig \<Rightarrow> string \<Rightarrow> string \<Rightarrow> contract res" where
  "plan_contract plan config target ddsrt_sync =
     (if \<not> eq_int (dict_get plan ''schema_version'') 2
      then resource_reject ''E_RESOURCE_INPUT'' ''deployment plan schema_version must be 2''
      else
      case (as_obj (dict_get plan ''deployment''), as_obj (dict_get plan ''capability''),
            as_str (dict_get plan ''backend'')) of
        (Some deployment, Some capability, Some backend) \<Rightarrow>
          if backend = ''rmw_cyclonedds_c''
             \<and> ddsrt_sync \<notin> set [''posix'', ''zephyr-native'', ''not-applicable'']
          then resource_reject ''E_RESOURCE_INPUT''
            (''invalid DDSRT synchronization selection '' @ ddsrt_sync)
          else
          (case (as_obj (dict_get deployment ''resources''), as_arr (dict_get deployment ''endpoints'')) of
             (Some resources, Some endpoints) \<Rightarrow>
               let targets = dict_get resources ''targets'';
                   target = select_target config targets target
               in case as_obj targets of
                    None \<Rightarrow> resource_reject ''E_RESOURCE_TARGET''
                      (''deployment has no resource budget for target '' @ target)
                  | Some ts \<Rightarrow>
                      (case map_of ts target of
                         None \<Rightarrow> resource_reject ''E_RESOURCE_TARGET''
                           (''deployment has no resource budget for target '' @ target)
                       | Some raw \<Rightarrow>
                           (case as_obj raw of
                              None \<Rightarrow> resource_reject ''E_RESOURCE_INPUT''
                                (''invalid resource budget for target '' @ target)
                            | Some budget \<Rightarrow>
                                Inr \<lparr>c_deployment = deployment, c_capability = capability,
                                  c_backend = backend, c_resources = resources,
                                  c_endpoints = endpoints, c_target = target, c_budget = budget\<rparr>))
           | _ \<Rightarrow> resource_reject ''E_RESOURCE_INPUT''
               ''deployment plan has no validated resource contract'')
      | _ \<Rightarrow> resource_reject ''E_RESOURCE_INPUT''
          ''deployment plan is missing deployment, capability, or backend'')"

definition local_checks :: "kconfig \<Rightarrow> dict \<Rightarrow> json list \<Rightarrow> json list res" where
  "local_checks config resources endpoints =
     (let endpoint_count = JInt (int (length endpoints));
          capacity = dict_get resources ''local_endpoints''
      in
     bindE (make_check ''declared_local_endpoint_capacity'' ''E_RESOURCE_ENDPOINT_CAPACITY''
       endpoint_count (if int_of capacity \<noteq> None then capacity else JNull)
       ''declared fixed endpoints must fit the deployment capacity'') (\<lambda>c1.
     bindE (make_check ''configured_local_node_capacity'' ''E_RESOURCE_GRAPH_CAPACITY'' (JInt 1)
       (opt_json (integer_config config ''CONFIG_ROS2_ZEPHYR_GRAPH_MAX_LOCAL_NODES''))
       ''one generated node must fit the configured outbound graph capacity'') (\<lambda>c2.
     bindE (make_check ''configured_local_endpoint_capacity'' ''E_RESOURCE_GRAPH_CAPACITY''
       endpoint_count
       (opt_json (integer_config config ''CONFIG_ROS2_ZEPHYR_GRAPH_MAX_ENDPOINTS_PER_NODE''))
       ''generated endpoints must fit the configured per-node graph capacity'') (\<lambda>c3.
     Inr [c1, c2, c3]))))"

definition remote_check :: "kconfig \<Rightarrow> dict \<Rightarrow> string \<times> string \<Rightarrow> json res" where
  "remote_check config remote entry =
     (case entry of (name, config_key) \<Rightarrow>
      let required = dict_get remote name;
          available = opt_json (integer_config config config_key)
      in case int_of required of
           None \<Rightarrow> resource_reject ''E_RESOURCE_INPUT'' (''invalid remote '' @ name @ '' bound'')
         | Some n \<Rightarrow>
             if n = 0
             then Inr (check_row (''configured_remote_'' @ name @ ''_capacity'')
               ''E_RESOURCE_GRAPH_CAPACITY'' (JInt 0) available ''PASS''
               ''deployment does not require inbound graph capacity'')
             else make_check (''configured_remote_'' @ name @ ''_capacity'')
               ''E_RESOURCE_GRAPH_CAPACITY'' required available
               (''declared remote '' @ name @ '' must fit '' @ config_key))"

definition remote_checks :: "kconfig \<Rightarrow> dict \<Rightarrow> (dict \<times> json list) res" where
  "remote_checks config resources =
     (case as_obj (dict_get resources ''remote'') of
        None \<Rightarrow> resource_reject ''E_RESOURCE_INPUT''
          ''deployment resource contract has no remote bounds''
      | Some remote \<Rightarrow>
          bindE (mapE (remote_check config remote) REMOTE_CONFIG_KEYS) (\<lambda>checks.
          Inr (remote, checks)))"

text \<open>The minimum of the backend, the maximum of the deployment and the configured number.\<close>

definition worker_bounds :: "kconfig \<Rightarrow> contract \<Rightarrow> (json \<times> json \<times> json) res" where
  "worker_bounds config c =
     (case (as_obj (dict_get (c_capability c) ''workers''),
            as_obj (dict_get (c_resources c) ''workers'')) of
        (Some workers, Some worker_contract) \<Rightarrow>
          let minimum = dict_get workers ''minimum''; maximum = dict_get worker_contract ''maximum''
          in if int_of minimum = None \<or> int_of maximum = None
             then resource_reject ''E_RESOURCE_INPUT'' ''worker bounds must be integers''
             else Inr (minimum, maximum,
               if c_backend c = ''rmw_cyclonedds_c''
               then opt_json (integer_config config ''CONFIG_ROS2_ZEPHYR_CYCLONEDDS_THREAD_COUNT'')
               else minimum)
      | _ \<Rightarrow> resource_reject ''E_RESOURCE_INPUT''
          ''worker capability or resource contract is invalid'')"

definition worker_checks :: "json \<Rightarrow> json \<Rightarrow> json \<Rightarrow> json list res" where
  "worker_checks minimum maximum configured =
     bindE (make_check ''backend_minimum_workers'' ''E_RESOURCE_WORKERS'' minimum configured
       ''configured middleware worker count must meet the backend minimum'') (\<lambda>c1.
     bindE (make_check ''deployment_maximum_workers'' ''E_RESOURCE_WORKERS''
       (if configured \<noteq> JNull then configured else JInt (int_val maximum + 1)) maximum
       ''configured middleware worker count must not exceed the deployment contract'') (\<lambda>c2.
     Inr [c1, c2]))"

definition static_buffers :: "kconfig \<Rightarrow> json" where
  "static_buffers config =
     JObj (concat (map (\<lambda>key.
       case integer_config config key of None \<Rightarrow> [] | Some v \<Rightarrow> [(key, JInt v)]) STATIC_BUFFER_KEYS))"

definition status_of :: "json list \<Rightarrow> string" where
  "status_of checks =
     (if list_ex (\<lambda>item. case item of
           JObj row \<Rightarrow> dict_get row ''status'' = JStr ''FAIL'' | _ \<Rightarrow> False) checks
      then ''FAIL'' else ''PASS'')"

definition application_reserve :: "dict \<Rightarrow> json res" where
  "application_reserve resources =
     (case as_obj (dict_get resources ''application'') of
        None \<Rightarrow> resource_reject ''E_RESOURCE_INPUT'' ''application static reserve is invalid''
      | Some application \<Rightarrow>
          if int_of (dict_get application ''static_reserve_bytes'') = None
          then resource_reject ''E_RESOURCE_INPUT'' ''application static reserve is invalid''
          else Inr (dict_get application ''static_reserve_bytes''))"

definition target_budgets :: "contract \<Rightarrow> (json \<times> json) res" where
  "target_budgets c =
     (let ram_budget = dict_get (c_budget c) ''ram_bytes'';
          flash_budget = dict_get (c_budget c) ''flash_bytes''
      in if int_of ram_budget = None \<or> int_of flash_budget = None
         then resource_reject ''E_RESOURCE_INPUT'' (''invalid target budget for '' @ c_target c)
         else Inr (flash_budget, ram_budget))"

text \<open>The figures of a plan that its report shows.\<close>

record plan_figures =
  pf_flash :: json
  pf_ram :: json
  pf_capacity :: json
  pf_remote :: dict
  pf_stacks :: "json list"
  pf_heaps :: "json list"
  pf_workers :: json
  pf_minimum :: json
  pf_maximum :: json
  pf_reserve :: json
  pf_known_ram :: int

definition plan_document ::
  "kconfig \<Rightarrow> string \<Rightarrow> contract \<Rightarrow> plan_figures \<Rightarrow> json list \<Rightarrow> dict" where
  "plan_document config ddsrt_sync c f checks =
     [(''schema_version'', JInt 1),
      (''status'', JStr (status_of checks)),
      (''target'', JStr (c_target c)),
      (''backend'', JStr (c_backend c)),
      (''ddsrt_sync'', JStr ddsrt_sync),
      (''deployment'', dict_get (c_deployment c) ''name''),
      (''budgets'', JObj [(''flash_bytes'', pf_flash f), (''ram_bytes'', pf_ram f)]),
      (''planned'', JObj
         [(''local_endpoint_resources'', JObj
             [(''required'', JInt (int (length (c_endpoints c)))), (''capacity'', pf_capacity f)]),
          (''remote_discovery_bounds'', JObj (pf_remote f)),
          (''thread_stacks'', JArr (pf_stacks f)),
          (''static_buffers'', static_buffers config),
          (''heap_backing'', JArr (pf_heaps f)),
          (''middleware_reservations'', JObj
             [(''workers'', pf_workers f), (''minimum_workers'', pf_minimum f),
              (''maximum_workers'', pf_maximum f)]),
          (''application_reservations'', JObj [(''static_reserve_bytes'', pf_reserve f)]),
          (''known_ram_slices_bytes'', JInt (pf_known_ram f))]),
      (''checks'', JArr checks)]"

definition build_prelink_plan :: "dict \<Rightarrow> kconfig \<Rightarrow> string \<Rightarrow> string \<Rightarrow> dict res" where
  "build_prelink_plan deployment_plan config target ddsrt_sync =
     bindE (plan_contract deployment_plan config target ddsrt_sync) (\<lambda>c.
     bindE (local_checks config (c_resources c) (c_endpoints c)) (\<lambda>locals.
     bindE (remote_checks config (c_resources c)) (\<lambda>remote.
     bindE (worker_bounds config c) (\<lambda>(minimum, maximum, configured).
     bindE (worker_checks minimum maximum configured) (\<lambda>workers.
     let reservations = configured_reservations config (c_backend c)
           (if truthy configured then configured else minimum)
     in
     bindE (application_reserve (c_resources c)) (\<lambda>reserve.
     let known_ram = snd (snd reservations) + int_val reserve in
     bindE (target_budgets c) (\<lambda>budgets.
     bindE (make_check ''known_prelink_ram_slices'' ''E_RESOURCE_RAM_BUDGET'' (JInt known_ram)
       (snd budgets) ''known stack, heap, and application reservations must fit the RAM budget'')
       (\<lambda>ram_check.
     bindE (getitem (c_resources c) ''local_endpoints'') (\<lambda>capacity.
     Inr (plan_document config ddsrt_sync c
       \<lparr>pf_flash = fst budgets, pf_ram = snd budgets, pf_capacity = capacity, pf_remote = fst remote,
        pf_stacks = fst reservations, pf_heaps = fst (snd reservations), pf_workers = configured,
        pf_minimum = minimum, pf_maximum = maximum, pf_reserve = reserve, pf_known_ram = known_ram\<rparr>
       (locals @ snd remote @ workers @ [ram_check])))))))))))"

end
