(* ===== verification/Py_Regex.thy ===== *)
theory Py_Regex
  imports Py_Text
begin

text \<open>
  The regular expressions of Python's \<open>re\<close> that the tools write, as data, with a backtracking
  matcher: \<open>run r st\<close> lists the ways \<open>r\<close> matches at a position in the order the engine tries
  them, so that the head of the list is the match \<open>re\<close> reports. The lemmas characterise the
  patterns built from character classes and literals.
\<close>

section \<open>Patterns\<close>

text \<open>A character class is a list of code ranges, possibly complemented.\<close>

datatype cls = Cls (negated: bool) (ranges: "(nat \<times> nat) list")

definition in_cls :: "cls \<Rightarrow> char \<Rightarrow> bool" where
  "in_cls k c \<longleftrightarrow> (list_ex (\<lambda>(lo, hi). lo \<le> ord c \<and> ord c \<le> hi) (ranges k) \<noteq> negated k)"

datatype rx =
    Eps
  | Set cls
  | Lit string
  | Seq rx rx
  | Alt rx rx
  | Star rx
  | Lazy rx
  | Grp nat rx
  | Bol
  | Eol
  | Ahead rx

definition Plus :: "rx \<Rightarrow> rx" where "Plus r = Seq r (Star r)"
definition Opt :: "rx \<Rightarrow> rx" where "Opt r = Alt r Eps"

fun Seqs :: "rx list \<Rightarrow> rx" where
  "Seqs [] = Eps"
| "Seqs [r] = r"
| "Seqs (r # q # rs) = Seq r (Seqs (q # rs))"

definition space_cls :: cls where
  "space_cls = Cls False [(9, 13), (28, 32), (133, 133), (160, 160)]"

definition nonspace_cls :: cls where
  "nonspace_cls = Cls True [(9, 13), (28, 32), (133, 133), (160, 160)]"

definition digit_cls :: cls where "digit_cls = Cls False [(48, 57)]"

definition hex_cls :: cls where "hex_cls = Cls False [(48, 57), (97, 102), (65, 70)]"

text \<open>\<open>\\w\<close> on the code points 0 to 255: the alphanumerics of \<open>str.isalnum\<close> and the underscore.\<close>

definition word_cls :: cls where
  "word_cls = Cls False
     [(48, 57), (65, 90), (95, 95), (97, 122), (170, 170), (178, 179), (181, 181), (185, 186),
      (188, 190), (192, 214), (216, 246), (248, 255)]"

text \<open>\<open>[A-Za-z_]\<close> and \<open>[A-Za-z0-9_]\<close>.\<close>

definition symbol_start :: cls where "symbol_start = Cls False [(65, 90), (97, 122), (95, 95)]"

definition symbol_char :: cls where
  "symbol_char = Cls False [(65, 90), (97, 122), (48, 57), (95, 95)]"

text \<open>\<open>.\<close> without and with \<open>re.S\<close>.\<close>

definition any_cls :: cls where "any_cls = Cls True [(10, 10)]"
definition dotall_cls :: cls where "dotall_cls = Cls True []"

section \<open>Matching\<close>

text \<open>
  A state is the text read so far (reversed), the text left, and the groups bound so far, the
  latest first. \<open>m\<close> is the \<open>re.M\<close> flag: \<open>^\<close> and \<open>$\<close> at line boundaries.
\<close>

type_synonym caps = "(nat \<times> string) list"
type_synonym mstate = "string \<times> string \<times> caps"

definition at_bol :: "bool \<Rightarrow> string \<Rightarrow> bool" where
  "at_bol m p \<longleftrightarrow> p = [] \<or> m \<and> hd p = CHR 0x0A"

definition at_eol :: "bool \<Rightarrow> string \<Rightarrow> bool" where
  "at_eol m s \<longleftrightarrow> s = [] \<or> s = nl \<or> m \<and> hd s = CHR 0x0A"

fun run :: "bool \<Rightarrow> rx \<Rightarrow> mstate \<Rightarrow> mstate list" where
  "run m Eps st = [st]"
| "run m (Set k) (p, s, g) =
     (case s of [] \<Rightarrow> [] | c # cs \<Rightarrow> if in_cls k c then [(c # p, cs, g)] else [])"
| "run m (Lit t) (p, s, g) =
     (if startswith s t then [(rev t @ p, drop (length t) s, g)] else [])"
| "run m (Seq q r) st = concat (map (run m r) (run m q st))"
| "run m (Alt q r) st = run m q st @ run m r st"
| "run m (Star r) (p, s, g) =
     concat (map (\<lambda>(p', s', g'). if length s' < length s then run m (Star r) (p', s', g') else [])
       (run m r (p, s, g))) @ [(p, s, g)]"
| "run m (Lazy r) (p, s, g) =
     (p, s, g) #
     concat (map (\<lambda>(p', s', g'). if length s' < length s then run m (Lazy r) (p', s', g') else [])
       (run m r (p, s, g)))"
| "run m (Grp n r) (p, s, g) =
     map (\<lambda>(p', s', g'). (p', s', (n, take (length s - length s') s) # g')) (run m r (p, s, g))"
| "run m Bol (p, s, g) = (if at_bol m p then [(p, s, g)] else [])"
| "run m Eol (p, s, g) = (if at_eol m s then [(p, s, g)] else [])"
| "run m (Ahead r) (p, s, g) = (if run m r (p, s, g) = [] then [] else [(p, s, g)])"

text \<open>\<open>re.match\<close> and \<open>re.fullmatch\<close>: the groups of the first way to match.\<close>

definition rx_match :: "rx \<Rightarrow> string \<Rightarrow> caps option" where
  "rx_match r s = (case run False r ([], s, []) of [] \<Rightarrow> None | (_, _, g) # _ \<Rightarrow> Some g)"

definition fullmatch :: "rx \<Rightarrow> string \<Rightarrow> caps option" where
  "fullmatch r s =
     (case filter (\<lambda>(_, s', _). s' = []) (run False r ([], s, [])) of
        [] \<Rightarrow> None
      | (_, _, g) # _ \<Rightarrow> Some g)"

definition matches :: "rx \<Rightarrow> string \<Rightarrow> bool" where
  "matches r s \<longleftrightarrow> fullmatch r s \<noteq> None"

text \<open>A group that took part in the match.\<close>

definition group_of :: "caps \<Rightarrow> nat \<Rightarrow> string" where
  "group_of g n = (case map_of g n of Some t \<Rightarrow> t | None \<Rightarrow> [])"

text \<open>
  The scan of \<open>re.search\<close> and \<open>re.findall\<close>: try every position from the left; after a match go on
  behind it. All patterns searched for consume at least one character.
\<close>

fun rx_search_at :: "bool \<Rightarrow> rx \<Rightarrow> string \<Rightarrow> string \<Rightarrow> (string \<times> mstate) option" where
  "rx_search_at m r p [] =
     (case run m r (p, [], []) of [] \<Rightarrow> None | st # _ \<Rightarrow> Some ([], st))"
| "rx_search_at m r p (c # cs) =
     (case run m r (p, c # cs, []) of
        [] \<Rightarrow> rx_search_at m r (c # p) cs
      | st # _ \<Rightarrow> Some (c # cs, st))"

definition rx_search :: "bool \<Rightarrow> rx \<Rightarrow> string \<Rightarrow> caps option" where
  "rx_search m r s = map_option (\<lambda>(_, _, _, g). g) (rx_search_at m r [] s)"

function findall_from :: "bool \<Rightarrow> rx \<Rightarrow> string \<Rightarrow> string \<Rightarrow> caps list" where
  "findall_from m r p s =
     (case rx_search_at m r p s of
        None \<Rightarrow> []
      | Some (_, p', s', g) \<Rightarrow>
          if length s' < length s then g # findall_from m r p' s' else [g])"
  by pat_completeness auto
termination
  by (relation "measure (\<lambda>(m, r, p, s). length s)") auto

declare findall_from.simps [simp del]

definition findall :: "bool \<Rightarrow> rx \<Rightarrow> string \<Rightarrow> caps list" where
  "findall m r s = findall_from m r [] s"

section \<open>Characterisations\<close>

text \<open>
  The equations of the two loops unfold without end in open terms. Over a class they are
  structural in the text left.
\<close>

declare run.simps(6,7) [simp del]

lemma run_Star_Set_simps [simp]:
  "run m (Star (Set k)) (p, [], g) = [(p, [], g)]"
  "run m (Star (Set k)) (p, c # cs, g) =
     (if in_cls k c then run m (Star (Set k)) (c # p, cs, g) else []) @ [(p, c # cs, g)]"
  by (subst run.simps; simp)+

lemma run_Lazy_Set_simps [simp]:
  "run m (Lazy (Set k)) (p, [], g) = [(p, [], g)]"
  "run m (Lazy (Set k)) (p, c # cs, g) =
     (p, c # cs, g) # (if in_cls k c then run m (Lazy (Set k)) (c # p, cs, g) else [])"
  by (subst run.simps; simp)+

text \<open>A starred class consumes a prefix of class members.\<close>

named_theorems rx_iff \<open>the results of a pattern as a set\<close>

lemma run_Star_Set [rx_iff]:
  "(p', s', g') \<in> set (run m (Star (Set k)) (p, s, g)) \<longleftrightarrow>
     g' = g \<and> (\<exists>u. s = u @ s' \<and> p' = rev u @ p \<and> list_all (in_cls k) u)"
proof (induction s arbitrary: p)
  case Nil
  then show ?case by auto
next
  case (Cons c cs)
  show ?case
  proof (cases "in_cls k c")
    case True
    have "(\<exists>u. c # cs = u @ s' \<and> p' = rev u @ p \<and> list_all (in_cls k) u) \<longleftrightarrow>
      (\<exists>u. cs = u @ s' \<and> p' = rev u @ c # p \<and> list_all (in_cls k) u) \<or> s' = c # cs \<and> p' = p"
      using True by (auto simp: Cons_eq_append_conv)
    with True Cons.IH [of "c # p"] show ?thesis by auto
  next
    case False
    then show ?thesis by (auto simp: Cons_eq_append_conv)
  qed
qed

lemma run_Set [rx_iff]:
  "(p', s', g') \<in> set (run m (Set k) (p, s, g)) \<longleftrightarrow>
     (\<exists>c. s = c # s' \<and> p' = c # p \<and> g' = g \<and> in_cls k c)"
  by (cases s) auto

lemma run_Lit [rx_iff]:
  "(p', s', g') \<in> set (run m (Lit t) (p, s, g)) \<longleftrightarrow> s = t @ s' \<and> p' = rev t @ p \<and> g' = g"
  by (auto simp: startswith_iff)

lemma run_Seq [rx_iff]:
  "x \<in> set (run m (Seq q r) st) \<longleftrightarrow>
     (\<exists>p1 s1 g1. (p1, s1, g1) \<in> set (run m q st) \<and> x \<in> set (run m r (p1, s1, g1)))"
  by (auto simp: Bex_def)

lemma run_Bol [rx_iff]:
  "(p', s', g') \<in> set (run m Bol (p, s, g)) \<longleftrightarrow> p' = p \<and> s' = s \<and> g' = g \<and> at_bol m p"
  by auto

lemma run_Eol [rx_iff]:
  "(p', s', g') \<in> set (run m Eol (p, s, g)) \<longleftrightarrow> p' = p \<and> s' = s \<and> g' = g \<and> at_eol m s"
  by auto

lemma run_Grp [rx_iff]:
  "(p', s', g') \<in> set (run m (Grp n r) (p, s, g)) \<longleftrightarrow>
     (\<exists>g0. (p', s', g0) \<in> set (run m r (p, s, g)) \<and>
        g' = (n, take (length s - length s') s) # g0)"
  by (auto intro: rev_image_eqI)

text \<open>The language of an identifier-like pattern: one class member, then any of another class.\<close>

definition Ident :: "cls \<Rightarrow> cls \<Rightarrow> rx" where
  "Ident a b = Seq (Set a) (Star (Set b))"

definition ident_ok :: "cls \<Rightarrow> cls \<Rightarrow> string \<Rightarrow> bool" where
  "ident_ok a b s \<longleftrightarrow> (case s of [] \<Rightarrow> False | c # cs \<Rightarrow> in_cls a c \<and> list_all (in_cls b) cs)"

lemma ident_ok_iff: "ident_ok a b s \<longleftrightarrow> (\<exists>c u. s = c # u \<and> in_cls a c \<and> list_all (in_cls b) u)"
  by (cases s) (auto simp: ident_ok_def)

lemma run_Ident [rx_iff]:
  "(p', s', g') \<in> set (run m (Ident a b) (p, s, g)) \<longleftrightarrow>
     g' = g \<and> (\<exists>u. s = u @ s' \<and> p' = rev u @ p \<and> ident_ok a b u)"
proof -
  have "(p', s', g') \<in> set (run m (Ident a b) (p, s, g)) \<longleftrightarrow>
      (\<exists>c cs. s = c # cs \<and> in_cls a c \<and>
         (p', s', g') \<in> set (run m (Star (Set b)) (c # p, cs, g)))"
    unfolding Ident_def run_Seq by (auto simp: run_Set simp del: run.simps)
  also have "\<dots> \<longleftrightarrow> g' = g \<and>
      (\<exists>c u. s = c # u @ s' \<and> p' = rev u @ c # p \<and> in_cls a c \<and> list_all (in_cls b) u)"
    unfolding run_Star_Set by blast
  also have "\<dots> \<longleftrightarrow> g' = g \<and> (\<exists>u. s = u @ s' \<and> p' = rev u @ p \<and> ident_ok a b u)"
    unfolding ident_ok_iff by (rule conj_cong [OF refl]) auto
  finally show ?thesis .
qed

lemma fullmatch_None:
  "fullmatch r s = None \<longleftrightarrow> (\<forall>p g. (p, [], g) \<notin> set (run False r ([], s, [])))"
proof -
  let ?xs = "run False r ([], s, [])"
  have "fullmatch r s = None \<longleftrightarrow> filter (\<lambda>(_, s', _). s' = []) ?xs = []"
    by (auto simp: fullmatch_def split: list.splits)
  also have "\<dots> \<longleftrightarrow> (\<forall>p g. (p, [], g) \<notin> set ?xs)"
    unfolding filter_empty_conv by auto
  finally show ?thesis .
qed

lemma fullmatch_SomeD:
  "fullmatch r s = Some g \<Longrightarrow> \<exists>p. (p, [], g) \<in> set (run False r ([], s, []))"
proof -
  assume "fullmatch r s = Some g"
  then obtain p s' xs where
    "filter (\<lambda>(_, s', _). s' = []) (run False r ([], s, [])) = (p, s', g) # xs"
    by (auto simp: fullmatch_def split: list.splits)
  then have "(p, s', g) \<in> set (filter (\<lambda>(_, s', _). s' = []) (run False r ([], s, [])))"
    by simp
  then show ?thesis by auto
qed

text \<open>A pattern that is determined: every way to match the whole text binds the same groups.\<close>

lemma fullmatch_determined:
  assumes "\<And>p h. (p, [], h) \<in> set (run False r ([], s, [])) \<Longrightarrow> h = g"
    and "(\<exists>p h. (p, [], h) \<in> set (run False r ([], s, []))) \<longleftrightarrow> P"
  shows "fullmatch r s = (if P then Some g else None)"
proof (cases P)
  case True
  with assms(2) have "fullmatch r s \<noteq> None" unfolding fullmatch_None by blast
  then obtain h where "fullmatch r s = Some h" by blast
  with True assms(1) show ?thesis by (auto dest: fullmatch_SomeD)
next
  case False
  with assms(2) have "fullmatch r s = None" unfolding fullmatch_None by blast
  with False show ?thesis by simp
qed

lemma fullmatch_ident:
  "fullmatch (Seqs [Bol, Set a, Star (Set b), Eol]) s = (if ident_ok a b s then Some [] else None)"
  by (rule fullmatch_determined)
     (auto simp: rx_iff at_bol_def at_eol_def nl_def ident_ok_iff simp del: run.simps)

text \<open>Two identifier-like groups around a separator whose first character neither contains.\<close>

lemma append_sep_unique:
  assumes "u @ c # v = u' @ c # v'" and "c \<notin> set u" and "c \<notin> set u'"
  shows "u = u' \<and> v = v'"
  using assms by (induction u arbitrary: u') (auto simp: Cons_eq_append_conv append_eq_Cons_conv)

lemma ident_ok_notin:
  "\<not> in_cls a c \<Longrightarrow> \<not> in_cls b c \<Longrightarrow> ident_ok a b s \<Longrightarrow> c \<notin> set s"
  by (auto simp: ident_ok_iff list_all_iff)

end
