(* ===== verification/Deployment_Validate.thy ===== *)
theory Deployment_Validate
  imports Py_Json Py_Regex
begin

text \<open>
  \<open>validate_deployment\<close> of \<open>src/tools/compile_deployment.py\<close>: the checks on a deployment document,
  in the order the code makes them, with the code and the message of every rejection. One
  definition per group of checks; \<open>validate_deployment\<close> composes them as the code does.
\<close>

section \<open>Patterns and key sets\<close>

definition alpha_us :: cls where "alpha_us = Cls False [(65, 90), (97, 122), (95, 95)]"
definition alpha :: cls where "alpha = Cls False [(65, 90), (97, 122)]"
definition alnum_us :: cls where "alnum_us = Cls False [(65, 90), (97, 122), (48, 57), (95, 95)]"
definition lower_alpha :: cls where "lower_alpha = Cls False [(97, 122)]"
definition lower_alnum_us :: cls where "lower_alnum_us = Cls False [(97, 122), (48, 57), (95, 95)]"

definition IDENTIFIER :: rx where
  "IDENTIFIER = Seqs [Bol, Set alpha_us, Star (Set alnum_us), Eol]"

definition LOWER_IDENTIFIER :: rx where
  "LOWER_IDENTIFIER = Seqs [Bol, Set lower_alpha, Star (Set lower_alnum_us), Eol]"

definition MESSAGE_TYPE :: rx where
  "MESSAGE_TYPE =
     Seqs [Bol, Grp 1 (Seq (Set alpha) (Star (Set alnum_us))), Lit ''/msg/'',
           Grp 2 (Seq (Set alpha) (Star (Set alnum_us))), Eol]"

definition ROOT_KEYS :: "string list" where
  "ROOT_KEYS = [''schema_version'', ''name'', ''domain_id'', ''node'', ''rmw'',
     ''message_profile'', ''graph'', ''endpoints'', ''resources'']"

definition NODE_KEYS :: "string list" where "NODE_KEYS = [''name'', ''namespace'']"

definition GRAPH_KEYS :: "string list" where "GRAPH_KEYS = [''outbound'', ''inbound'', ''api'']"

definition ENDPOINT_KEYS :: "string list" where
  "ENDPOINT_KEYS = [''id'', ''kind'', ''topic'', ''type'', ''callback'', ''qos'', ''lifetime'']"

definition QOS_KEYS :: "string list" where
  "QOS_KEYS = [''reliability'', ''durability'', ''history'', ''depth'']"

definition RESOURCE_KEYS :: "string list" where
  "RESOURCE_KEYS = [''local_endpoints'', ''remote'', ''workers'', ''application'', ''targets'']"

definition REMOTE_RESOURCE_KEYS :: "string list" where
  "REMOTE_RESOURCE_KEYS = [''participants'', ''nodes'', ''endpoints'']"

definition WORKER_RESOURCE_KEYS :: "string list" where "WORKER_RESOURCE_KEYS = [''maximum'']"

definition APPLICATION_RESOURCE_KEYS :: "string list" where
  "APPLICATION_RESOURCE_KEYS = [''static_reserve_bytes'']"

definition TARGET_BUDGET_KEYS :: "string list" where
  "TARGET_BUDGET_KEYS = [''flash_bytes'', ''ram_bytes'']"

definition SUPPORTED_BACKENDS :: "string list" where
  "SUPPORTED_BACKENDS = [''rmw_cyclonedds_c'', ''rmw_zenoh_pico'']"

section \<open>Field checks\<close>

definition reject :: "string \<Rightarrow> string \<Rightarrow> 'a res" where
  "reject code msg = Inl (DeploymentError code msg)"

definition require_object :: "json \<Rightarrow> string \<Rightarrow> dict res" where
  "require_object v path =
     (case v of JObj d \<Rightarrow> Inr d | _ \<Rightarrow> reject ''E_SCHEMA'' (path @ '' must be an object''))"

definition exact_keys :: "dict \<Rightarrow> string list \<Rightarrow> string list \<Rightarrow> string \<Rightarrow> unit res" where
  "exact_keys v allowed required path =
     (let unknown = sorted_set (filter (\<lambda>k. k \<notin> set allowed) (map fst v));
          missing = sorted_set (filter (\<lambda>k. k \<notin> set (map fst v)) required)
      in if unknown \<noteq> [] then
           reject ''E_SCHEMA'' (path @ '' contains unknown field '' @ repr_str (hd unknown))
         else if missing \<noteq> [] then
           reject ''E_SCHEMA'' (path @ '' is missing required field '' @ repr_str (hd missing))
         else Inr ())"

definition require_string :: "json \<Rightarrow> string \<Rightarrow> rx option \<Rightarrow> string res" where
  "require_string v path pattern =
     (case v of
        JStr s \<Rightarrow>
          if (case pattern of None \<Rightarrow> False | Some r \<Rightarrow> fullmatch r s = None)
          then reject ''E_SCHEMA'' (path @ '' has an invalid string value'')
          else Inr s
      | _ \<Rightarrow> reject ''E_SCHEMA'' (path @ '' has an invalid string value''))"

definition require_integer :: "json \<Rightarrow> string \<Rightarrow> int \<Rightarrow> int res" where
  "require_integer v path minimum =
     (case v of
        JInt i \<Rightarrow>
          if i < minimum
          then reject ''E_SCHEMA''
                 (path @ '' must be an integer greater than or equal to '' @ show_int minimum)
          else Inr i
      | _ \<Rightarrow> reject ''E_SCHEMA''
               (path @ '' must be an integer greater than or equal to '' @ show_int minimum))"

section \<open>The groups of checks\<close>

definition validate_header :: "dict \<Rightarrow> unit res" where
  "validate_header value =
     bindE (exact_keys value ROOT_KEYS ROOT_KEYS ''deployment'') (\<lambda>_.
     bindE (getitem value ''schema_version'') (\<lambda>version.
     if \<not> eq_int version 2 then reject ''E_SCHEMA_VERSION'' ''schema_version must be 2'' else
     bindE (getitem value ''name'') (\<lambda>name.
     bindE (require_string name ''name'' (Some LOWER_IDENTIFIER)) (\<lambda>_.
     bindE (getitem value ''domain_id'') (\<lambda>domain.
     if (case domain of JInt i \<Rightarrow> \<not> (0 \<le> i \<and> i \<le> 232) | _ \<Rightarrow> True)
     then reject ''E_SCHEMA'' ''domain_id must be an integer from 0 through 232'' else
     bindE (getitem value ''message_profile'') (\<lambda>profile.
     if profile \<noteq> JStr ''fixed_size''
     then reject ''E_MESSAGE_PROFILE_UNSUPPORTED'' ''only fixed_size messages are accepted''
     else Inr ()))))))"

definition validate_node :: "dict \<Rightarrow> unit res" where
  "validate_node value =
     bindE (getitem value ''node'') (\<lambda>raw.
     bindE (require_object raw ''node'') (\<lambda>node.
     bindE (exact_keys node NODE_KEYS NODE_KEYS ''node'') (\<lambda>_.
     bindE (getitem node ''name'') (\<lambda>name.
     bindE (require_string name ''node.name'' (Some IDENTIFIER)) (\<lambda>_.
     bindE (getitem node ''namespace'') (\<lambda>ns.
     bindE (require_string ns ''node.namespace'' None) (\<lambda>namespace.
     if namespace \<noteq> [] \<and> (\<not> startswith namespace ''/'' \<or> endswith namespace ''/'')
     then reject ''E_SCHEMA''
       ''node.namespace must be empty or an absolute namespace without a trailing slash''
     else Inr ())))))))"

definition validate_rmw :: "dict \<Rightarrow> unit res" where
  "validate_rmw value =
     bindE (getitem value ''rmw'') (\<lambda>raw.
     case raw of
       JArr rmw \<Rightarrow>
         if rmw = [] \<or> \<not> list_all is_str rmw
         then reject ''E_SCHEMA'' ''rmw must be a non-empty string array''
         else if \<not> distinct (strs rmw) then reject ''E_SCHEMA'' ''rmw entries must be unique''
         else (let unknown = sorted_set (filter (\<lambda>b. b \<notin> set SUPPORTED_BACKENDS) (strs rmw))
               in if unknown \<noteq> []
                  then reject ''E_BACKEND_UNKNOWN'' (''unknown backend '' @ hd unknown)
                  else Inr ())
     | _ \<Rightarrow> reject ''E_SCHEMA'' ''rmw must be a non-empty string array'')"

definition validate_graph :: "dict \<Rightarrow> unit res" where
  "validate_graph value =
     bindE (getitem value ''graph'') (\<lambda>raw.
     bindE (require_object raw ''graph'') (\<lambda>graph.
     bindE (exact_keys graph GRAPH_KEYS GRAPH_KEYS ''graph'') (\<lambda>_.
     bindE (getitem graph ''outbound'') (\<lambda>outbound.
     bindE (getitem graph ''inbound'') (\<lambda>inbound.
     if \<not> is_bool outbound \<or> \<not> is_bool inbound
     then reject ''E_SCHEMA'' ''graph outbound/inbound requirements must be boolean'' else
     bindE (getitem graph ''api'') (\<lambda>rawapi.
     case rawapi of
       JArr api \<Rightarrow>
         if \<not> list_all is_str api
         then reject ''E_SCHEMA'' ''graph.api must be a string array''
         else if \<not> distinct (strs api)
         then reject ''E_SCHEMA'' ''graph.api entries must be unique''
         else Inr ()
     | _ \<Rightarrow> reject ''E_SCHEMA'' ''graph.api must be a string array''))))))"

definition validate_qos :: "dict \<Rightarrow> string \<Rightarrow> unit res" where
  "validate_qos endpoint path =
     bindE (getitem endpoint ''qos'') (\<lambda>raw.
     bindE (require_object raw (path @ ''.qos'')) (\<lambda>qos.
     bindE (exact_keys qos QOS_KEYS QOS_KEYS (path @ ''.qos'')) (\<lambda>_.
     bindE (getitem qos ''reliability'') (\<lambda>reliability.
     if reliability \<notin> set [JStr ''best_effort'', JStr ''reliable'']
     then reject ''E_SCHEMA'' (path @ ''.qos.reliability is invalid'') else
     bindE (getitem qos ''durability'') (\<lambda>durability.
     if durability \<notin> set [JStr ''volatile'', JStr ''transient_local'']
     then reject ''E_SCHEMA'' (path @ ''.qos.durability is invalid'') else
     bindE (getitem qos ''history'') (\<lambda>history.
     if history \<noteq> JStr ''keep_last''
     then reject ''E_SCHEMA'' (path @ ''.qos.history must be keep_last'') else
     bindE (getitem qos ''depth'') (\<lambda>depth.
     if (case depth of JInt i \<Rightarrow> i < 1 | _ \<Rightarrow> True)
     then reject ''E_SCHEMA'' (path @ ''.qos.depth must be a positive integer'')
     else Inr ())))))))"

text \<open>Lines 133 to 140: kind, topic, message type and lifetime of an endpoint.\<close>

definition validate_endpoint_fields :: "dict \<Rightarrow> string \<Rightarrow> json res" where
  "validate_endpoint_fields endpoint path =
     bindE (getitem endpoint ''kind'') (\<lambda>kind.
     if kind \<notin> set [JStr ''publisher'', JStr ''subscription'']
     then reject ''E_SCHEMA'' (path @ ''.kind must be publisher or subscription'') else
     bindE (getitem endpoint ''topic'') (\<lambda>rawtopic.
     bindE (require_string rawtopic (path @ ''.topic'') None) (\<lambda>topic.
     if topic = [] \<or> endswith topic ''/'' \<or> contains ''//'' topic
     then reject ''E_SCHEMA'' (path @ ''.topic is invalid'') else
     bindE (getitem endpoint ''type'') (\<lambda>rawtype.
     bindE (require_string rawtype (path @ ''.type'') (Some MESSAGE_TYPE)) (\<lambda>_.
     bindE (getitem endpoint ''lifetime'') (\<lambda>lifetime.
     if lifetime \<noteq> JStr ''fixed_startup''
     then reject ''E_LIFETIME_UNSUPPORTED'' (path @ '' must use fixed_startup lifetime'')
     else Inr kind))))))"

text \<open>Lines 141 to 144: a subscription names its callback, a publisher has none.\<close>

definition validate_callback :: "dict \<Rightarrow> json \<Rightarrow> string \<Rightarrow> unit res" where
  "validate_callback endpoint kind path =
     (if kind = JStr ''subscription''
      then bindE (require_string (dict_get endpoint ''callback'') (path @ ''.callback'')
             (Some IDENTIFIER)) (\<lambda>_. Inr ())
      else if ''callback'' \<in> set (map fst endpoint)
      then reject ''E_SCHEMA'' (path @ ''.callback is only valid for a subscription'')
      else Inr ())"

text \<open>
  The body of the endpoint loop; it returns the endpoint identifiers seen so far, the new one
  included.
\<close>

definition validate_endpoint :: "nat \<Rightarrow> string list \<Rightarrow> json \<Rightarrow> string list res" where
  "validate_endpoint index ids raw =
     (let path = ''endpoints['' @ show_nat index @ '']'' in
     bindE (require_object raw path) (\<lambda>endpoint.
     bindE (exact_keys endpoint ENDPOINT_KEYS (filter (\<lambda>k. k \<noteq> ''callback'') ENDPOINT_KEYS) path)
       (\<lambda>_.
     bindE (getitem endpoint ''id'') (\<lambda>rawid.
     bindE (require_string rawid (path @ ''.id'') (Some LOWER_IDENTIFIER)) (\<lambda>endpoint_id.
     if endpoint_id \<in> set ids
     then reject ''E_DUPLICATE_ENDPOINT'' (''duplicate endpoint id '' @ repr_str endpoint_id) else
     bindE (validate_endpoint_fields endpoint path) (\<lambda>kind.
     bindE (validate_callback endpoint kind path) (\<lambda>_.
     bindE (validate_qos endpoint path) (\<lambda>_.
     Inr (endpoint_id # ids)))))))))"

fun validate_endpoint_loop :: "nat \<Rightarrow> string list \<Rightarrow> json list \<Rightarrow> unit res" where
  "validate_endpoint_loop index ids [] = Inr ()"
| "validate_endpoint_loop index ids (raw # rest) =
     bindE (validate_endpoint index ids raw) (\<lambda>ids'. validate_endpoint_loop (Suc index) ids' rest)"

definition validate_endpoints :: "dict \<Rightarrow> json list res" where
  "validate_endpoints value =
     bindE (getitem value ''endpoints'') (\<lambda>raw.
     case raw of
       JArr endpoints \<Rightarrow> bindE (validate_endpoint_loop 0 [] endpoints) (\<lambda>_. Inr endpoints)
     | _ \<Rightarrow> reject ''E_SCHEMA'' ''endpoints must be an array'')"

definition validate_target :: "string \<times> json \<Rightarrow> unit res" where
  "validate_target item =
     (case item of (target, raw) \<Rightarrow>
     let path = ''resources.targets['' @ repr_str target @ '']'' in
     bindE (require_string (JStr target) ''resources.targets key'' None) (\<lambda>_.
     bindE (require_object raw path) (\<lambda>budget.
     bindE (exact_keys budget TARGET_BUDGET_KEYS TARGET_BUDGET_KEYS path) (\<lambda>_.
     bindE (getitem budget ''flash_bytes'') (\<lambda>flash.
     bindE (require_integer flash (path @ ''.flash_bytes'') 1) (\<lambda>_.
     bindE (getitem budget ''ram_bytes'') (\<lambda>ram.
     bindE (require_integer ram (path @ ''.ram_bytes'') 1) (\<lambda>_. Inr ()))))))))"

definition validate_remote :: "dict \<Rightarrow> unit res" where
  "validate_remote resources =
     bindE (getitem resources ''remote'') (\<lambda>raw.
     bindE (require_object raw ''resources.remote'') (\<lambda>remote.
     bindE (exact_keys remote REMOTE_RESOURCE_KEYS REMOTE_RESOURCE_KEYS ''resources.remote'') (\<lambda>_.
     forE (\<lambda>key. bindE (getitem remote key) (\<lambda>v.
             bindE (require_integer v (''resources.remote.'' @ key) 0) (\<lambda>_. Inr ())))
       (sorted_set REMOTE_RESOURCE_KEYS))))"

definition validate_workers :: "dict \<Rightarrow> unit res" where
  "validate_workers resources =
     bindE (getitem resources ''workers'') (\<lambda>raw.
     bindE (require_object raw ''resources.workers'') (\<lambda>workers.
     bindE (exact_keys workers WORKER_RESOURCE_KEYS WORKER_RESOURCE_KEYS ''resources.workers'') (\<lambda>_.
     bindE (getitem workers ''maximum'') (\<lambda>maximum.
     bindE (require_integer maximum ''resources.workers.maximum'' 1) (\<lambda>_. Inr ())))))"

definition validate_application :: "dict \<Rightarrow> unit res" where
  "validate_application resources =
     bindE (getitem resources ''application'') (\<lambda>raw.
     bindE (require_object raw ''resources.application'') (\<lambda>application.
     bindE (exact_keys application APPLICATION_RESOURCE_KEYS APPLICATION_RESOURCE_KEYS
              ''resources.application'') (\<lambda>_.
     bindE (getitem application ''static_reserve_bytes'') (\<lambda>reserve.
     bindE (require_integer reserve ''resources.application.static_reserve_bytes'' 0) (\<lambda>_.
     Inr ())))))"

definition validate_targets :: "dict \<Rightarrow> unit res" where
  "validate_targets resources =
     bindE (getitem resources ''targets'') (\<lambda>raw.
     bindE (require_object raw ''resources.targets'') (\<lambda>targets.
     if targets = []
     then reject ''E_SCHEMA'' ''resources.targets must contain at least one target budget''
     else forE validate_target (sort_key fst targets)))"

definition validate_resources :: "dict \<Rightarrow> json list \<Rightarrow> unit res" where
  "validate_resources value endpoints =
     bindE (getitem value ''resources'') (\<lambda>raw.
     bindE (require_object raw ''resources'') (\<lambda>resources.
     bindE (exact_keys resources RESOURCE_KEYS RESOURCE_KEYS ''resources'') (\<lambda>_.
     bindE (getitem resources ''local_endpoints'') (\<lambda>local.
     bindE (require_integer local ''resources.local_endpoints'' 0) (\<lambda>local_capacity.
     if int (length endpoints) > local_capacity
     then reject ''E_RESOURCE_ENDPOINT_CAPACITY''
       (''deployment declares '' @ show_nat (length endpoints)
        @ '' endpoints but resources.local_endpoints is '' @ show_int local_capacity) else
     bindE (validate_remote resources) (\<lambda>_.
     bindE (validate_workers resources) (\<lambda>_.
     bindE (validate_application resources) (\<lambda>_.
     validate_targets resources))))))))"

definition validate_deployment :: "dict \<Rightarrow> dict res" where
  "validate_deployment value =
     bindE (validate_header value) (\<lambda>_.
     bindE (validate_node value) (\<lambda>_.
     bindE (validate_rmw value) (\<lambda>_.
     bindE (validate_graph value) (\<lambda>_.
     bindE (validate_endpoints value) (\<lambda>endpoints.
     bindE (validate_resources value endpoints) (\<lambda>_.
     Inr value))))))"

end
