(* ===== verification/Deployment_Schema.thy ===== *)
theory Deployment_Schema
  imports Deployment_Validate "HOL-Library.Monad_Syntax"
begin

text \<open>
  The two specifications of a deployment that the validator is measured against: the published
  JSON Schema \<open>src/schema/deployment.schema.json\<close> with a semantics for the keywords it uses, and
  the typed reading of a deployment (a record per object of the document) that the generators
  work on, with its well-formedness.
\<close>

section \<open>JSON Schema\<close>

datatype jtype = TObject | TArray | TString | TInteger | TBoolean

text \<open>
  One constructor per keyword. \<open>KProps\<close> holds \<open>properties\<close> and \<open>additionalProperties\<close>: \<open>None\<close>
  stands for \<open>false\<close>.
\<close>

datatype keyword =
    KType jtype
  | KConst json
  | KEnum "json list"
  | KPattern rx
  | KMinimum int
  | KMaximum int
  | KMinItems nat
  | KUniqueItems
  | KItems "keyword list"
  | KRequired "string list"
  | KProps "(string \<times> keyword list) list" "keyword list option"
  | KMinProperties nat

definition has_type :: "jtype \<Rightarrow> json \<Rightarrow> bool" where
  "has_type t v \<longleftrightarrow>
     (case v of
        JObj _ \<Rightarrow> t = TObject
      | JArr _ \<Rightarrow> t = TArray
      | JStr _ \<Rightarrow> t = TString
      | JInt _ \<Rightarrow> t = TInteger
      | JBool _ \<Rightarrow> t = TBoolean
      | JFloat f \<Rightarrow> t = TInteger \<and>
          (case float_val f of Dyadic m e \<Rightarrow> 0 \<le> e \<or> 2 ^ nat (- e) dvd m | _ \<Rightarrow> False)
      | JNull \<Rightarrow> False)"

text \<open>Equality of \<open>const\<close> and \<open>enum\<close>: numbers compare by value, a boolean is not a number.\<close>

definition schema_eq :: "json \<Rightarrow> json \<Rightarrow> bool" where
  "schema_eq c v \<longleftrightarrow>
     (case (c, v) of (JInt n, JFloat f) \<Rightarrow> float_eq_int (float_val f) n | _ \<Rightarrow> c = v)"

text \<open>The patterns of the schema are anchored at both ends, so a search is a full match.\<close>

fun conf :: "keyword \<Rightarrow> json \<Rightarrow> bool" where
  "conf (KType t) v = has_type t v"
| "conf (KConst c) v = schema_eq c v"
| "conf (KEnum cs) v = list_ex (\<lambda>c. schema_eq c v) cs"
| "conf (KPattern r) v = (case v of JStr s \<Rightarrow> matches r s | _ \<Rightarrow> True)"
| "conf (KMinimum n) v =
     (case v of JInt i \<Rightarrow> n \<le> i | JFloat f \<Rightarrow> int_le_float n (float_val f) | _ \<Rightarrow> True)"
| "conf (KMaximum n) v =
     (case v of
        JInt i \<Rightarrow> i \<le> n
      | JFloat f \<Rightarrow> (case float_val f of
          Dyadic m e \<Rightarrow> if 0 \<le> e then m * 2 ^ nat e \<le> n else m \<le> n * 2 ^ nat (- e)
        | Infty pos \<Rightarrow> \<not> pos
        | Nan \<Rightarrow> False)
      | _ \<Rightarrow> True)"
| "conf (KMinItems n) v = (case v of JArr vs \<Rightarrow> n \<le> length vs | _ \<Rightarrow> True)"
| "conf KUniqueItems v = (case v of JArr vs \<Rightarrow> distinct vs | _ \<Rightarrow> True)"
| "conf (KItems ks) v =
     (case v of JArr vs \<Rightarrow> list_all (\<lambda>x. list_all (\<lambda>k. conf k x) ks) vs | _ \<Rightarrow> True)"
| "conf (KRequired ps) v = (case v of JObj d \<Rightarrow> set ps \<subseteq> set (map fst d) | _ \<Rightarrow> True)"
| "conf (KProps props add) v =
     (case v of
        JObj d \<Rightarrow>
          list_all (\<lambda>(p, ks). case map_of d p of
              None \<Rightarrow> True | Some x \<Rightarrow> list_all (\<lambda>k. conf k x) ks) props \<and>
          (case add of
             None \<Rightarrow> set (map fst d) \<subseteq> set (map fst props)
           | Some ks \<Rightarrow> list_all (\<lambda>(p, x). p \<in> set (map fst props) \<or> list_all (\<lambda>k. conf k x) ks) d)
      | _ \<Rightarrow> True)"
| "conf (KMinProperties n) v = (case v of JObj d \<Rightarrow> n \<le> length d | _ \<Rightarrow> True)"

definition conforms :: "keyword list \<Rightarrow> json \<Rightarrow> bool" where
  "conforms ks v \<longleftrightarrow> list_all (\<lambda>k. conf k v) ks"

section \<open>The published schema\<close>

definition obj_schema :: "(string \<times> keyword list) list \<Rightarrow> string list \<Rightarrow> keyword list" where
  "obj_schema props req = [KType TObject, KProps props None, KRequired req]"

definition int_schema :: "int \<Rightarrow> keyword list" where
  "int_schema n = [KType TInteger, KMinimum n]"

definition node_schema :: "keyword list" where
  "node_schema =
     obj_schema [(''name'', [KType TString, KPattern IDENTIFIER]), (''namespace'', [KType TString])]
       [''name'', ''namespace'']"

definition graph_schema :: "keyword list" where
  "graph_schema =
     obj_schema
       [(''outbound'', [KType TBoolean]), (''inbound'', [KType TBoolean]),
        (''api'', [KType TArray, KUniqueItems, KItems [KType TString]])]
       [''outbound'', ''inbound'', ''api'']"

definition qos_schema :: "keyword list" where
  "qos_schema =
     obj_schema
       [(''reliability'', [KEnum [JStr ''best_effort'', JStr ''reliable'']]),
        (''durability'', [KEnum [JStr ''volatile'', JStr ''transient_local'']]),
        (''history'', [KConst (JStr ''keep_last'')]),
        (''depth'', int_schema 1)]
       [''reliability'', ''durability'', ''history'', ''depth'']"

definition endpoint_schema :: "keyword list" where
  "endpoint_schema =
     obj_schema
       [(''id'', [KType TString, KPattern LOWER_IDENTIFIER]),
        (''kind'', [KEnum [JStr ''publisher'', JStr ''subscription'']]),
        (''topic'', [KType TString]),
        (''type'', [KType TString, KPattern MESSAGE_TYPE]),
        (''callback'', [KType TString, KPattern IDENTIFIER]),
        (''lifetime'', [KConst (JStr ''fixed_startup'')]),
        (''qos'', qos_schema)]
       [''id'', ''kind'', ''topic'', ''type'', ''qos'', ''lifetime'']"

definition target_schema :: "keyword list" where
  "target_schema =
     obj_schema [(''flash_bytes'', int_schema 1), (''ram_bytes'', int_schema 1)]
       [''flash_bytes'', ''ram_bytes'']"

definition resources_schema :: "keyword list" where
  "resources_schema =
     obj_schema
       [(''local_endpoints'', int_schema 0),
        (''remote'', obj_schema
           [(''participants'', int_schema 0), (''nodes'', int_schema 0),
            (''endpoints'', int_schema 0)]
           [''participants'', ''nodes'', ''endpoints'']),
        (''workers'', obj_schema [(''maximum'', int_schema 1)] [''maximum'']),
        (''application'', obj_schema [(''static_reserve_bytes'', int_schema 0)]
           [''static_reserve_bytes'']),
        (''targets'', [KType TObject, KMinProperties 1, KProps [] (Some target_schema)])]
       [''local_endpoints'', ''remote'', ''workers'', ''application'', ''targets'']"

definition deployment_schema :: "keyword list" where
  "deployment_schema =
     obj_schema
       [(''schema_version'', [KConst (JInt 2)]),
        (''name'', [KType TString, KPattern LOWER_IDENTIFIER]),
        (''domain_id'', [KType TInteger, KMinimum 0, KMaximum 232]),
        (''node'', node_schema),
        (''rmw'', [KType TArray, KMinItems 1, KUniqueItems,
           KItems [KEnum [JStr ''rmw_cyclonedds_c'', JStr ''rmw_zenoh_pico'']]]),
        (''message_profile'', [KConst (JStr ''fixed_size'')]),
        (''graph'', graph_schema),
        (''endpoints'', [KType TArray, KItems endpoint_schema]),
        (''resources'', resources_schema)]
       [''schema_version'', ''name'', ''domain_id'', ''node'', ''rmw'', ''message_profile'',
        ''graph'', ''endpoints'', ''resources'']"

section \<open>The typed reading of a deployment\<close>

record qos =
  qos_reliability :: string
  qos_durability :: string
  qos_history :: string
  qos_depth :: int

record endpoint =
  ep_id :: string
  ep_kind :: string
  ep_topic :: string
  ep_type :: string
  ep_callback :: "string option"
  ep_qos :: qos

record budget =
  bud_flash :: int
  bud_ram :: int

record deployment =
  dep_name :: string
  dep_domain :: int
  dep_node :: string
  dep_namespace :: string
  dep_rmw :: "string list"
  dep_profile :: string
  dep_outbound :: bool
  dep_inbound :: bool
  dep_api :: "string list"
  dep_endpoints :: "endpoint list"
  dep_local :: int
  dep_participants :: int
  dep_nodes :: int
  dep_remote_endpoints :: int
  dep_workers :: int
  dep_reserve :: int
  dep_targets :: "(string \<times> budget) list"

definition as_strs :: "json \<Rightarrow> string list option" where
  "as_strs v = (case v of JArr vs \<Rightarrow> if list_all is_str vs then Some (strs vs) else None | _ \<Rightarrow> None)"

fun map_opt :: "('a \<Rightarrow> 'b option) \<Rightarrow> 'a list \<Rightarrow> 'b list option" where
  "map_opt f [] = Some []"
| "map_opt f (x # xs) = do { y \<leftarrow> f x; ys \<leftarrow> map_opt f xs; Some (y # ys) }"

definition field :: "(json \<Rightarrow> 'a option) \<Rightarrow> dict \<Rightarrow> string \<Rightarrow> 'a option" where
  "field f d k = do { v \<leftarrow> map_of d k; f v }"

definition optional_str :: "dict \<Rightarrow> string \<Rightarrow> string option option" where
  "optional_str d k =
     (case map_of d k of None \<Rightarrow> Some None | Some v \<Rightarrow> map_option Some (as_str v))"

definition qos_of :: "json \<Rightarrow> qos option" where
  "qos_of v = do {
     d \<leftarrow> as_obj v;
     r \<leftarrow> field as_str d ''reliability'';
     u \<leftarrow> field as_str d ''durability'';
     h \<leftarrow> field as_str d ''history'';
     n \<leftarrow> field as_int d ''depth'';
     Some \<lparr>qos_reliability = r, qos_durability = u, qos_history = h, qos_depth = n\<rparr> }"

definition endpoint_of :: "json \<Rightarrow> endpoint option" where
  "endpoint_of v = do {
     d \<leftarrow> as_obj v;
     i \<leftarrow> field as_str d ''id'';
     k \<leftarrow> field as_str d ''kind'';
     t \<leftarrow> field as_str d ''topic'';
     y \<leftarrow> field as_str d ''type'';
     c \<leftarrow> optional_str d ''callback'';
     q \<leftarrow> field qos_of d ''qos'';
     Some \<lparr>ep_id = i, ep_kind = k, ep_topic = t, ep_type = y, ep_callback = c, ep_qos = q\<rparr> }"

definition budget_of :: "json \<Rightarrow> budget option" where
  "budget_of v = do {
     d \<leftarrow> as_obj v;
     f \<leftarrow> field as_int d ''flash_bytes'';
     r \<leftarrow> field as_int d ''ram_bytes'';
     Some \<lparr>bud_flash = f, bud_ram = r\<rparr> }"

definition target_of :: "string \<times> json \<Rightarrow> (string \<times> budget) option" where
  "target_of = (\<lambda>(t, v). map_option (Pair t) (budget_of v))"

definition deployment_of :: "dict \<Rightarrow> deployment option" where
  "deployment_of v = do {
     nm \<leftarrow> field as_str v ''name'';
     dom \<leftarrow> field as_int v ''domain_id'';
     node \<leftarrow> field as_obj v ''node'';
     nn \<leftarrow> field as_str node ''name'';
     ns \<leftarrow> field as_str node ''namespace'';
     rmw \<leftarrow> field as_strs v ''rmw'';
     prof \<leftarrow> field as_str v ''message_profile'';
     graph \<leftarrow> field as_obj v ''graph'';
     outb \<leftarrow> field as_bool graph ''outbound'';
     inb \<leftarrow> field as_bool graph ''inbound'';
     api \<leftarrow> field as_strs graph ''api'';
     rawes \<leftarrow> field as_arr v ''endpoints'';
     es \<leftarrow> map_opt endpoint_of rawes;
     res \<leftarrow> field as_obj v ''resources'';
     loc \<leftarrow> field as_int res ''local_endpoints'';
     rem \<leftarrow> field as_obj res ''remote'';
     rp \<leftarrow> field as_int rem ''participants'';
     rn \<leftarrow> field as_int rem ''nodes'';
     re \<leftarrow> field as_int rem ''endpoints'';
     wk \<leftarrow> field as_obj res ''workers'';
     wm \<leftarrow> field as_int wk ''maximum'';
     ap \<leftarrow> field as_obj res ''application'';
     sr \<leftarrow> field as_int ap ''static_reserve_bytes'';
     rawts \<leftarrow> field as_obj res ''targets'';
     ts \<leftarrow> map_opt target_of rawts;
     Some \<lparr>dep_name = nm, dep_domain = dom, dep_node = nn, dep_namespace = ns, dep_rmw = rmw,
       dep_profile = prof, dep_outbound = outb, dep_inbound = inb, dep_api = api,
       dep_endpoints = es, dep_local = loc, dep_participants = rp, dep_nodes = rn,
       dep_remote_endpoints = re, dep_workers = wm, dep_reserve = sr, dep_targets = ts\<rparr> }"

section \<open>Well-formed deployments\<close>

definition is_identifier :: "string \<Rightarrow> bool" where
  "is_identifier s \<longleftrightarrow> ident_ok alpha_us alnum_us s"

definition is_lower_identifier :: "string \<Rightarrow> bool" where
  "is_lower_identifier s \<longleftrightarrow> ident_ok lower_alpha lower_alnum_us s"

definition type_part :: "string \<Rightarrow> bool" where
  "type_part s \<longleftrightarrow> ident_ok alpha alnum_us s"

definition wf_qos :: "qos \<Rightarrow> bool" where
  "wf_qos q \<longleftrightarrow>
     qos_reliability q \<in> {''best_effort'', ''reliable''} \<and>
     qos_durability q \<in> {''volatile'', ''transient_local''} \<and>
     qos_history q = ''keep_last'' \<and> 1 \<le> qos_depth q"

definition wf_endpoint :: "endpoint \<Rightarrow> bool" where
  "wf_endpoint e \<longleftrightarrow>
     is_lower_identifier (ep_id e) \<and>
     ep_kind e \<in> {''publisher'', ''subscription''} \<and>
     ep_topic e \<noteq> [] \<and> \<not> endswith (ep_topic e) ''/'' \<and> \<not> contains ''//'' (ep_topic e) \<and>
     (\<exists>p m. ep_type e = p @ ''/msg/'' @ m \<and> type_part p \<and> type_part m) \<and>
     (case ep_callback e of
        None \<Rightarrow> ep_kind e = ''publisher''
      | Some c \<Rightarrow> ep_kind e = ''subscription'' \<and> is_identifier c) \<and>
     wf_qos (ep_qos e)"

definition wf_deployment :: "deployment \<Rightarrow> bool" where
  "wf_deployment d \<longleftrightarrow>
     is_lower_identifier (dep_name d) \<and>
     0 \<le> dep_domain d \<and> dep_domain d \<le> 232 \<and>
     dep_profile d = ''fixed_size'' \<and>
     is_identifier (dep_node d) \<and>
     (dep_namespace d = [] \<or>
        startswith (dep_namespace d) ''/'' \<and> \<not> endswith (dep_namespace d) ''/'') \<and>
     dep_rmw d \<noteq> [] \<and> distinct (dep_rmw d) \<and> set (dep_rmw d) \<subseteq> set SUPPORTED_BACKENDS \<and>
     distinct (dep_api d) \<and>
     list_all wf_endpoint (dep_endpoints d) \<and> distinct (map ep_id (dep_endpoints d)) \<and>
     int (length (dep_endpoints d)) \<le> dep_local d \<and>
     0 \<le> dep_participants d \<and> 0 \<le> dep_nodes d \<and> 0 \<le> dep_remote_endpoints d \<and>
     1 \<le> dep_workers d \<and> 0 \<le> dep_reserve d \<and>
     dep_targets d \<noteq> [] \<and> list_all (\<lambda>(_, b). 1 \<le> bud_flash b \<and> 1 \<le> bud_ram b) (dep_targets d)"

end
