(* ===== verification/Deployment_Validity.thy ===== *)
theory Deployment_Validity
  imports Deployment_Schema
begin

text \<open>
  What acceptance by \<open>validate_deployment\<close> means: exactly the documents that conform to the
  published schema and have a well-formed typed reading are accepted.
\<close>

section \<open>Field checks\<close>

lemma reject_eq_Inr [simp]: "reject c m \<noteq> Inr x"
  by (simp add: reject_def)

lemma if_reject_eq_Inr [res_simps]:
  "(if c then reject a m else r) = Inr y \<longleftrightarrow> \<not> c \<and> r = Inr y"
  by simp

lemma case_arr_eq_Inr [res_simps]:
  "(case v of JArr vs \<Rightarrow> f vs | _ \<Rightarrow> reject a m) = Inr y \<longleftrightarrow> (\<exists>vs. v = JArr vs \<and> f vs = Inr y)"
  by (cases v) simp_all

lemma not_bad_int [res_simps]:
  "\<not> (case v of JInt i \<Rightarrow> P i | _ \<Rightarrow> True) \<longleftrightarrow> (\<exists>i. v = JInt i \<and> \<not> P i)"
  by (cases v) simp_all

text \<open>Forward evaluation of the checks from known fields.\<close>

named_theorems run_simps \<open>evaluation of a check from what it reads\<close>

lemma getitem_run [run_simps]: "map_of d k = Some v \<Longrightarrow> getitem d k = Inr v"
  by (simp add: getitem_def)

lemma exact_keys_ok [res_simps]:
  "exact_keys v allowed required path = Inr u \<longleftrightarrow>
     set (map fst v) \<subseteq> set allowed \<and> set required \<subseteq> set (map fst v)"
  by (auto simp: exact_keys_def Let_def filter_empty_conv)

lemma require_object_ok [res_simps]: "require_object v path = Inr d \<longleftrightarrow> v = JObj d"
  by (cases v) (simp_all add: require_object_def)

lemma require_string_None [res_simps]: "require_string v path None = Inr s \<longleftrightarrow> v = JStr s"
  by (cases v) (simp_all add: require_string_def)

lemma require_string_Some [res_simps]:
  "require_string v path (Some r) = Inr s \<longleftrightarrow> v = JStr s \<and> matches r s"
  by (cases v) (auto simp: require_string_def matches_def)

lemma require_run [run_simps]:
  "require_object (JObj d) path = Inr d"
  "require_string (JStr s) path None = Inr s"
  "matches r s \<Longrightarrow> require_string (JStr s) path (Some r) = Inr s"
  "n \<le> i \<Longrightarrow> require_integer (JInt i) path n = Inr i"
  by (simp_all add: require_object_def require_string_def require_integer_def matches_def)

lemma exact_keys_run [run_simps]:
  "set (map fst v) \<subseteq> set allowed \<Longrightarrow> set required \<subseteq> set (map fst v) \<Longrightarrow>
     exact_keys v allowed required path = Inr ()"
  by (simp add: exact_keys_ok)

lemma require_integer_ok [res_simps]:
  "require_integer v path n = Inr i \<longleftrightarrow> v = JInt i \<and> n \<le> i"
  by (cases v) (auto simp: require_integer_def)

lemma matches_IDENTIFIER: "matches IDENTIFIER s \<longleftrightarrow> is_identifier s"
  by (simp add: IDENTIFIER_def is_identifier_def matches_def fullmatch_ident del: Seqs.simps)

lemma matches_LOWER_IDENTIFIER:
  "matches LOWER_IDENTIFIER s \<longleftrightarrow> is_lower_identifier s"
  by (simp add: LOWER_IDENTIFIER_def is_lower_identifier_def matches_def fullmatch_ident del: Seqs.simps)

lemma type_part_no_slash: "type_part s \<Longrightarrow> CHR ''/'' \<notin> set s"
  unfolding type_part_def
  by (rule ident_ok_notin) (simp_all add: alpha_def alnum_us_def in_cls_def)

lemma message_type_unique:
  assumes "p @ ''/msg/'' @ m = p' @ ''/msg/'' @ m'" and "type_part p" and "type_part p'"
  shows "p = p' \<and> m = m'"
  using append_sep_unique [of p "CHR ''/''" "''msg/'' @ m" p' "''msg/'' @ m'"] assms
  by (auto dest: type_part_no_slash)

lemma run_MESSAGE_TYPE:
  "(q, [], g) \<in> set (run False MESSAGE_TYPE ([], s, [])) \<longleftrightarrow>
     q = rev s \<and> (\<exists>p m. s = p @ ''/msg/'' @ m \<and> type_part p \<and> type_part m \<and> g = [(2, m), (1, p)])"
  unfolding MESSAGE_TYPE_def Seqs.simps Ident_def [symmetric] type_part_def
  by (auto simp: rx_iff at_bol_def at_eol_def nl_def simp del: run.simps)

lemma fullmatch_MESSAGE_TYPE:
  "fullmatch MESSAGE_TYPE s = Some g \<longleftrightarrow>
     (\<exists>p m. s = p @ ''/msg/'' @ m \<and> type_part p \<and> type_part m \<and> g = [(2, m), (1, p)])"
proof
  assume "fullmatch MESSAGE_TYPE s = Some g"
  then show "\<exists>p m. s = p @ ''/msg/'' @ m \<and> type_part p \<and> type_part m \<and> g = [(2, m), (1, p)]"
    by (auto dest!: fullmatch_SomeD simp: run_MESSAGE_TYPE)
next
  assume "\<exists>p m. s = p @ ''/msg/'' @ m \<and> type_part p \<and> type_part m \<and> g = [(2, m), (1, p)]"
  then obtain p m where pm: "s = p @ ''/msg/'' @ m" "type_part p" "type_part m" "g = [(2, m), (1, p)]"
    by blast
  then have "matches MESSAGE_TYPE s"
    unfolding matches_def fullmatch_None run_MESSAGE_TYPE by blast
  then obtain h where h: "fullmatch MESSAGE_TYPE s = Some h" by (auto simp: matches_def)
  then obtain p' m' where "s = p' @ ''/msg/'' @ m'" "type_part p'" "h = [(2, m'), (1, p')]"
    by (auto dest!: fullmatch_SomeD simp: run_MESSAGE_TYPE)
  with pm h show "fullmatch MESSAGE_TYPE s = Some g"
    using message_type_unique [of p m p' m'] by simp
qed

lemma matches_MESSAGE_TYPE:
  "matches MESSAGE_TYPE s \<longleftrightarrow>
     (\<exists>p m. s = p @ ''/msg/'' @ m \<and> type_part p \<and> type_part m)"
  using fullmatch_MESSAGE_TYPE [of s] unfolding matches_def by (metis not_None_eq)

lemmas pattern_simps =
  matches_IDENTIFIER matches_LOWER_IDENTIFIER matches_MESSAGE_TYPE

section \<open>Reading\<close>

named_theorems view_simps \<open>inversion of the typed reading\<close>

lemmas [view_simps] = as_Some

lemma as_strs_Some [view_simps]: "as_strs v = Some ss \<longleftrightarrow> v = JArr (map JStr ss)"
proof -
  have "list_all is_str vs \<and> strs vs = ss \<longleftrightarrow> vs = map JStr ss" for vs
    unfolding list_all_is_str by (metis strs_map_JStr)
  then show ?thesis by (cases v) (auto simp: as_strs_def)
qed

lemma as_strs_map: "as_strs (JArr (map JStr ss)) = Some ss"
  by (simp add: as_strs_Some)

lemma field_Some [view_simps]: "field f d k = Some x \<longleftrightarrow> (\<exists>v. map_of d k = Some v \<and> f v = Some x)"
  by (cases "map_of d k") (auto simp: field_def)

lemma optional_str_Some [view_simps]:
  "optional_str d k = Some c \<longleftrightarrow> map_of d k = map_option JStr c"
  by (cases c) (auto simp: optional_str_def as_Some split: option.splits)

lemma map_opt_Some [view_simps]:
  "map_opt f xs = Some ys \<longleftrightarrow> list_all2 (\<lambda>x y. f x = Some y) xs ys"
  by (induction xs arbitrary: ys) (auto simp: bind_eq_Some_conv list_all2_Cons1)

lemma qos_of_Some [view_simps]:
  "qos_of v = Some q \<longleftrightarrow>
     (\<exists>d. v = JObj d \<and>
        map_of d ''reliability'' = Some (JStr (qos_reliability q)) \<and>
        map_of d ''durability'' = Some (JStr (qos_durability q)) \<and>
        map_of d ''history'' = Some (JStr (qos_history q)) \<and>
        map_of d ''depth'' = Some (JInt (qos_depth q)))"
  by (cases q) (auto simp: qos_of_def bind_eq_Some_conv view_simps)

lemma endpoint_of_Some [view_simps]:
  "endpoint_of v = Some e \<longleftrightarrow>
     (\<exists>d w. v = JObj d \<and>
        map_of d ''id'' = Some (JStr (ep_id e)) \<and>
        map_of d ''kind'' = Some (JStr (ep_kind e)) \<and>
        map_of d ''topic'' = Some (JStr (ep_topic e)) \<and>
        map_of d ''type'' = Some (JStr (ep_type e)) \<and>
        map_of d ''callback'' = map_option JStr (ep_callback e) \<and>
        map_of d ''qos'' = Some w \<and> qos_of w = Some (ep_qos e))"
  by (cases e) (auto simp: endpoint_of_def bind_eq_Some_conv view_simps)

lemma budget_of_Some [view_simps]:
  "budget_of v = Some b \<longleftrightarrow>
     (\<exists>d. v = JObj d \<and>
        map_of d ''flash_bytes'' = Some (JInt (bud_flash b)) \<and>
        map_of d ''ram_bytes'' = Some (JInt (bud_ram b)))"
  by (cases b) (auto simp: budget_of_def bind_eq_Some_conv view_simps)

lemma target_of_Some [view_simps]:
  "target_of tv = Some tb \<longleftrightarrow> fst tb = fst tv \<and> budget_of (snd tv) = Some (snd tb)"
  by (cases tv; cases tb) (auto simp: target_of_def)

section \<open>Conformance of the parts\<close>

named_theorems schema_simps \<open>conformance to a schema spelled out\<close>

lemma conforms_obj [schema_simps]:
  "conforms (obj_schema props req) v \<longleftrightarrow>
     (\<exists>d. v = JObj d \<and>
        list_all (\<lambda>(p, ks). \<forall>x. map_of d p = Some x \<longrightarrow> conforms ks x) props \<and>
        set (map fst d) \<subseteq> set (map fst props) \<and> set req \<subseteq> set (map fst d))"
  by (cases v)
     (auto simp: conforms_def obj_schema_def has_type_def list_all_iff split: option.splits)

lemma conforms_int [schema_simps]: "conforms (int_schema n) (JInt i) \<longleftrightarrow> n \<le> i"
  by (simp add: conforms_def int_schema_def has_type_def)

lemma conforms_str [schema_simps]:
  "conforms [KType TString] v \<longleftrightarrow> (\<exists>s. v = JStr s)"
  "conforms [KType TString, KPattern r] v \<longleftrightarrow> (\<exists>s. v = JStr s \<and> matches r s)"
  "conforms [KConst (JStr t)] v \<longleftrightarrow> v = JStr t"
  "conforms [KEnum [JStr t, JStr u]] v \<longleftrightarrow> v = JStr t \<or> v = JStr u"
  by (cases v; auto simp: conforms_def has_type_def schema_eq_def)+

lemma conforms_bool [schema_simps]: "conforms [KType TBoolean] v \<longleftrightarrow> (\<exists>b. v = JBool b)"
  by (cases v) (auto simp: conforms_def has_type_def)

lemma conforms_items [schema_simps]:
  "conforms [KType TArray, KItems ks] v \<longleftrightarrow> (\<exists>vs. v = JArr vs \<and> list_all (conforms ks) vs)"
  by (cases v) (auto simp: conforms_def has_type_def list_all_iff)

lemma in_keys_iff: "k \<in> set (map fst d) \<longleftrightarrow> (\<exists>v. map_of d k = Some v)"
  by (simp add: dom_map_of_conv_image_fst [symmetric] domIff)

lemma validate_qos_ok [res_simps]:
  "validate_qos ep path = Inr u \<longleftrightarrow>
     (\<exists>v q. map_of ep ''qos'' = Some v \<and> conforms qos_schema v \<and> qos_of v = Some q \<and> wf_qos q)"
  (is "?L \<longleftrightarrow> ?R")
proof
  assume ?L
  then obtain d r t n where d: "map_of ep ''qos'' = Some (JObj d)"
    "set (map fst d) \<subseteq> set QOS_KEYS" "set QOS_KEYS \<subseteq> set (map fst d)"
    "map_of d ''reliability'' = Some (JStr r)" "r \<in> {''best_effort'', ''reliable''}"
    "map_of d ''durability'' = Some (JStr t)" "t \<in> {''volatile'', ''transient_local''}"
    "map_of d ''history'' = Some (JStr ''keep_last'')"
    "map_of d ''depth'' = Some (JInt n)" "1 \<le> n"
    by (auto simp: validate_qos_def res_simps)
  let ?q = "\<lparr>qos_reliability = r, qos_durability = t, qos_history = ''keep_last'', qos_depth = n\<rparr>"
  have "conforms qos_schema (JObj d)"
    using d by (auto simp: qos_schema_def schema_simps QOS_KEYS_def)
  moreover have "qos_of (JObj d) = Some ?q" "wf_qos ?q"
    using d by (simp_all add: view_simps wf_qos_def)
  ultimately show ?R using d(1) by blast
next
  assume ?R
  then obtain d q where d: "map_of ep ''qos'' = Some (JObj d)" "conforms qos_schema (JObj d)"
    "qos_of (JObj d) = Some q" "wf_qos q"
    by (auto simp: view_simps)
  then have "set (map fst d) = set QOS_KEYS"
    by (auto simp: qos_schema_def schema_simps QOS_KEYS_def)
  with d show ?L
    by (simp add: validate_qos_def run_simps view_simps wf_qos_def)
qed

lemma validate_endpoint_fields_ok [res_simps]:
  "validate_endpoint_fields d path = Inr k \<longleftrightarrow>
     k \<in> {JStr ''publisher'', JStr ''subscription''} \<and> map_of d ''kind'' = Some k \<and>
     (\<exists>t. map_of d ''topic'' = Some (JStr t) \<and>
        t \<noteq> [] \<and> \<not> endswith t ''/'' \<and> \<not> contains ''//'' t) \<and>
     (\<exists>y. map_of d ''type'' = Some (JStr y) \<and> matches MESSAGE_TYPE y) \<and>
     map_of d ''lifetime'' = Some (JStr ''fixed_startup'')"
  by (auto simp: validate_endpoint_fields_def res_simps)

lemma validate_callback_ok [res_simps]:
  "validate_callback d k path = Inr u \<longleftrightarrow>
     (if k = JStr ''subscription''
      then \<exists>c. map_of d ''callback'' = Some (JStr c) \<and> is_identifier c
      else map_of d ''callback'' = None)"
  by (auto simp: validate_callback_def res_simps dict_get_def pattern_simps in_keys_iff
      simp del: set_map split: option.splits)

lemma endpoint_schema_iff:
  "conforms endpoint_schema (JObj d) \<longleftrightarrow>
     (\<forall>x. map_of d ''id'' = Some x \<longrightarrow> (\<exists>s. x = JStr s \<and> is_lower_identifier s)) \<and>
     (\<forall>x. map_of d ''kind'' = Some x \<longrightarrow> x = JStr ''publisher'' \<or> x = JStr ''subscription'') \<and>
     (\<forall>x. map_of d ''topic'' = Some x \<longrightarrow> (\<exists>s. x = JStr s)) \<and>
     (\<forall>x. map_of d ''type'' = Some x \<longrightarrow> (\<exists>s. x = JStr s \<and> matches MESSAGE_TYPE s)) \<and>
     (\<forall>x. map_of d ''callback'' = Some x \<longrightarrow> (\<exists>s. x = JStr s \<and> is_identifier s)) \<and>
     (\<forall>x. map_of d ''lifetime'' = Some x \<longrightarrow> x = JStr ''fixed_startup'') \<and>
     (\<forall>x. map_of d ''qos'' = Some x \<longrightarrow> conforms qos_schema x) \<and>
     set (map fst d) \<subseteq> set ENDPOINT_KEYS \<and>
     set (filter (\<lambda>k. k \<noteq> ''callback'') ENDPOINT_KEYS) \<subseteq> set (map fst d)"
proof -
  have "set (filter (\<lambda>k. k \<noteq> ''callback'') ENDPOINT_KEYS) =
      set [''id'', ''kind'', ''topic'', ''type'', ''qos'', ''lifetime'']"
    by (simp add: ENDPOINT_KEYS_def)
  moreover have "set ENDPOINT_KEYS =
      set [''id'', ''kind'', ''topic'', ''type'', ''callback'', ''lifetime'', ''qos'']"
    by (auto simp: ENDPOINT_KEYS_def)
  ultimately show ?thesis
    unfolding endpoint_schema_def conforms_obj
    by (simp only: list.pred_inject prod.case json.inject ex_simps simp_thms fst_conv list.map
        conforms_str pattern_simps(1,2) conj_assoc)
qed

lemma validate_endpoint_sound:
  assumes "validate_endpoint i ids raw = Inr ids'"
  shows "\<exists>e. endpoint_of raw = Some e \<and> conforms endpoint_schema raw \<and> wf_endpoint e \<and>
        ep_id e \<notin> set ids \<and> ids' = ep_id e # ids"
proof -
  from assms obtain d eid k q u u' where raw: "raw = JObj d"
    and keys: "set (map fst d) \<subseteq> set ENDPOINT_KEYS"
      "set (filter (\<lambda>k. k \<noteq> ''callback'') ENDPOINT_KEYS) \<subseteq> set (map fst d)"
    and eid: "map_of d ''id'' = Some (JStr eid)" "is_lower_identifier eid" "eid \<notin> set ids"
      "ids' = eid # ids"
    and parts: "validate_endpoint_fields d q = Inr k" "validate_callback d k q = Inr u"
      "validate_qos d q = Inr u'"
    by (simp only: validate_endpoint_def Let_def bindE_eq_Inr require_object_ok exact_keys_ok
        getitem_eq_Inr require_string_Some if_reject_eq_Inr pattern_simps sum.inject)
       (clarify, rule that, (rule refl | assumption)+)
  from parts(1) obtain t y where f: "map_of d ''kind'' = Some k"
      "map_of d ''topic'' = Some (JStr t)" "t \<noteq> []" "\<not> endswith t ''/''" "\<not> contains ''//'' t"
      "map_of d ''type'' = Some (JStr y)" "matches MESSAGE_TYPE y"
      "map_of d ''lifetime'' = Some (JStr ''fixed_startup'')"
    and k: "k = JStr ''publisher'' \<or> k = JStr ''subscription''"
    by (auto simp: validate_endpoint_fields_ok)
  from parts(3) obtain w qs where w: "map_of d ''qos'' = Some w" "conforms qos_schema w"
      "qos_of w = Some qs" "wf_qos qs"
    by (auto simp: validate_qos_ok)
  obtain ks where ks: "k = JStr ks" using k by blast
  obtain c where c: "map_of d ''callback'' = map_option JStr c"
    and cb: "case c of None \<Rightarrow> ks = ''publisher'' | Some x \<Rightarrow> ks = ''subscription'' \<and> is_identifier x"
  proof (cases "ks = ''subscription''")
    case True
    with parts(2) ks obtain x where "map_of d ''callback'' = Some (JStr x)" "is_identifier x"
      by (auto simp: validate_callback_ok)
    with True show ?thesis by (intro that [of "Some x"]) simp_all
  next
    case False
    with parts(2) k ks show ?thesis by (intro that [of None]) (auto simp: validate_callback_ok)
  qed
  let ?e = "\<lparr>ep_id = eid, ep_kind = ks, ep_topic = t, ep_type = y, ep_callback = c, ep_qos = qs\<rparr>"
  have "endpoint_of raw = Some ?e"
    using raw eid f w c ks by (simp add: view_simps)
  moreover have "conforms endpoint_schema raw"
    unfolding raw endpoint_schema_iff using keys eid f w c cb k
    by (auto split: option.splits)
  moreover have "wf_endpoint ?e"
    using eid f(3-5,7) w cb k ks by (auto simp: wf_endpoint_def pattern_simps split: option.splits)
  ultimately show ?thesis using eid by (intro exI [of _ ?e]) simp
qed

lemma validate_endpoint_complete:
  assumes "endpoint_of raw = Some e" and "conforms endpoint_schema raw" and "wf_endpoint e"
    and "ep_id e \<notin> set ids"
  shows "validate_endpoint i ids raw = Inr (ep_id e # ids)"
proof -
  from assms(1) obtain d w where raw: "raw = JObj d"
    and f: "map_of d ''id'' = Some (JStr (ep_id e))" "map_of d ''kind'' = Some (JStr (ep_kind e))"
      "map_of d ''topic'' = Some (JStr (ep_topic e))" "map_of d ''type'' = Some (JStr (ep_type e))"
      "map_of d ''callback'' = map_option JStr (ep_callback e)"
      "map_of d ''qos'' = Some w" "qos_of w = Some (ep_qos e)"
    by (auto simp: endpoint_of_Some)
  note schema = assms(2) [unfolded raw endpoint_schema_iff]
  have "''lifetime'' \<in> set (filter (\<lambda>k. k \<noteq> ''callback'') ENDPOINT_KEYS)"
    by (simp add: ENDPOINT_KEYS_def)
  with schema have "''lifetime'' \<in> set (map fst d)" by blast
  with schema have "map_of d ''lifetime'' = Some (JStr ''fixed_startup'')"
    unfolding in_keys_iff by blast
  then have "validate_endpoint_fields d p = Inr (JStr (ep_kind e))" for p
    using f assms(3) unfolding validate_endpoint_fields_ok
    by (auto simp: wf_endpoint_def pattern_simps)
  moreover have "validate_callback d (JStr (ep_kind e)) p = Inr ()" for p
    using f assms(3) unfolding validate_callback_ok
    by (auto simp: wf_endpoint_def split: option.splits)
  moreover have "validate_qos d p = Inr ()" for p
    using f assms(3) schema unfolding validate_qos_ok by (auto simp: wf_endpoint_def)
  moreover have "matches LOWER_IDENTIFIER (ep_id e)"
    using assms(3) by (simp add: wf_endpoint_def pattern_simps)
  ultimately show ?thesis
    using schema f assms(4) by (simp add: validate_endpoint_def Let_def raw run_simps)
qed

lemma validate_endpoint_ok:
  "validate_endpoint i ids raw = Inr ids' \<longleftrightarrow>
     (\<exists>e. endpoint_of raw = Some e \<and> conforms endpoint_schema raw \<and> wf_endpoint e \<and>
        ep_id e \<notin> set ids \<and> ids' = ep_id e # ids)"
  using validate_endpoint_sound [of i ids raw ids'] validate_endpoint_complete [of raw _ ids i]
  by blast

lemma validate_endpoint_loop_ok:
  "validate_endpoint_loop i ids raws = Inr u \<longleftrightarrow>
     (\<exists>es. map_opt endpoint_of raws = Some es \<and> list_all (conforms endpoint_schema) raws \<and>
        list_all wf_endpoint es \<and> distinct (map ep_id es) \<and> set ids \<inter> set (map ep_id es) = {})"
proof (induction raws arbitrary: i ids)
  case Nil
  then show ?case by simp
next
  case (Cons raw raws)
  have "validate_endpoint_loop i ids (raw # raws) = Inr u \<longleftrightarrow>
    (\<exists>e. endpoint_of raw = Some e \<and> conforms endpoint_schema raw \<and> wf_endpoint e \<and>
       ep_id e \<notin> set ids \<and> validate_endpoint_loop (Suc i) (ep_id e # ids) raws = Inr u)"
    by (simp add: bindE_eq_Inr validate_endpoint_ok) blast
  also have "\<dots> \<longleftrightarrow> (\<exists>e es. endpoint_of raw = Some e \<and> conforms endpoint_schema raw \<and>
       wf_endpoint e \<and> ep_id e \<notin> set ids \<and> map_opt endpoint_of raws = Some es \<and>
       list_all (conforms endpoint_schema) raws \<and> list_all wf_endpoint es \<and>
       distinct (map ep_id es) \<and> set (ep_id e # ids) \<inter> set (map ep_id es) = {})"
    unfolding Cons.IH by blast
  also have "\<dots> \<longleftrightarrow> (\<exists>es. map_opt endpoint_of (raw # raws) = Some es \<and>
       list_all (conforms endpoint_schema) (raw # raws) \<and> list_all wf_endpoint es \<and>
       distinct (map ep_id es) \<and> set ids \<inter> set (map ep_id es) = {})"
    by (auto simp: bind_eq_Some_conv)
  finally show ?case .
qed

section \<open>The other groups\<close>

lemma conforms_version: "conforms [KConst (JInt 2)] v \<longleftrightarrow> eq_int v 2"
  by (cases v) (auto simp: conforms_def schema_eq_def eq_int_def)

lemma conforms_domain:
  "conforms [KType TInteger, KMinimum 0, KMaximum 232] (JInt i) \<longleftrightarrow> 0 \<le> i \<and> i \<le> 232"
  by (simp add: conforms_def has_type_def)

lemma validate_header_ok:
  "validate_header v = Inr () \<longleftrightarrow>
     set (map fst v) = set ROOT_KEYS \<and>
     (\<exists>x. map_of v ''schema_version'' = Some x \<and> eq_int x 2) \<and>
     (\<exists>s. map_of v ''name'' = Some (JStr s) \<and> is_lower_identifier s) \<and>
     (\<exists>i. map_of v ''domain_id'' = Some (JInt i) \<and> 0 \<le> i \<and> i \<le> 232) \<and>
     map_of v ''message_profile'' = Some (JStr ''fixed_size'')"
  unfolding validate_header_def
  by (simp only: bindE_eq_Inr exact_keys_ok getitem_eq_Inr if_reject_eq_Inr require_string_Some
      not_bad_int pattern_simps not_not ex_simps simp_thms set_eq_subset) blast

lemma validate_node_ok:
  "validate_node v = Inr () \<longleftrightarrow>
     (\<exists>d nn ns. map_of v ''node'' = Some (JObj d) \<and> set (map fst d) = set NODE_KEYS \<and>
        map_of d ''name'' = Some (JStr nn) \<and> is_identifier nn \<and>
        map_of d ''namespace'' = Some (JStr ns) \<and>
        (ns = [] \<or> startswith ns ''/'' \<and> \<not> endswith ns ''/''))"
  unfolding validate_node_def
  by (simp only: bindE_eq_Inr exact_keys_ok getitem_eq_Inr if_reject_eq_Inr require_string_Some
      require_string_None require_object_ok pattern_simps ex_simps simp_thms set_eq_subset) blast

lemma conforms_node:
  "set (map fst d) = set NODE_KEYS \<Longrightarrow> map_of d ''name'' = Some (JStr nn) \<Longrightarrow>
     map_of d ''namespace'' = Some (JStr ns) \<Longrightarrow>
     conforms node_schema (JObj d) \<longleftrightarrow> is_identifier nn"
  by (simp add: node_schema_def schema_simps NODE_KEYS_def pattern_simps)

lemma list_all_is_str_iff: "list_all is_str vs \<longleftrightarrow> (\<exists>ss. vs = map JStr ss)"
  unfolding list_all_is_str by (metis strs_map_JStr)

lemma validate_rmw_ok:
  "validate_rmw v = Inr () \<longleftrightarrow>
     (\<exists>ss. map_of v ''rmw'' = Some (JArr (map JStr ss)) \<and> ss \<noteq> [] \<and> distinct ss \<and>
        set ss \<subseteq> set SUPPORTED_BACKENDS)"
  unfolding validate_rmw_def
  by (simp add: bindE_eq_Inr getitem_eq_Inr if_reject_eq_Inr case_arr_eq_Inr list_all_is_str_iff
      Let_def filter_empty_conv) force

lemma validate_graph_ok:
  "validate_graph v = Inr () \<longleftrightarrow>
     (\<exists>d bo bi ss. map_of v ''graph'' = Some (JObj d) \<and> set (map fst d) = set GRAPH_KEYS \<and>
        map_of d ''outbound'' = Some (JBool bo) \<and> map_of d ''inbound'' = Some (JBool bi) \<and>
        map_of d ''api'' = Some (JArr (map JStr ss)) \<and> distinct ss)"
proof -
  have is_bool: "is_bool x \<longleftrightarrow> (\<exists>b. x = JBool b)" for x
    by (cases x) (simp_all add: is_bool_def)
  show ?thesis
    unfolding validate_graph_def
    by (simp only: bindE_eq_Inr exact_keys_ok getitem_eq_Inr if_reject_eq_Inr require_object_ok
        case_arr_eq_Inr list_all_is_str_iff is_bool ex_simps simp_thms de_Morgan_disj not_not set_eq_subset)
       (fastforce)
qed

lemma conforms_graph:
  "set (map fst d) = set GRAPH_KEYS \<Longrightarrow> map_of d ''outbound'' = Some (JBool bo) \<Longrightarrow>
     map_of d ''inbound'' = Some (JBool bi) \<Longrightarrow> map_of d ''api'' = Some (JArr (map JStr ss)) \<Longrightarrow>
     conforms graph_schema (JObj d) \<longleftrightarrow> distinct ss"
  by (simp add: graph_schema_def schema_simps GRAPH_KEYS_def)
     (auto simp: conforms_def has_type_def list_all_iff distinct_map inj_on_def)

lemma conforms_rmw:
  "conforms [KType TArray, KMinItems 1, KUniqueItems,
       KItems [KEnum [JStr ''rmw_cyclonedds_c'', JStr ''rmw_zenoh_pico'']]] (JArr (map JStr ss)) \<longleftrightarrow>
     ss \<noteq> [] \<and> distinct ss \<and> set ss \<subseteq> set SUPPORTED_BACKENDS"
  by (simp add: conforms_def has_type_def list_all_iff schema_eq_def SUPPORTED_BACKENDS_def
      distinct_map inj_on_def Suc_le_eq subset_eq disj_commute eq_commute [of "''rmw_cyclonedds_c''"]
      eq_commute [of "''rmw_zenoh_pico''"])

section \<open>Resources\<close>

lemma conforms_int_obj:
  "map_of d k = Some (JInt i) \<Longrightarrow> (\<forall>x. map_of d k = Some x \<longrightarrow> conforms (int_schema n) x) \<longleftrightarrow> n \<le> i"
  by (simp add: conforms_int)

lemma validate_remote_ok:
  "validate_remote r = Inr () \<longleftrightarrow>
     (\<exists>d p n e. map_of r ''remote'' = Some (JObj d) \<and> set (map fst d) = set REMOTE_RESOURCE_KEYS \<and>
        map_of d ''participants'' = Some (JInt p) \<and> 0 \<le> p \<and>
        map_of d ''nodes'' = Some (JInt n) \<and> 0 \<le> n \<and>
        map_of d ''endpoints'' = Some (JInt e) \<and> 0 \<le> e)"
proof -
  have keys: "set (sorted_set REMOTE_RESOURCE_KEYS) = {''participants'', ''nodes'', ''endpoints''}"
    by (simp add: REMOTE_RESOURCE_KEYS_def)
  show ?thesis
    unfolding validate_remote_def
    by (simp only: bindE_eq_Inr exact_keys_ok getitem_eq_Inr require_object_ok forE_eq_Inr keys
        require_integer_ok ball_simps ex_simps simp_thms set_eq_subset) blast
qed

lemma validate_workers_ok:
  "validate_workers r = Inr () \<longleftrightarrow>
     (\<exists>d n. map_of r ''workers'' = Some (JObj d) \<and> set (map fst d) = set WORKER_RESOURCE_KEYS \<and>
        map_of d ''maximum'' = Some (JInt n) \<and> 1 \<le> n)"
  unfolding validate_workers_def
  by (simp only: bindE_eq_Inr exact_keys_ok getitem_eq_Inr require_object_ok require_integer_ok
      ex_simps simp_thms set_eq_subset) blast

lemma validate_application_ok:
  "validate_application r = Inr () \<longleftrightarrow>
     (\<exists>d n. map_of r ''application'' = Some (JObj d) \<and>
        set (map fst d) = set APPLICATION_RESOURCE_KEYS \<and>
        map_of d ''static_reserve_bytes'' = Some (JInt n) \<and> 0 \<le> n)"
  unfolding validate_application_def
  by (simp only: bindE_eq_Inr exact_keys_ok getitem_eq_Inr require_object_ok require_integer_ok
      ex_simps simp_thms set_eq_subset) blast

lemma validate_target_ok:
  "validate_target (t, v) = Inr () \<longleftrightarrow>
     (\<exists>b. budget_of v = Some b \<and> conforms target_schema v \<and> 1 \<le> bud_flash b \<and> 1 \<le> bud_ram b)"
  (is "?L \<longleftrightarrow> ?R")
proof
  assume ?L
  then obtain d f r where d: "v = JObj d" "set (map fst d) = set TARGET_BUDGET_KEYS"
    "map_of d ''flash_bytes'' = Some (JInt f)" "1 \<le> f"
    "map_of d ''ram_bytes'' = Some (JInt r)" "1 \<le> r"
    by (simp only: validate_target_def prod.case Let_def bindE_eq_Inr exact_keys_ok getitem_eq_Inr
        require_object_ok require_integer_ok require_string_None ex_simps simp_thms set_eq_subset)
       blast
  then have "conforms target_schema v"
    by (simp add: target_schema_def schema_simps TARGET_BUDGET_KEYS_def)
  with d show ?R
    by (intro exI [of _ "\<lparr>bud_flash = f, bud_ram = r\<rparr>"]) (simp add: view_simps)
next
  assume ?R
  then obtain d and b :: budget where d: "v = JObj d" "map_of d ''flash_bytes'' = Some (JInt (bud_flash b))"
    "map_of d ''ram_bytes'' = Some (JInt (bud_ram b))" "1 \<le> bud_flash b" "1 \<le> bud_ram b"
    "conforms target_schema (JObj d)"
    unfolding budget_of_Some by blast
  then have "set (map fst d) = set TARGET_BUDGET_KEYS"
    by (auto simp: target_schema_def schema_simps TARGET_BUDGET_KEYS_def)
  with d show ?L by (simp add: validate_target_def run_simps)
qed

lemma validate_targets_ok:
  "validate_targets r = Inr () \<longleftrightarrow>
     (\<exists>d ts. map_of r ''targets'' = Some (JObj d) \<and> d \<noteq> [] \<and> map_opt target_of d = Some ts \<and>
        list_all (\<lambda>(_, v). conforms target_schema v) d \<and>
        list_all (\<lambda>(_, b). 1 \<le> bud_flash b \<and> 1 \<le> bud_ram b) ts)"
proof -
  have loop: "(\<forall>x \<in> set d. validate_target x = Inr ()) \<longleftrightarrow>
      (\<exists>ts. map_opt target_of d = Some ts \<and> list_all (\<lambda>(_, v). conforms target_schema v) d \<and>
         list_all (\<lambda>(_, b). 1 \<le> bud_flash b \<and> 1 \<le> bud_ram b) ts)" for d
  proof (induction d)
    case (Cons x d)
    obtain t v where x: "x = (t, v)" by (cases x)
    show ?case
      using Cons.IH by (auto simp: x validate_target_ok target_of_def bind_eq_Some_conv)
  qed simp
  show ?thesis
    unfolding validate_targets_def
    by (simp only: bindE_eq_Inr getitem_eq_Inr require_object_ok if_reject_eq_Inr forE_eq_Inr
        set_sort loop ex_simps simp_thms) blast
qed

lemma validate_resources_ok:
  "validate_resources v es = Inr () \<longleftrightarrow>
     (\<exists>r loc. map_of v ''resources'' = Some (JObj r) \<and> set (map fst r) = set RESOURCE_KEYS \<and>
        map_of r ''local_endpoints'' = Some (JInt loc) \<and> 0 \<le> loc \<and> int (length es) \<le> loc \<and>
        validate_remote r = Inr () \<and> validate_workers r = Inr () \<and>
        validate_application r = Inr () \<and> validate_targets r = Inr ())"
  unfolding validate_resources_def
  by (simp only: bindE_eq_Inr exact_keys_ok getitem_eq_Inr require_object_ok require_integer_ok
      if_reject_eq_Inr not_less ex_simps simp_thms set_eq_subset split_paired_Ex) auto

lemma validate_endpoints_ok:
  "validate_endpoints v = Inr raws \<longleftrightarrow>
     map_of v ''endpoints'' = Some (JArr raws) \<and>
     (\<exists>es. map_opt endpoint_of raws = Some es \<and> list_all (conforms endpoint_schema) raws \<and>
        list_all wf_endpoint es \<and> distinct (map ep_id es))"
  unfolding validate_endpoints_def
  by (auto simp: bindE_eq_Inr getitem_eq_Inr case_arr_eq_Inr validate_endpoint_loop_ok)

lemma validate_deployment_ok:
  "validate_deployment v = Inr w \<longleftrightarrow>
     w = v \<and> validate_header v = Inr () \<and> validate_node v = Inr () \<and> validate_rmw v = Inr () \<and>
     validate_graph v = Inr () \<and>
     (\<exists>raws. validate_endpoints v = Inr raws \<and> validate_resources v raws = Inr ())"
  unfolding validate_deployment_def by (auto simp: bindE_eq_Inr)

lemma deployment_of_Some:
  "deployment_of v = Some D \<longleftrightarrow>
     (\<exists>node graph raws r rem wk ap rawts.
        map_of v ''name'' = Some (JStr (dep_name D)) \<and>
        map_of v ''domain_id'' = Some (JInt (dep_domain D)) \<and>
        map_of v ''node'' = Some (JObj node) \<and>
        map_of node ''name'' = Some (JStr (dep_node D)) \<and>
        map_of node ''namespace'' = Some (JStr (dep_namespace D)) \<and>
        map_of v ''rmw'' = Some (JArr (map JStr (dep_rmw D))) \<and>
        map_of v ''message_profile'' = Some (JStr (dep_profile D)) \<and>
        map_of v ''graph'' = Some (JObj graph) \<and>
        map_of graph ''outbound'' = Some (JBool (dep_outbound D)) \<and>
        map_of graph ''inbound'' = Some (JBool (dep_inbound D)) \<and>
        map_of graph ''api'' = Some (JArr (map JStr (dep_api D))) \<and>
        map_of v ''endpoints'' = Some (JArr raws) \<and>
        map_opt endpoint_of raws = Some (dep_endpoints D) \<and>
        map_of v ''resources'' = Some (JObj r) \<and>
        map_of r ''local_endpoints'' = Some (JInt (dep_local D)) \<and>
        map_of r ''remote'' = Some (JObj rem) \<and>
        map_of rem ''participants'' = Some (JInt (dep_participants D)) \<and>
        map_of rem ''nodes'' = Some (JInt (dep_nodes D)) \<and>
        map_of rem ''endpoints'' = Some (JInt (dep_remote_endpoints D)) \<and>
        map_of r ''workers'' = Some (JObj wk) \<and>
        map_of wk ''maximum'' = Some (JInt (dep_workers D)) \<and>
        map_of r ''application'' = Some (JObj ap) \<and>
        map_of ap ''static_reserve_bytes'' = Some (JInt (dep_reserve D)) \<and>
        map_of r ''targets'' = Some (JObj rawts) \<and>
        map_opt target_of rawts = Some (dep_targets D))"
  (is "?L \<longleftrightarrow> ?R")
proof
  assume ?L
  then show ?R
    by (clarsimp simp: deployment_of_def bind_eq_Some_conv field_Some as_Some as_strs_Some)
next
  assume ?R
  then show ?L
    by (elim exE conjE)
       (simp add: deployment_of_def field_def as_str_def as_int_def as_bool_def as_arr_def as_obj_def
         as_strs_map)
qed

section \<open>Acceptance\<close>

lemma conforms_targets:
  "conforms [KType TObject, KMinProperties 1, KProps [] (Some target_schema)] (JObj d) \<longleftrightarrow>
     d \<noteq> [] \<and> list_all (\<lambda>(_, v). conforms target_schema v) d"
  by (simp add: conforms_def has_type_def Suc_le_eq)

lemma conforms_resources:
  "conforms resources_schema (JObj r) \<longleftrightarrow>
     (\<forall>x. map_of r ''local_endpoints'' = Some x \<longrightarrow> conforms (int_schema 0) x) \<and>
     (\<forall>x. map_of r ''remote'' = Some x \<longrightarrow> conforms (obj_schema
        [(''participants'', int_schema 0), (''nodes'', int_schema 0), (''endpoints'', int_schema 0)]
        [''participants'', ''nodes'', ''endpoints'']) x) \<and>
     (\<forall>x. map_of r ''workers'' = Some x \<longrightarrow>
        conforms (obj_schema [(''maximum'', int_schema 1)] [''maximum'']) x) \<and>
     (\<forall>x. map_of r ''application'' = Some x \<longrightarrow>
        conforms (obj_schema [(''static_reserve_bytes'', int_schema 0)] [''static_reserve_bytes'']) x) \<and>
     (\<forall>x. map_of r ''targets'' = Some x \<longrightarrow>
        conforms [KType TObject, KMinProperties 1, KProps [] (Some target_schema)] x) \<and>
     set (map fst r) = set RESOURCE_KEYS"
  unfolding resources_schema_def
  by (simp only: conforms_obj list.pred_inject prod.case json.inject ex_simps simp_thms fst_conv list.map
      conj_assoc RESOURCE_KEYS_def set_eq_subset)

lemma conforms_int_fields:
  "map_of d ''maximum'' = Some (JInt n) \<Longrightarrow>
     conforms (obj_schema [(''maximum'', int_schema 1)] [''maximum'']) (JObj d) \<longleftrightarrow>
       set (map fst d) = set WORKER_RESOURCE_KEYS \<and> 1 \<le> n"
  "map_of d ''static_reserve_bytes'' = Some (JInt n) \<Longrightarrow>
     conforms (obj_schema [(''static_reserve_bytes'', int_schema 0)] [''static_reserve_bytes'']) (JObj d)
       \<longleftrightarrow> set (map fst d) = set APPLICATION_RESOURCE_KEYS \<and> 0 \<le> n"
  "map_of d ''participants'' = Some (JInt i) \<Longrightarrow> map_of d ''nodes'' = Some (JInt j) \<Longrightarrow>
   map_of d ''endpoints'' = Some (JInt k) \<Longrightarrow>
     conforms (obj_schema
        [(''participants'', int_schema 0), (''nodes'', int_schema 0), (''endpoints'', int_schema 0)]
        [''participants'', ''nodes'', ''endpoints'']) (JObj d)
       \<longleftrightarrow> set (map fst d) = set REMOTE_RESOURCE_KEYS \<and> 0 \<le> i \<and> 0 \<le> j \<and> 0 \<le> k"
  by (simp_all add: conforms_obj conforms_int WORKER_RESOURCE_KEYS_def APPLICATION_RESOURCE_KEYS_def
      REMOTE_RESOURCE_KEYS_def set_eq_subset conj_ac)

lemma conforms_deployment:
  "conforms deployment_schema (JObj v) \<longleftrightarrow>
     (\<forall>x. map_of v ''schema_version'' = Some x \<longrightarrow> eq_int x 2) \<and>
     (\<forall>x. map_of v ''name'' = Some x \<longrightarrow> (\<exists>s. x = JStr s \<and> is_lower_identifier s)) \<and>
     (\<forall>x. map_of v ''domain_id'' = Some x \<longrightarrow>
        conforms [KType TInteger, KMinimum 0, KMaximum 232] x) \<and>
     (\<forall>x. map_of v ''node'' = Some x \<longrightarrow> conforms node_schema x) \<and>
     (\<forall>x. map_of v ''rmw'' = Some x \<longrightarrow> conforms [KType TArray, KMinItems 1, KUniqueItems,
        KItems [KEnum [JStr ''rmw_cyclonedds_c'', JStr ''rmw_zenoh_pico'']]] x) \<and>
     (\<forall>x. map_of v ''message_profile'' = Some x \<longrightarrow> x = JStr ''fixed_size'') \<and>
     (\<forall>x. map_of v ''graph'' = Some x \<longrightarrow> conforms graph_schema x) \<and>
     (\<forall>x. map_of v ''endpoints'' = Some x \<longrightarrow>
        (\<exists>vs. x = JArr vs \<and> list_all (conforms endpoint_schema) vs)) \<and>
     (\<forall>x. map_of v ''resources'' = Some x \<longrightarrow> conforms resources_schema x) \<and>
     set (map fst v) = set ROOT_KEYS"
  unfolding deployment_schema_def conforms_obj
  by (simp only: list.pred_inject prod.case json.inject ex_simps simp_thms fst_conv list.map
      conj_assoc ROOT_KEYS_def set_eq_subset conforms_version conforms_str pattern_simps
      conforms_items)

text \<open>The document conforms to the schema as soon as its parts do.\<close>

lemma conforms_resourcesI:
  assumes "set (map fst r) = set RESOURCE_KEYS"
    and "map_of r ''local_endpoints'' = Some (JInt loc)" "0 \<le> loc"
    and "validate_remote r = Inr ()" "validate_workers r = Inr ()" "validate_application r = Inr ()"
      "validate_targets r = Inr ()"
  shows "conforms resources_schema (JObj r)"
proof -
  from assms(4) obtain rem i j k where rem: "map_of r ''remote'' = Some (JObj rem)"
    "set (map fst rem) = set REMOTE_RESOURCE_KEYS" "map_of rem ''participants'' = Some (JInt i)"
    "0 \<le> i" "map_of rem ''nodes'' = Some (JInt j)" "0 \<le> j"
    "map_of rem ''endpoints'' = Some (JInt k)" "0 \<le> k"
    unfolding validate_remote_ok by blast
  from assms(5) obtain wk n where wk: "map_of r ''workers'' = Some (JObj wk)"
    "set (map fst wk) = set WORKER_RESOURCE_KEYS" "map_of wk ''maximum'' = Some (JInt n)" "1 \<le> n"
    unfolding validate_workers_ok by blast
  from assms(6) obtain ap m where ap: "map_of r ''application'' = Some (JObj ap)"
    "set (map fst ap) = set APPLICATION_RESOURCE_KEYS"
    "map_of ap ''static_reserve_bytes'' = Some (JInt m)" "0 \<le> m"
    unfolding validate_application_ok by blast
  from assms(7) obtain ts where ts: "map_of r ''targets'' = Some (JObj ts)" "ts \<noteq> []"
    "list_all (\<lambda>(_, v). conforms target_schema v) ts"
    unfolding validate_targets_ok by blast
  show ?thesis
    unfolding conforms_resources
    using assms(1-3) rem wk ap ts
    by (simp add: conforms_int conforms_int_fields conforms_targets del: One_nat_def)
qed

lemma validate_deployment_conforms:
  assumes "validate_deployment v = Inr w"
  shows "conforms deployment_schema (JObj v)"
proof -
  from assms obtain raws where parts: "validate_header v = Inr ()" "validate_node v = Inr ()"
    "validate_rmw v = Inr ()" "validate_graph v = Inr ()" "validate_endpoints v = Inr raws"
    "validate_resources v raws = Inr ()"
    unfolding validate_deployment_ok by blast
  from parts(2) obtain node nn ns where node: "map_of v ''node'' = Some (JObj node)"
    "set (map fst node) = set NODE_KEYS" "map_of node ''name'' = Some (JStr nn)" "is_identifier nn"
    "map_of node ''namespace'' = Some (JStr ns)"
    unfolding validate_node_ok by blast
  from parts(4) obtain g bo bi ss where g: "map_of v ''graph'' = Some (JObj g)"
    "set (map fst g) = set GRAPH_KEYS" "map_of g ''outbound'' = Some (JBool bo)"
    "map_of g ''inbound'' = Some (JBool bi)" "map_of g ''api'' = Some (JArr (map JStr ss))"
    "distinct ss"
    unfolding validate_graph_ok by blast
  from parts(6) obtain r where r: "map_of v ''resources'' = Some (JObj r)"
    "conforms resources_schema (JObj r)"
    unfolding validate_resources_ok using conforms_resourcesI by blast
  show ?thesis
    unfolding conforms_deployment
    using parts(1) [unfolded validate_header_ok] parts(3) [unfolded validate_rmw_ok]
      parts(5) [unfolded validate_endpoints_ok] node g r conforms_node [OF node(2,3,5)]
      conforms_graph [OF g(2-5)]
    by (auto simp: conforms_domain conforms_rmw simp del: set_map One_nat_def)
qed

lemma validate_deployment_view:
  assumes "validate_deployment v = Inr w"
  shows "\<exists>D. deployment_of v = Some D \<and> wf_deployment D"
proof -
  from assms obtain raws where parts: "validate_header v = Inr ()" "validate_node v = Inr ()"
    "validate_rmw v = Inr ()" "validate_graph v = Inr ()" "validate_endpoints v = Inr raws"
    "validate_resources v raws = Inr ()"
    unfolding validate_deployment_ok by blast
  from parts(1) obtain s i where h: "map_of v ''name'' = Some (JStr s)" "is_lower_identifier s"
    "map_of v ''domain_id'' = Some (JInt i)" "0 \<le> i" "i \<le> 232"
    "map_of v ''message_profile'' = Some (JStr ''fixed_size'')"
    unfolding validate_header_ok by blast
  from parts(2) obtain node nn ns where node: "map_of v ''node'' = Some (JObj node)"
    "map_of node ''name'' = Some (JStr nn)" "is_identifier nn"
    "map_of node ''namespace'' = Some (JStr ns)"
    "ns = [] \<or> startswith ns ''/'' \<and> \<not> endswith ns ''/''"
    unfolding validate_node_ok by blast
  from parts(3) obtain rmw where rmw: "map_of v ''rmw'' = Some (JArr (map JStr rmw))" "rmw \<noteq> []"
    "distinct rmw" "set rmw \<subseteq> set SUPPORTED_BACKENDS"
    unfolding validate_rmw_ok by blast
  from parts(4) obtain g bo bi ss where g: "map_of v ''graph'' = Some (JObj g)"
    "map_of g ''outbound'' = Some (JBool bo)" "map_of g ''inbound'' = Some (JBool bi)"
    "map_of g ''api'' = Some (JArr (map JStr ss))" "distinct ss"
    unfolding validate_graph_ok by blast
  from parts(5) obtain es where es: "map_of v ''endpoints'' = Some (JArr raws)"
    "map_opt endpoint_of raws = Some es" "list_all wf_endpoint es" "distinct (map ep_id es)"
    unfolding validate_endpoints_ok by blast
  from es(2) have len: "length es = length raws"
    unfolding map_opt_Some by (simp add: list_all2_lengthD)
  from parts(6) obtain r loc where r: "map_of v ''resources'' = Some (JObj r)"
    "map_of r ''local_endpoints'' = Some (JInt loc)" "int (length raws) \<le> loc"
    and rp: "validate_remote r = Inr ()" "validate_workers r = Inr ()"
      "validate_application r = Inr ()" "validate_targets r = Inr ()"
    unfolding validate_resources_ok by blast
  from rp(1) obtain rem p n e where rem: "map_of r ''remote'' = Some (JObj rem)"
    "map_of rem ''participants'' = Some (JInt p)" "0 \<le> p" "map_of rem ''nodes'' = Some (JInt n)"
    "0 \<le> n" "map_of rem ''endpoints'' = Some (JInt e)" "0 \<le> e"
    unfolding validate_remote_ok by blast
  from rp(2) obtain wk m where wk: "map_of r ''workers'' = Some (JObj wk)"
    "map_of wk ''maximum'' = Some (JInt m)" "1 \<le> m"
    unfolding validate_workers_ok by blast
  from rp(3) obtain ap a where ap: "map_of r ''application'' = Some (JObj ap)"
    "map_of ap ''static_reserve_bytes'' = Some (JInt a)" "0 \<le> a"
    unfolding validate_application_ok by blast
  from rp(4) obtain rawts ts where ts: "map_of r ''targets'' = Some (JObj rawts)" "rawts \<noteq> []"
    "map_opt target_of rawts = Some ts"
    "list_all (\<lambda>(_, b). 1 \<le> bud_flash b \<and> 1 \<le> bud_ram b) ts"
    unfolding validate_targets_ok by blast
  have "ts \<noteq> []" using ts(2,3) by (auto simp: map_opt_Some)
  let ?D = "\<lparr>dep_name = s, dep_domain = i, dep_node = nn, dep_namespace = ns, dep_rmw = rmw,
       dep_profile = ''fixed_size'', dep_outbound = bo, dep_inbound = bi, dep_api = ss,
       dep_endpoints = es, dep_local = loc, dep_participants = p, dep_nodes = n,
       dep_remote_endpoints = e, dep_workers = m, dep_reserve = a, dep_targets = ts\<rparr>"
  have "deployment_of v = Some ?D"
    unfolding deployment_of_Some using h node rmw g es r rem wk ap ts by simp
  moreover have "wf_deployment ?D"
    unfolding wf_deployment_def using h node rmw g es r rem wk ap ts len \<open>ts \<noteq> []\<close> by simp
  ultimately show ?thesis by blast
qed

lemma root_keys_present:
  assumes "set (map fst v) = set ROOT_KEYS"
  obtains x where "map_of v ''schema_version'' = Some x"
proof -
  have "''schema_version'' \<in> set (map fst v)"
    unfolding assms by (simp add: ROOT_KEYS_def)
  with that show thesis unfolding in_keys_iff by blast
qed

lemma conforms_node_keys: "conforms node_schema (JObj d) \<Longrightarrow> set (map fst d) = set NODE_KEYS"
  unfolding node_schema_def conforms_obj by (simp add: NODE_KEYS_def set_eq_subset)

lemma conforms_graph_keys: "conforms graph_schema (JObj d) \<Longrightarrow> set (map fst d) = set GRAPH_KEYS"
  unfolding graph_schema_def conforms_obj by (simp add: GRAPH_KEYS_def set_eq_subset)

lemma validate_resources_complete:
  assumes "conforms resources_schema (JObj r)" and "map_of v ''resources'' = Some (JObj r)"
    and "map_of r ''local_endpoints'' = Some (JInt loc)" "int (length raws) \<le> loc"
    and "map_of r ''remote'' = Some (JObj rem)" "map_of rem ''participants'' = Some (JInt p)"
      "map_of rem ''nodes'' = Some (JInt n)" "map_of rem ''endpoints'' = Some (JInt e)"
    and "map_of r ''workers'' = Some (JObj wk)" "map_of wk ''maximum'' = Some (JInt m)"
    and "map_of r ''application'' = Some (JObj ap)"
      "map_of ap ''static_reserve_bytes'' = Some (JInt a)"
    and "map_of r ''targets'' = Some (JObj rawts)" "map_opt target_of rawts = Some ts"
      "list_all (\<lambda>(_, b). 1 \<le> bud_flash b \<and> 1 \<le> bud_ram b) ts"
  shows "validate_resources v raws = Inr ()"
proof -
  note sch = assms(1) [unfolded conforms_resources]
  have keys: "set (map fst r) = set RESOURCE_KEYS" using sch by blast
  have "validate_remote r = Inr ()"
    unfolding validate_remote_ok using sch assms(5-8) by (simp add: conforms_int_fields)
  moreover have "validate_workers r = Inr ()"
    unfolding validate_workers_ok using sch assms(9,10) by (simp add: conforms_int_fields)
  moreover have "validate_application r = Inr ()"
    unfolding validate_application_ok using sch assms(11,12) by (simp add: conforms_int_fields)
  moreover have "validate_targets r = Inr ()"
    unfolding validate_targets_ok using sch assms(13-15)
    by (simp add: conforms_targets del: One_nat_def)
  moreover have "0 \<le> loc" using sch assms(3) by (simp add: conforms_int)
  ultimately show ?thesis
    unfolding validate_resources_ok using keys assms(2-4) by blast
qed

lemma validate_deployment_complete:
  assumes "conforms deployment_schema (JObj v)"
    and "deployment_of v = Some D" and "wf_deployment D"
  shows "validate_deployment v = Inr v"
proof -
  note sch = assms(1) [unfolded conforms_deployment]
  note wf = assms(3) [unfolded wf_deployment_def]
  have keys: "set (map fst v) = set ROOT_KEYS" using sch by blast
  obtain ver where ver: "map_of v ''schema_version'' = Some ver" by (rule root_keys_present [OF keys])
  from assms(2) [unfolded deployment_of_Some] obtain node graph raws r rem wk ap rawts where
    f: "map_of v ''name'' = Some (JStr (dep_name D))"
      "map_of v ''domain_id'' = Some (JInt (dep_domain D))"
      "map_of v ''message_profile'' = Some (JStr (dep_profile D))"
      "map_of v ''rmw'' = Some (JArr (map JStr (dep_rmw D)))" and
    n: "map_of v ''node'' = Some (JObj node)" "map_of node ''name'' = Some (JStr (dep_node D))"
      "map_of node ''namespace'' = Some (JStr (dep_namespace D))" and
    g: "map_of v ''graph'' = Some (JObj graph)" "map_of graph ''outbound'' = Some (JBool (dep_outbound D))"
      "map_of graph ''inbound'' = Some (JBool (dep_inbound D))"
      "map_of graph ''api'' = Some (JArr (map JStr (dep_api D)))" and
    e: "map_of v ''endpoints'' = Some (JArr raws)" "map_opt endpoint_of raws = Some (dep_endpoints D)" and
    r: "map_of v ''resources'' = Some (JObj r)" "map_of r ''local_endpoints'' = Some (JInt (dep_local D))"
      "map_of r ''remote'' = Some (JObj rem)" "map_of rem ''participants'' = Some (JInt (dep_participants D))"
      "map_of rem ''nodes'' = Some (JInt (dep_nodes D))"
      "map_of rem ''endpoints'' = Some (JInt (dep_remote_endpoints D))"
      "map_of r ''workers'' = Some (JObj wk)" "map_of wk ''maximum'' = Some (JInt (dep_workers D))"
      "map_of r ''application'' = Some (JObj ap)"
      "map_of ap ''static_reserve_bytes'' = Some (JInt (dep_reserve D))"
      "map_of r ''targets'' = Some (JObj rawts)" "map_opt target_of rawts = Some (dep_targets D)"
    by blast
  have nk: "set (map fst node) = set NODE_KEYS"
    by (rule conforms_node_keys) (use sch n(1) in blast)
  have gk: "set (map fst graph) = set GRAPH_KEYS"
    by (rule conforms_graph_keys) (use sch g(1) in blast)
  have "validate_header v = Inr ()"
    unfolding validate_header_ok using keys ver f wf sch by simp
  moreover have "validate_node v = Inr ()"
    using nk n wf unfolding validate_node_ok by blast
  moreover have "validate_rmw v = Inr ()"
    unfolding validate_rmw_ok using f wf by blast
  moreover have "validate_graph v = Inr ()"
    using gk g wf unfolding validate_graph_ok by blast
  moreover have "validate_endpoints v = Inr raws"
    unfolding validate_endpoints_ok using sch e wf by auto
  moreover have "length raws = length (dep_endpoints D)"
    using e(2) unfolding map_opt_Some by (simp add: list_all2_lengthD)
  then have "validate_resources v raws = Inr ()"
    using sch wf by (intro validate_resources_complete [OF _ r(1,2) _ r(3-12)]) (auto simp: r(1))
  ultimately show ?thesis unfolding validate_deployment_ok by blast
qed

end
