(* ===== verification/Deployment_Rejection.thy ===== *)
theory Deployment_Rejection
  imports Deployment_Schema
begin

text \<open>
  What a rejected deployment looks like from outside: the only exception that leaves
  \<open>validate_deployment\<close> is a \<open>DeploymentError\<close> with one of the codes below. In particular no
  subscript of the validator raises \<open>KeyError\<close>, whatever the document is.
\<close>

definition rejection_codes :: "string list" where
  "rejection_codes =
     [''E_SCHEMA'', ''E_SCHEMA_VERSION'', ''E_MESSAGE_PROFILE_UNSUPPORTED'', ''E_BACKEND_UNKNOWN'',
      ''E_DUPLICATE_ENDPOINT'', ''E_LIFETIME_UNSUPPORTED'', ''E_RESOURCE_ENDPOINT_CAPACITY'']"

definition is_rejection :: "pyexn \<Rightarrow> bool" where
  "is_rejection e \<longleftrightarrow> (case e of DeploymentError c _ \<Rightarrow> c \<in> set rejection_codes | _ \<Rightarrow> False)"

lemma rejects_reject [raises]:
  "c \<in> set rejection_codes \<Longrightarrow> raises_only is_rejection (reject c msg)"
  by (simp add: reject_def is_rejection_def)

lemma rejects_getitem [raises]:
  "k \<in> set (map fst d) \<Longrightarrow> raises_only P (getitem d k)"
  by (auto simp: getitem_def split: option.split dest: map_of_eq_None_iff [THEN iffD1])

lemma is_rejection_schema: "is_rejection (DeploymentError ''E_SCHEMA'' msg)"
  by (simp add: is_rejection_def rejection_codes_def)

lemma rejects_require_object [raises]: "raises_only is_rejection (require_object v path)"
  by (cases v) (simp_all add: require_object_def reject_def is_rejection_schema)

lemma rejects_exact_keys [raises]: "raises_only is_rejection (exact_keys v allowed required path)"
  by (simp add: exact_keys_def Let_def reject_def is_rejection_schema)

lemma rejects_require_string [raises]: "raises_only is_rejection (require_string v path pattern)"
  by (cases v) (simp_all add: require_string_def reject_def is_rejection_schema)

lemma rejects_require_integer [raises]: "raises_only is_rejection (require_integer v path n)"
  by (cases v) (simp_all add: require_integer_def reject_def is_rejection_schema)

lemma exact_keysD:
  "exact_keys v allowed required path = Inr u \<Longrightarrow> k \<in> set required \<Longrightarrow> k \<in> set (map fst v)"
  by (auto simp: exact_keys_def Let_def filter_empty_conv reject_def split: if_splits)

lemma rejects_case_arr [raises]:
  assumes "\<And>vs. v = JArr vs \<Longrightarrow> raises_only P (f vs)" and "raises_only P r"
  shows "raises_only P (case v of JArr vs \<Rightarrow> f vs | JNull \<Rightarrow> r | JBool _ \<Rightarrow> r | JInt _ \<Rightarrow> r
    | JFloat _ \<Rightarrow> r | JStr _ \<Rightarrow> r | JObj _ \<Rightarrow> r)"
  using assms by (cases v) simp_all

lemmas key_simps = ROOT_KEYS_def NODE_KEYS_def GRAPH_KEYS_def ENDPOINT_KEYS_def QOS_KEYS_def
  RESOURCE_KEYS_def REMOTE_RESOURCE_KEYS_def WORKER_RESOURCE_KEYS_def
  APPLICATION_RESOURCE_KEYS_def TARGET_BUDGET_KEYS_def

lemma rejects_header: "raises_only is_rejection (validate_header v)"
  unfolding validate_header_def
  by (intro raises; (erule exact_keysD)?; simp add: key_simps rejection_codes_def)

lemma header_keys: "validate_header v = Inr u \<Longrightarrow> k \<in> set ROOT_KEYS \<Longrightarrow> k \<in> set (map fst v)"
  unfolding validate_header_def bindE_eq_Inr by (blast dest: exact_keysD)

lemma rejects_node:
  "''node'' \<in> set (map fst v) \<Longrightarrow> raises_only is_rejection (validate_node v)"
  unfolding validate_node_def
  by (intro raises; (erule exact_keysD)?; simp add: key_simps rejection_codes_def)

lemma rejects_rmw: "''rmw'' \<in> set (map fst v) \<Longrightarrow> raises_only is_rejection (validate_rmw v)"
  unfolding validate_rmw_def Let_def
  by (intro raises; simp add: rejection_codes_def)

lemma rejects_graph: "''graph'' \<in> set (map fst v) \<Longrightarrow> raises_only is_rejection (validate_graph v)"
  unfolding validate_graph_def
  by (intro raises; (erule exact_keysD)?; simp add: key_simps rejection_codes_def)

lemma rejects_qos: "''qos'' \<in> set (map fst d) \<Longrightarrow> raises_only is_rejection (validate_qos d path)"
  unfolding validate_qos_def
  by (intro raises; (erule exact_keysD)?; simp add: key_simps rejection_codes_def)

lemma rejects_endpoint_fields:
  "set [''kind'', ''topic'', ''type'', ''lifetime''] \<subseteq> set (map fst d) \<Longrightarrow>
     raises_only is_rejection (validate_endpoint_fields d path)"
  unfolding validate_endpoint_fields_def
  by (intro raises; simp add: rejection_codes_def)

lemma rejects_callback: "raises_only is_rejection (validate_callback d kind path)"
  unfolding validate_callback_def
  by (intro raises; simp add: rejection_codes_def)

lemma rejects_endpoint: "raises_only is_rejection (validate_endpoint i ids raw)"
  unfolding validate_endpoint_def Let_def
  by (intro raises rejects_endpoint_fields rejects_callback rejects_qos subsetI;
      (erule exact_keysD)?; auto simp: key_simps rejection_codes_def)

lemma rejects_endpoint_loop: "raises_only is_rejection (validate_endpoint_loop i ids raws)"
  by (induction raws arbitrary: i ids) (auto intro!: raises_only_bindE rejects_endpoint)

lemma rejects_endpoints:
  "''endpoints'' \<in> set (map fst v) \<Longrightarrow> raises_only is_rejection (validate_endpoints v)"
  unfolding validate_endpoints_def
  by (intro raises rejects_endpoint_loop; simp add: rejection_codes_def)

lemma rejects_target: "raises_only is_rejection (validate_target x)"
  unfolding validate_target_def Let_def
  by (cases x, simp only: prod.case, intro raises; (erule exact_keysD)?;
      simp add: key_simps rejection_codes_def)

lemma rejects_remote:
  "''remote'' \<in> set (map fst r) \<Longrightarrow> raises_only is_rejection (validate_remote r)"
  unfolding validate_remote_def
  by (intro raises; (erule exact_keysD)?; simp add: key_simps rejection_codes_def)

lemma rejects_workers:
  "''workers'' \<in> set (map fst r) \<Longrightarrow> raises_only is_rejection (validate_workers r)"
  unfolding validate_workers_def
  by (intro raises; (erule exact_keysD)?; simp add: key_simps rejection_codes_def)

lemma rejects_application:
  "''application'' \<in> set (map fst r) \<Longrightarrow> raises_only is_rejection (validate_application r)"
  unfolding validate_application_def
  by (intro raises; (erule exact_keysD)?; simp add: key_simps rejection_codes_def)

lemma rejects_targets:
  "''targets'' \<in> set (map fst r) \<Longrightarrow> raises_only is_rejection (validate_targets r)"
  unfolding validate_targets_def
  by (intro raises rejects_target; simp add: rejection_codes_def)

lemma rejects_resources:
  "''resources'' \<in> set (map fst v) \<Longrightarrow> raises_only is_rejection (validate_resources v es)"
  unfolding validate_resources_def
  by (intro raises rejects_remote rejects_workers rejects_application rejects_targets;
      (erule exact_keysD)?; simp add: key_simps rejection_codes_def)

lemma rejects_deployment: "raises_only is_rejection (validate_deployment v)"
  unfolding validate_deployment_def
  by (intro raises_only_bindE rejects_header rejects_node rejects_rmw rejects_graph
      rejects_endpoints rejects_resources raises_only_simps; erule header_keys; simp add: key_simps)

end
