(* ===== verification/Deployment_Accept.thy ===== *)
theory Deployment_Accept
  imports Deployment_Validity Deployment_Rejection
begin

text \<open>
  What the validator promises: it accepts a document exactly when the document conforms to the
  published schema and its typed reading is well formed, it rejects every other document with a
  \<open>DeploymentError\<close>, and every well-formed deployment has a document that it accepts.
\<close>

section \<open>The document of a deployment\<close>

definition qos_json :: "qos \<Rightarrow> json" where
  "qos_json q = JObj [(''reliability'', JStr (qos_reliability q)),
     (''durability'', JStr (qos_durability q)), (''history'', JStr (qos_history q)),
     (''depth'', JInt (qos_depth q))]"

definition endpoint_json :: "endpoint \<Rightarrow> json" where
  "endpoint_json e = JObj
     ([(''id'', JStr (ep_id e)), (''kind'', JStr (ep_kind e)), (''topic'', JStr (ep_topic e)),
       (''type'', JStr (ep_type e))]
      @ (case ep_callback e of None \<Rightarrow> [] | Some c \<Rightarrow> [(''callback'', JStr c)])
      @ [(''qos'', qos_json (ep_qos e)), (''lifetime'', JStr ''fixed_startup'')])"

definition target_json :: "string \<times> budget \<Rightarrow> string \<times> json" where
  "target_json tb = (fst tb, JObj [(''flash_bytes'', JInt (bud_flash (snd tb))),
     (''ram_bytes'', JInt (bud_ram (snd tb)))])"

definition resources_json :: "deployment \<Rightarrow> dict" where
  "resources_json D =
     [(''local_endpoints'', JInt (dep_local D)),
      (''remote'', JObj [(''participants'', JInt (dep_participants D)), (''nodes'', JInt (dep_nodes D)),
         (''endpoints'', JInt (dep_remote_endpoints D))]),
      (''workers'', JObj [(''maximum'', JInt (dep_workers D))]),
      (''application'', JObj [(''static_reserve_bytes'', JInt (dep_reserve D))]),
      (''targets'', JObj (map target_json (dep_targets D)))]"

definition deployment_json :: "deployment \<Rightarrow> dict" where
  "deployment_json D =
     [(''schema_version'', JInt 2), (''name'', JStr (dep_name D)), (''domain_id'', JInt (dep_domain D)),
      (''node'', JObj [(''name'', JStr (dep_node D)), (''namespace'', JStr (dep_namespace D))]),
      (''rmw'', JArr (map JStr (dep_rmw D))), (''message_profile'', JStr (dep_profile D)),
      (''graph'', JObj [(''outbound'', JBool (dep_outbound D)), (''inbound'', JBool (dep_inbound D)),
         (''api'', JArr (map JStr (dep_api D)))]),
      (''endpoints'', JArr (map endpoint_json (dep_endpoints D))),
      (''resources'', JObj (resources_json D))]"

lemma endpoint_of_json: "endpoint_of (endpoint_json e) = Some e"
  by (simp add: endpoint_of_Some endpoint_json_def qos_of_Some qos_json_def split: option.splits)

lemma map_opt_endpoints: "map_opt endpoint_of (map endpoint_json es) = Some es"
  by (simp add: map_opt_Some list_all2_conv_all_nth endpoint_of_json)

lemma map_opt_targets: "map_opt target_of (map target_json ts) = Some ts"
  by (simp add: map_opt_Some list_all2_conv_all_nth target_of_Some target_json_def budget_of_Some)

lemma deployment_of_json: "deployment_of (deployment_json D) = Some D"
  unfolding deployment_of_Some
  by (simp add: deployment_json_def resources_json_def map_opt_endpoints map_opt_targets)

lemma conforms_endpoint_json:
  assumes "wf_endpoint e"
  shows "conforms endpoint_schema (endpoint_json e)"
proof -
  have "matches MESSAGE_TYPE (ep_type e)"
    using assms unfolding matches_MESSAGE_TYPE wf_endpoint_def by blast
  moreover have "conforms qos_schema (qos_json (ep_qos e))"
    using assms by (simp add: wf_endpoint_def wf_qos_def qos_json_def qos_schema_def schema_simps)
  ultimately show ?thesis
    using assms unfolding endpoint_json_def endpoint_schema_iff
    by (simp add: wf_endpoint_def ENDPOINT_KEYS_def split: option.splits)
qed

lemma conforms_target_json:
  "conforms target_schema (snd (target_json tb)) \<longleftrightarrow> 1 \<le> bud_flash (snd tb) \<and> 1 \<le> bud_ram (snd tb)"
  by (simp add: target_json_def target_schema_def schema_simps)

lemma validate_resources_json:
  assumes "wf_deployment D" and "map_of v ''resources'' = Some (JObj (resources_json D))"
    and "length raws = length (dep_endpoints D)"
  shows "validate_resources v raws = Inr ()"
proof -
  let ?r = "resources_json D"
  note wf = assms(1) [unfolded wf_deployment_def]
  have "validate_remote ?r = Inr ()" "validate_workers ?r = Inr ()" "validate_application ?r = Inr ()"
    unfolding validate_remote_ok validate_workers_ok validate_application_ok
    using wf by (simp_all add: resources_json_def key_simps)
  moreover have "validate_targets ?r = Inr ()"
    unfolding validate_targets_ok using wf
    by (simp add: resources_json_def map_opt_targets list_all_iff case_prod_beta conforms_target_json)
  moreover have "set (map fst ?r) = set RESOURCE_KEYS" "map_of ?r ''local_endpoints'' = Some (JInt (dep_local D))"
    by (simp_all add: resources_json_def key_simps)
  moreover have "0 \<le> dep_local D" "int (length raws) \<le> dep_local D" using wf assms(3) by auto
  ultimately show ?thesis unfolding validate_resources_ok using assms(2) by blast
qed

lemma validate_deployment_json:
  assumes "wf_deployment D"
  shows "validate_deployment (deployment_json D) = Inr (deployment_json D)"
proof -
  let ?v = "deployment_json D"
  note wf = assms [unfolded wf_deployment_def]
  have "validate_header ?v = Inr ()" unfolding validate_header_ok
    using wf by (simp add: deployment_json_def key_simps eq_int_def)
  moreover have "validate_node ?v = Inr ()" unfolding validate_node_ok
    using wf by (simp add: deployment_json_def key_simps)
  moreover have "validate_rmw ?v = Inr ()" unfolding validate_rmw_ok
    using wf by (intro exI [of _ "dep_rmw D"]) (simp add: deployment_json_def)
  moreover have "validate_graph ?v = Inr ()" unfolding validate_graph_ok
    using wf by (simp add: deployment_json_def key_simps) blast
  moreover have "validate_endpoints ?v = Inr (map endpoint_json (dep_endpoints D))"
    unfolding validate_endpoints_ok using wf
    by (simp add: deployment_json_def map_opt_endpoints list_all_iff conforms_endpoint_json)
  moreover have "validate_resources ?v (map endpoint_json (dep_endpoints D)) = Inr ()"
    by (rule validate_resources_json [OF assms]) (simp_all add: deployment_json_def)
  ultimately show ?thesis unfolding validate_deployment_ok by blast
qed

section \<open>An example\<close>

definition example_publisher :: endpoint where
  "example_publisher = \<lparr>ep_id = ''status'', ep_kind = ''publisher'', ep_topic = ''/status'',
     ep_type = ''std_msgs/msg/UInt32'', ep_callback = None,
     ep_qos = \<lparr>qos_reliability = ''reliable'', qos_durability = ''volatile'',
       qos_history = ''keep_last'', qos_depth = 1\<rparr>\<rparr>"

definition example_subscription :: endpoint where
  "example_subscription = \<lparr>ep_id = ''command'', ep_kind = ''subscription'', ep_topic = ''/command'',
     ep_type = ''std_msgs/msg/UInt32'', ep_callback = Some ''on_command'',
     ep_qos = \<lparr>qos_reliability = ''reliable'', qos_durability = ''volatile'',
       qos_history = ''keep_last'', qos_depth = 4\<rparr>\<rparr>"

definition example_deployment :: deployment where
  "example_deployment = \<lparr>dep_name = ''example'', dep_domain = 7, dep_node = ''node'',
     dep_namespace = ''/robot'', dep_rmw = [''rmw_cyclonedds_c''], dep_profile = ''fixed_size'',
     dep_outbound = True, dep_inbound = False, dep_api = [],
     dep_endpoints = [example_publisher, example_subscription], dep_local = 2,
     dep_participants = 1, dep_nodes = 1, dep_remote_endpoints = 2, dep_workers = 8,
     dep_reserve = 1024, dep_targets = [(''native_sim'', \<lparr>bud_flash = 500000, bud_ram = 400000\<rparr>)]\<rparr>"

lemma type_part_UInt32: "type_part ''std_msgs''" "type_part ''UInt32''"
  by (simp_all add: type_part_def ident_ok_def in_cls_def alpha_def alnum_us_def)

lemma example_wf: "wf_deployment example_deployment"
proof -
  have ty: "\<exists>p m. ''std_msgs/msg/UInt32'' = p @ ''/msg/'' @ m \<and> type_part p \<and> type_part m"
    by (rule exI [of _ "''std_msgs''"], rule exI [of _ "''UInt32''"]) (simp add: type_part_UInt32)
  have "wf_endpoint example_publisher" "wf_endpoint example_subscription"
    unfolding wf_endpoint_def example_publisher_def example_subscription_def endpoint.select_convs
    using ty
    by (simp_all add: is_identifier_def is_lower_identifier_def ident_ok_def in_cls_def alpha_us_def
        lower_alpha_def lower_alnum_us_def alnum_us_def wf_qos_def endswith_def startswith_def)
  then show ?thesis
    by (simp add: wf_deployment_def example_deployment_def is_identifier_def is_lower_identifier_def
        ident_ok_def in_cls_def alpha_us_def lower_alpha_def lower_alnum_us_def alnum_us_def
        startswith_def endswith_def SUPPORTED_BACKENDS_def)
       (simp add: example_publisher_def example_subscription_def)
qed

section \<open>Properties\<close>

text \<open>
  Property C1. \<open>validate_deployment\<close> accepts a document, and returns it unchanged, exactly when the
  document conforms to the published JSON Schema and its typed reading exists and is well formed:
  the rules the schema cannot express (unique endpoint ids, topic and namespace shape, callbacks
  only on subscriptions, enough local endpoints) and nothing else.
\<close>

theorem validate_deployment_accepts:
  "validate_deployment v = Inr w \<longleftrightarrow>
     w = v \<and> conforms deployment_schema (JObj v) \<and>
     (\<exists>D. deployment_of v = Some D \<and> wf_deployment D)"
proof
  assume "validate_deployment v = Inr w"
  then show "w = v \<and> conforms deployment_schema (JObj v) \<and>
     (\<exists>D. deployment_of v = Some D \<and> wf_deployment D)"
    using validate_deployment_conforms validate_deployment_view validate_deployment_ok by blast
qed (use validate_deployment_complete in blast)

text \<open>
  Property C14. The only exception that leaves \<open>validate_deployment\<close>, on any document, is a
  \<open>DeploymentError\<close> with one of the seven codes of \<open>rejection_codes\<close>.
\<close>

theorem validate_deployment_rejects:
  assumes "validate_deployment v = Inl e"
  shows "\<exists>code msg. e = DeploymentError code msg \<and> code \<in> set rejection_codes"
  using raises_onlyD [OF rejects_deployment assms] by (cases e) (auto simp: is_rejection_def)

theorem validate_deployment_rejects_witness:
  "\<exists>code msg. validate_deployment [] = Inl (DeploymentError code msg) \<and> code \<in> set rejection_codes"
proof -
  have "validate_deployment [] \<noteq> Inr w" for w
    by (simp add: validate_deployment_ok validate_header_ok ROOT_KEYS_def)
  then obtain e where "validate_deployment [] = Inl e"
    by (cases "validate_deployment []") auto
  from validate_deployment_rejects [OF this] this show ?thesis by blast
qed

text \<open>
  Every well-formed deployment is expressible: its document is accepted and reads back
  as the same deployment.
\<close>

lemma wf_deployment_expressible:
  assumes "wf_deployment D"
  shows "validate_deployment (deployment_json D) = Inr (deployment_json D) \<and>
    deployment_of (deployment_json D) = Some D"
  using validate_deployment_json [OF assms] deployment_of_json by blast

end
