(* ===== verification/Deployment_Caps.thy ===== *)
theory Deployment_Caps
  imports Deployment_Accept
begin

text \<open>
  \<open>validate_capabilities\<close> of \<open>src/tools/compile_deployment.py\<close>: an accepted deployment against the
  capability document of a backend (\<open>src/capabilities/*.json\<close>). The capability document is not
  validated before, so it is an arbitrary JSON object here, and every operation on it has the
  exceptions Python has. A specification \<open>supports\<close> says what the check means, and the check is
  shown to accept exactly the deployments it describes.
\<close>

section \<open>The check\<close>

definition depth_range :: "string \<Rightarrow> dict \<Rightarrow> (int \<times> int) res" where
  "depth_range backend qos_cap =
     bindE (require_object (dict_get qos_cap ''depth'') (''capability '' @ backend @ ''.qos.depth''))
       (\<lambda>depth_cap.
     case (dict_get depth_cap ''minimum'', dict_get depth_cap ''maximum'') of
       (JInt minimum, JInt maximum) \<Rightarrow>
         if minimum < 1 \<or> maximum < minimum
         then reject ''E_CAPABILITY_SCHEMA'' (''invalid QoS depth range for '' @ backend)
         else Inr (minimum, maximum)
     | _ \<Rightarrow> reject ''E_CAPABILITY_SCHEMA'' (''invalid QoS depth range for '' @ backend))"

definition qos_policies :: "qos \<Rightarrow> (string \<times> string) list" where
  "qos_policies q =
     [(''reliability'', qos_reliability q), (''durability'', qos_durability q),
      (''history'', qos_history q)]"

definition check_endpoint_qos :: "string \<Rightarrow> dict \<Rightarrow> int \<times> int \<Rightarrow> endpoint \<Rightarrow> unit res" where
  "check_endpoint_qos backend qos_cap limits e =
     bindE (forE (\<lambda>(policy, value).
         bindE (str_in value (dict_get_default qos_cap policy (JArr []))) (\<lambda>ok.
         if \<not> ok
         then reject ''E_QOS_UNSUPPORTED''
           (''endpoint '' @ ep_topic e @ '' requests '' @ policy @ ''='' @ value @ ''; backend ''
            @ backend @ '' does not support it'')
         else Inr ())) (qos_policies (ep_qos e))) (\<lambda>_.
     if \<not> (fst limits \<le> qos_depth (ep_qos e) \<and> qos_depth (ep_qos e) \<le> snd limits)
     then reject ''E_QOS_UNSUPPORTED''
       (''endpoint '' @ ep_topic e @ '' requests depth='' @ show_int (qos_depth (ep_qos e))
        @ ''; backend '' @ backend @ '' accepts '' @ show_int (fst limits) @ ''..''
        @ show_int (snd limits))
     else Inr ())"

definition check_graph :: "string \<Rightarrow> dict \<Rightarrow> deployment \<Rightarrow> unit res" where
  "check_graph backend graph_cap D =
     bindE (forE (\<lambda>(direction, required).
         if required \<and> \<not> truthy (dict_get graph_cap direction)
         then reject ''E_GRAPH_UNSUPPORTED''
           (''deployment requires '' @ direction @ '' graph behavior; backend '' @ backend
            @ '' lacks it'')
         else Inr ())
       [(''outbound'', dep_outbound D), (''inbound'', dep_inbound D)]) (\<lambda>_.
     bindE (str_set (dict_get_default graph_cap ''api'' (JArr []))) (\<lambda>provided.
     let missing_api = sorted_set (filter (\<lambda>a. a \<notin> set provided) (dep_api D))
     in if missing_api \<noteq> []
        then reject ''E_GRAPH_UNSUPPORTED''
          (''deployment requires graph API '' @ hd missing_api @ ''; backend '' @ backend
           @ '' lacks it'')
        else Inr ()))"

definition validate_capabilities :: "deployment \<Rightarrow> dict \<Rightarrow> string \<Rightarrow> unit res" where
  "validate_capabilities D capability backend =
     (if backend \<notin> set (dep_rmw D)
      then reject ''E_BACKEND_NOT_SELECTED''
        (''backend '' @ backend @ '' is not allowed by this deployment'')
      else if \<not> eq_int (dict_get capability ''schema_version'') 1
              \<or> dict_get capability ''backend'' \<noteq> JStr backend
      then reject ''E_CAPABILITY_SCHEMA'' (''invalid capability document for '' @ backend)
      else
     bindE (str_in (dep_profile D) (dict_get_default capability ''message_profiles'' (JArr []))) (\<lambda>ok.
     if \<not> ok
     then reject ''E_MESSAGE_PROFILE_UNSUPPORTED''
       (''backend '' @ backend @ '' does not support '' @ dep_profile D)
     else
     bindE (require_object (dict_get capability ''qos'') (''capability '' @ backend @ ''.qos''))
       (\<lambda>qos_cap.
     bindE (depth_range backend qos_cap) (\<lambda>limits.
     bindE (forE (check_endpoint_qos backend qos_cap limits) (dep_endpoints D)) (\<lambda>_.
     bindE (require_object (dict_get capability ''graph'') (''capability '' @ backend @ ''.graph''))
       (\<lambda>graph_cap.
     check_graph backend graph_cap D))))))"

section \<open>What the check means\<close>

text \<open>
  The capability document as a set of offers: \<open>offers v s\<close> says that the value \<open>v\<close> of a
  capability field lists \<open>s\<close>.
\<close>

definition offers :: "json \<Rightarrow> string \<Rightarrow> bool" where
  "offers v s \<longleftrightarrow> str_in s v = Inr True"

definition supports_qos :: "dict \<Rightarrow> int \<times> int \<Rightarrow> qos \<Rightarrow> bool" where
  "supports_qos qos_cap limits q \<longleftrightarrow>
     (\<forall>(policy, value) \<in> set (qos_policies q).
        offers (dict_get_default qos_cap policy (JArr [])) value) \<and>
     fst limits \<le> qos_depth q \<and> qos_depth q \<le> snd limits"

definition supports_graph :: "dict \<Rightarrow> deployment \<Rightarrow> bool" where
  "supports_graph graph_cap D \<longleftrightarrow>
     (dep_outbound D \<longrightarrow> truthy (dict_get graph_cap ''outbound'')) \<and>
     (dep_inbound D \<longrightarrow> truthy (dict_get graph_cap ''inbound'')) \<and>
     (\<exists>provided. str_set (dict_get_default graph_cap ''api'' (JArr [])) = Inr provided \<and>
        set (dep_api D) \<subseteq> set provided)"

definition supports :: "dict \<Rightarrow> string \<Rightarrow> deployment \<Rightarrow> bool" where
  "supports capability backend D \<longleftrightarrow>
     backend \<in> set (dep_rmw D) \<and>
     eq_int (dict_get capability ''schema_version'') 1 \<and>
     dict_get capability ''backend'' = JStr backend \<and>
     offers (dict_get_default capability ''message_profiles'' (JArr [])) (dep_profile D) \<and>
     (\<exists>qos_cap depth_cap lo hi graph_cap.
        dict_get capability ''qos'' = JObj qos_cap \<and>
        dict_get qos_cap ''depth'' = JObj depth_cap \<and>
        dict_get depth_cap ''minimum'' = JInt lo \<and> dict_get depth_cap ''maximum'' = JInt hi \<and>
        1 \<le> lo \<and> lo \<le> hi \<and>
        (\<forall>e \<in> set (dep_endpoints D). supports_qos qos_cap (lo, hi) (ep_qos e)) \<and>
        dict_get capability ''graph'' = JObj graph_cap \<and> supports_graph graph_cap D)"

lemma ex_Inr_True:
  "(\<exists>b. r = Inr b \<and> b \<and> Q) \<longleftrightarrow> r = Inr True \<and> Q"
  "(\<exists>b. r = Inr b \<and> b) \<longleftrightarrow> r = Inr True"
  by auto

lemma case_depth:
  "(case (a, b) of (JInt i, JInt j) \<Rightarrow> f i j | _ \<Rightarrow> Inl e) = Inr y \<longleftrightarrow>
     (\<exists>i j. a = JInt i \<and> b = JInt j \<and> f i j = Inr y)"
  by (cases a; cases b) simp_all

lemma depth_range_ok:
  "depth_range backend qos_cap = Inr (lo, hi) \<longleftrightarrow>
     (\<exists>depth_cap. dict_get qos_cap ''depth'' = JObj depth_cap \<and>
        dict_get depth_cap ''minimum'' = JInt lo \<and> dict_get depth_cap ''maximum'' = JInt hi \<and>
        1 \<le> lo \<and> lo \<le> hi)"
  unfolding depth_range_def bindE_eq_Inr require_object_ok reject_def case_depth if_raise_eq_Inr
  by auto

lemma check_endpoint_qos_ok:
  "check_endpoint_qos backend qos_cap limits e = Inr () \<longleftrightarrow> supports_qos qos_cap limits (ep_qos e)"
  unfolding check_endpoint_qos_def supports_qos_def offers_def
  by (simp add: bindE_eq_Inr forE_eq_Inr if_reject_eq_Inr case_prod_beta Ball_def ex_Inr_True)

lemma check_graph_ok:
  "check_graph backend graph_cap D = Inr () \<longleftrightarrow> supports_graph graph_cap D"
  unfolding check_graph_def supports_graph_def
  by (simp add: bindE_eq_Inr forE_eq_Inr if_reject_eq_Inr Let_def filter_empty_conv subset_iff)
     blast

lemma validate_capabilities_ok:
  "validate_capabilities D capability backend = Inr () \<longleftrightarrow> supports capability backend D"
  unfolding validate_capabilities_def supports_def offers_def
  by (simp only: if_reject_eq_Inr bindE_eq_Inr forE_eq_Inr require_object_ok check_endpoint_qos_ok
      check_graph_ok depth_range_ok split_paired_Ex not_not de_Morgan_disj conj_assoc ex_simps simp_thms
      ex_Inr_True) blast

section \<open>Properties\<close>

text \<open>
  Property C5. The capability check accepts a deployment for a backend exactly when the backend is
  one the deployment allows, the document is that backend's, it lists the message profile, every
  QoS policy and depth the endpoints ask for, and it has the graph behaviour and the graph API the
  deployment requires.
\<close>

theorem validate_capabilities_accepts:
  "validate_capabilities D capability backend = Inr () \<longleftrightarrow> supports capability backend D"
  by (rule validate_capabilities_ok)

end
