(* ===== verification/Deployment_Generate.thy ===== *)
theory Deployment_Generate
  imports Deployment_Caps "HOL-Library.Product_Lexorder"
begin

text \<open>
  The generators of \<open>src/tools/compile_deployment.py\<close>: the C header, the C source, the Kconfig
  fragment, the CMake fragment and the report, line by line, on the typed reading of an accepted
  deployment.
\<close>

section \<open>Names\<close>

definition split_type :: "string \<Rightarrow> (string \<times> string) res" where
  "split_type type_name =
     (case fullmatch MESSAGE_TYPE type_name of
        None \<Rightarrow> Inl AssertionError
      | Some g \<Rightarrow> Inr (group_of g 1, group_of g 2))"

text \<open>An underscore goes before every capital except at the start, then the text is lowered.\<close>

definition snake_case :: "string \<Rightarrow> string" where
  "snake_case name =
     lower (case name of
        [] \<Rightarrow> []
      | c # cs \<Rightarrow> c # concat (map (\<lambda>d. if in_range d 65 90 then [CHR ''_'', d] else [d]) cs))"

definition is_subscription :: "endpoint \<Rightarrow> bool" where
  "is_subscription e \<longleftrightarrow> ep_kind e = ''subscription''"

definition subscriptions :: "deployment \<Rightarrow> endpoint list" where
  "subscriptions D = filter is_subscription (dep_endpoints D)"

definition get_callback :: "endpoint \<Rightarrow> string res" where
  "get_callback e = (case ep_callback e of Some c \<Rightarrow> Inr c | None \<Rightarrow> Inl (KeyError ''callback''))"

text \<open>\<open>{kind}_{id}\<close>, the member of the context structure that holds an endpoint.\<close>

definition member :: "endpoint \<Rightarrow> string" where
  "member e = ep_kind e @ ''_'' @ ep_id e"

definition generated_banner :: string where
  "generated_banner = ''/* Generated by compile_deployment.py; do not edit. */''"

definition qos_initializer :: "endpoint \<Rightarrow> string list" where
  "qos_initializer e =
     (let q = ep_qos e; variable = ''qos_'' @ ep_id e;
          reliability = ''RMW_QOS_POLICY_RELIABILITY_'' @ upper (qos_reliability q);
          durability = ''RMW_QOS_POLICY_DURABILITY_'' @ upper (qos_durability q);
          history = ''RMW_QOS_POLICY_HISTORY_'' @ upper (qos_history q)
      in [''  rmw_qos_profile_t '' @ variable @ '' = rmw_qos_profile_default;'',
          ''  '' @ variable @ ''.reliability = '' @ reliability @ '';'',
          ''  '' @ variable @ ''.durability = '' @ durability @ '';'',
          ''  '' @ variable @ ''.history = '' @ history @ '';'',
          ''  '' @ variable @ ''.depth = '' @ show_int (qos_depth q) @ ''U;''])"

section \<open>The header\<close>

definition header_members :: "endpoint \<Rightarrow> string list res" where
  "header_members e =
     (let handle = ''  rcl_'' @ ep_kind e @ ''_t '' @ member e @ '';''
      in if is_subscription e
         then bindE (split_type (ep_type e)) (\<lambda>(package, message).
           Inr [handle, ''  '' @ package @ ''__msg__'' @ message @ '' subscription_'' @ ep_id e
             @ ''_message;''])
         else Inr [handle])"

definition generate_header :: "deployment \<Rightarrow> string res" where
  "generate_header D =
     bindE (mapE (\<lambda>e. split_type (ep_type e)) (dep_endpoints D)) (\<lambda>types.
     bindE (mapE header_members (dep_endpoints D)) (\<lambda>members.
     bindE (mapE get_callback (subscriptions D)) (\<lambda>callbacks.
     Inr (join nl
       ([generated_banner,
         ''#ifndef ROS2_ZEPHYR_GENERATED_ROS_INIT_H'',
         ''#define ROS2_ZEPHYR_GENERATED_ROS_INIT_H'',
         '''',
         ''#include <stdbool.h>'',
         ''#include <rcl/rcl.h>'',
         ''#include <rclc/executor.h>'',
         ''#include <rclc/rclc.h>'']
        @ map (\<lambda>(package, message).
              ''#include <'' @ package @ ''/msg/'' @ snake_case message @ ''.h>'') (sorted_set types)
        @ ['''', ''typedef struct ros2z_deployment_context {'']
        @ [''  rcl_node_t node;'']
        @ concat members
        @ [''  rclc_executor_t executor;'']
        @ [''  bool node_initialized;'']
        @ map (\<lambda>e. ''  bool '' @ member e @ ''_initialized;'') (dep_endpoints D)
        @ [''  bool executor_initialized;'']
        @ [''} ros2z_deployment_context_t;'',
           '''',
           ''rcl_ret_t ros2z_deployment_init(ros2z_deployment_context_t *context,'',
           ''                                   rclc_support_t *support,'',
           ''                                   rcl_allocator_t *allocator);'',
           ''rcl_ret_t ros2z_deployment_fini(ros2z_deployment_context_t *context);'',
           '''']
        @ map (\<lambda>c. ''void '' @ c @ ''(const void *message);'') callbacks
        @ ['''', ''#endif'', ''''])))))"

section \<open>The source\<close>

definition builtin_uint32 :: "deployment \<Rightarrow> string \<Rightarrow> bool" where
  "builtin_uint32 D backend \<longleftrightarrow>
     backend = ''rmw_cyclonedds_c'' \<and>
     list_ex (\<lambda>e. ep_type e = ''std_msgs/msg/UInt32'') (dep_endpoints D)"

definition fini_on_error :: string where
  "fini_on_error =
     ''  if (result != RCL_RET_OK) { (void)ros2z_deployment_fini(context); return result; }''"

definition fini_lines :: "deployment \<Rightarrow> string list" where
  "fini_lines D =
     [''rcl_ret_t ros2z_deployment_fini(ros2z_deployment_context_t *context)'',
      ''{'',
      ''  rcl_ret_t result = RCL_RET_OK;'',
      ''  if (context == NULL) { return RCL_RET_INVALID_ARGUMENT; }'',
      ''  if (context->executor_initialized && rclc_executor_fini(&context->executor) != RCL_RET_OK) { result = RCL_RET_ERROR; }'']
     @ map (\<lambda>e. ''  if (context->'' @ member e @ ''_initialized && '' @ ''rcl_'' @ ep_kind e
              @ ''_fini(&context->'' @ member e @ '', &context->node) != RCL_RET_OK) ''
              @ ''{ result = RCL_RET_ERROR; }'') (rev (dep_endpoints D))
     @ [''  if (context->node_initialized && rcl_node_fini(&context->node) != RCL_RET_OK) { result = RCL_RET_ERROR; }'',
        ''  return result;'',
        ''}'',
        '''']"

definition zero_lines :: "deployment \<Rightarrow> string list" where
  "zero_lines D =
     [''rcl_ret_t ros2z_deployment_init(ros2z_deployment_context_t *context,'',
      ''                                   rclc_support_t *support,'',
      ''                                   rcl_allocator_t *allocator)'',
      ''{'',
      ''  if (context == NULL || support == NULL || allocator == NULL) { return RCL_RET_INVALID_ARGUMENT; }'',
      ''  memset(context, 0, sizeof('' @ ''*context));'',
      ''  context->node = rcl_get_zero_initialized_node();'',
      ''  context->executor = rclc_executor_get_zero_initialized_executor();'']
     @ map (\<lambda>e. ''  context->'' @ member e @ '' = rcl_get_zero_initialized_'' @ ep_kind e @ ''();'')
         (dep_endpoints D)"

definition node_lines :: "deployment \<Rightarrow> string list" where
  "node_lines D =
     [''  rcl_ret_t result = rclc_node_init_default(&context->node, '' @ quoted (dep_node D) @ '', ''
        @ quoted (dep_namespace D) @ '', support);'',
      ''  if (result != RCL_RET_OK) { return result; }'',
      ''  context->node_initialized = true;'']"

definition type_support :: "bool \<Rightarrow> endpoint \<Rightarrow> string \<times> string \<Rightarrow> string" where
  "type_support builtin e parts =
     (if builtin \<and> ep_type e = ''std_msgs/msg/UInt32''
      then ''ROSIDL_TYPESUPPORT_INTERFACE__MESSAGE_SYMBOL_NAME(''
           @ ''rosidl_typesupport_introspection_c, std_msgs, msg, UInt32)()''
      else ''ROSIDL_GET_MSG_TYPE_SUPPORT('' @ fst parts @ '', msg, '' @ snd parts @ '')'')"

definition endpoint_lines :: "bool \<Rightarrow> endpoint \<Rightarrow> string list res" where
  "endpoint_lines builtin e =
     bindE (split_type (ep_type e)) (\<lambda>parts.
     Inr (qos_initializer e @
       [''  result = rclc_'' @ ep_kind e @ ''_init(&context->'' @ member e @ '', &context->node,'',
        ''      '' @ type_support builtin e parts @ '', '' @ quoted (ep_topic e) @ '', &qos_'' @ ep_id e
          @ '');'',
        fini_on_error,
        ''  context->'' @ member e @ ''_initialized = true;'']))"

definition add_lines :: "endpoint \<Rightarrow> string list res" where
  "add_lines e =
     bindE (get_callback e) (\<lambda>callback.
     Inr [''  result = rclc_executor_add_subscription(&context->executor, &context->subscription_''
            @ ep_id e @ '','',
          ''      &context->subscription_'' @ ep_id e @ ''_message, '' @ callback @ '', ON_NEW_DATA);'',
          fini_on_error])"

definition executor_lines :: "deployment \<Rightarrow> string list res" where
  "executor_lines D =
     (if subscriptions D = [] then Inr [] else
      bindE (mapE add_lines (subscriptions D)) (\<lambda>adds.
      Inr ([''  result = rclc_executor_init(&context->executor, &support->context, ''
              @ show_nat (length (subscriptions D)) @ ''U, allocator);'',
            fini_on_error,
            ''  context->executor_initialized = true;'']
         @ concat adds
         @ [''  result = rclc_executor_prepare(&context->executor);'', fini_on_error])))"

definition generate_source :: "deployment \<Rightarrow> string \<Rightarrow> string res" where
  "generate_source D backend =
     bindE (mapE (endpoint_lines (builtin_uint32 D backend)) (dep_endpoints D)) (\<lambda>inits.
     bindE (executor_lines D) (\<lambda>executor.
     Inr (join nl
       ([generated_banner, ''#include '' @ quoted ''generated_ros_init.h'']
        @ (if builtin_uint32 D backend
           then [''#include <std_msgs/msg/detail/u_int32__rosidl_typesupport_introspection_c.h>'']
           else [])
        @ ['''', ''#include <string.h>'', '''']
        @ fini_lines D @ zero_lines D @ node_lines D
        @ concat inits @ executor
        @ [''  return RCL_RET_OK;'', ''}'', '''']))))"

section \<open>The fragments and the report\<close>

definition backend_symbol :: "string \<Rightarrow> string option" where
  "backend_symbol backend =
     map_of [(''rmw_cyclonedds_c'', ''CONFIG_ROS2_ZEPHYR_RMW_CYCLONEDDS_C''),
             (''rmw_zenoh_pico'', ''CONFIG_ROS2_ZEPHYR_RMW_ZENOH_PICO'')] backend"

definition generate_config :: "deployment \<Rightarrow> string \<Rightarrow> string res" where
  "generate_config D backend =
     (case backend_symbol backend of
        None \<Rightarrow> reject ''E_BACKEND_UNKNOWN'' (''unknown backend '' @ backend)
      | Some symbol \<Rightarrow> Inr (join nl
          ([''# Generated by compile_deployment.py; do not edit.'',
            ''CONFIG_ROS2_ZEPHYR=y'',
            symbol @ ''=y'',
            ''CONFIG_ROS2_ZEPHYR_DOMAIN_ID='' @ show_int (dep_domain D)]
           @ (if backend = ''rmw_zenoh_pico'' then [''CONFIG_NET_TCP=y''] else [])
           @ [''''])))"

definition generate_features :: "deployment \<Rightarrow> string res" where
  "generate_features D =
     bindE (mapE (\<lambda>e. split_type (ep_type e)) (dep_endpoints D)) (\<lambda>types.
     Inr (join nl
       [''# Generated by compile_deployment.py; do not edit.'',
        ''set(ROS2_ZEPHYR_RCLC_ENABLE_ACTIONS OFF)'',
        ''set(ROS2_ZEPHYR_MESSAGE_PACKAGES '' @ quoted (join '';'' (sorted_set (map fst types))) @ '')'',
        '''']))"

definition report_row :: "endpoint \<Rightarrow> string" where
  "report_row e =
     (let q = ep_qos e in
      ''| '' @ ep_id e @ '' | '' @ ep_kind e @ '' | `'' @ ep_topic e @ ''` | `'' @ ep_type e @ ''` | ''
      @ qos_reliability q @ '', '' @ qos_durability q @ '', '' @ qos_history q @ ''(''
      @ show_int (qos_depth q) @ '') |'')"

definition generate_report :: "deployment \<Rightarrow> dict \<Rightarrow> string \<Rightarrow> string res" where
  "generate_report D capability backend =
     bindE (getitem capability ''runtime_allocation'') (\<lambda>allocation.
     bindE (subscript allocation ''ros_after_executor_prepare'') (\<lambda>after.
     let node_path = (if dep_namespace D \<noteq> [] then dep_namespace D @ ''/'' @ dep_node D
                      else dep_node D)
     in Inr (join nl
       ([''# Deployment report'', '''', ''Deployment: `'' @ dep_name D @ ''`'', '''',
         ''Backend: `'' @ backend @ ''`'', '''', ''Node: `'' @ node_path @ ''`'', '''',
         ''## Endpoints'', '''', ''| ID | Kind | Topic | Type | QoS |'', ''|---|---|---|---|---|'']
        @ map report_row (dep_endpoints D)
        @ ['''', ''## Accepted contract'', '''', ''- Endpoint lifetime is fixed at startup.'',
           ''- Message profile: `'' @ dep_profile D @ ''`.'',
           ''- Graph outbound/inbound required: `'' @ show_bool (dep_outbound D) @ ''` / `''
             @ show_bool (dep_inbound D) @ ''`.'',
           ''- ROS allocation after executor preparation promised by backend: `''
             @ show_bool (\<not> truthy after) @ ''`.'',
           ''- Local endpoint capacity: `'' @ show_int (dep_local D) @ ''`.'',
           ''- Maximum middleware workers: `'' @ show_int (dep_workers D) @ ''`.'',
           ''- Application static reserve: `'' @ show_int (dep_reserve D) @ ''` bytes.'',
           '''']))))"

end
