(* ===== verification/Deployment_Program.thy ===== *)
theory Deployment_Program
  imports Deployment_Generate
begin

text \<open>
  The C functions that \<open>generate_source\<close> prints, as programs: a statement type for the shapes of
  C statement the generator emits, the two programs (\<open>ros2z_deployment_init\<close> and
  \<open>ros2z_deployment_fini\<close>) as statement lists, and their printing. The generator's text is shown to
  be the printed programs. The programs have a semantics in which the calls to rcl and rclc return
  whatever an arbitrary function says, so that the theorems on them hold for every behaviour of
  the libraries that the generated file calls.
\<close>

section \<open>Statements\<close>

datatype obj = ObjNode | ObjEndpoint endpoint | ObjExecutor

datatype call =
    Create obj
  | AddSubscription endpoint
  | Prepare
  | Destroy obj

text \<open>What a checked call does on failure: return at once, or run \<open>ros2z_deployment_fini\<close> first.\<close>

datatype on_error = Return_Result | Fini_Return

datatype cstmt =
    ZeroContext
  | ZeroObj obj
  | DeclareQos endpoint
  | Checked call on_error
  | SetInitialized obj

definition zero_program :: "deployment \<Rightarrow> cstmt list" where
  "zero_program D =
     [ZeroContext, ZeroObj ObjNode, ZeroObj ObjExecutor]
     @ map (\<lambda>e. ZeroObj (ObjEndpoint e)) (dep_endpoints D)"

definition node_program :: "cstmt list" where
  "node_program = [Checked (Create ObjNode) Return_Result, SetInitialized ObjNode]"

definition endpoint_program :: "endpoint \<Rightarrow> cstmt list" where
  "endpoint_program e =
     [DeclareQos e, Checked (Create (ObjEndpoint e)) Fini_Return, SetInitialized (ObjEndpoint e)]"

definition executor_program :: "deployment \<Rightarrow> cstmt list" where
  "executor_program D =
     (if subscriptions D = [] then []
      else [Checked (Create ObjExecutor) Fini_Return, SetInitialized ObjExecutor]
        @ map (\<lambda>e. Checked (AddSubscription e) Fini_Return) (subscriptions D)
        @ [Checked Prepare Fini_Return])"

definition init_program :: "deployment \<Rightarrow> cstmt list" where
  "init_program D =
     zero_program D @ node_program @ concat (map endpoint_program (dep_endpoints D))
     @ executor_program D"

text \<open>The objects that \<open>ros2z_deployment_fini\<close> finalises when they are marked, in its order.\<close>

definition fini_program :: "deployment \<Rightarrow> obj list" where
  "fini_program D = [ObjExecutor] @ map ObjEndpoint (rev (dep_endpoints D)) @ [ObjNode]"

section \<open>Printing\<close>

fun obj_member :: "obj \<Rightarrow> string" where
  "obj_member ObjNode = ''node''"
| "obj_member (ObjEndpoint e) = member e"
| "obj_member ObjExecutor = ''executor''"

definition print_on_error :: "on_error \<Rightarrow> string" where
  "print_on_error h =
     (case h of
        Return_Result \<Rightarrow> ''  if (result != RCL_RET_OK) { return result; }''
      | Fini_Return \<Rightarrow> fini_on_error)"

fun print_call :: "deployment \<Rightarrow> string \<Rightarrow> call \<Rightarrow> string list" where
  "print_call D backend (Create ObjNode) =
     [''  rcl_ret_t result = rclc_node_init_default(&context->node, '' @ quoted (dep_node D) @ '', ''
        @ quoted (dep_namespace D) @ '', support);'']"
| "print_call D backend (Create (ObjEndpoint e)) =
     (case split_type (ep_type e) of
        Inl _ \<Rightarrow> []
      | Inr parts \<Rightarrow>
          [''  result = rclc_'' @ ep_kind e @ ''_init(&context->'' @ member e @ '', &context->node,'',
           ''      '' @ type_support (builtin_uint32 D backend) e parts @ '', '' @ quoted (ep_topic e)
             @ '', &qos_'' @ ep_id e @ '');''])"
| "print_call D backend (Create ObjExecutor) =
     [''  result = rclc_executor_init(&context->executor, &support->context, ''
        @ show_nat (length (subscriptions D)) @ ''U, allocator);'']"
| "print_call D backend (AddSubscription e) =
     (case ep_callback e of
        None \<Rightarrow> []
      | Some callback \<Rightarrow>
          [''  result = rclc_executor_add_subscription(&context->executor, &context->subscription_''
             @ ep_id e @ '','',
           ''      &context->subscription_'' @ ep_id e @ ''_message, '' @ callback
             @ '', ON_NEW_DATA);''])"
| "print_call D backend Prepare = [''  result = rclc_executor_prepare(&context->executor);'']"
| "print_call D backend (Destroy x) = []"

fun print_stmt :: "deployment \<Rightarrow> string \<Rightarrow> cstmt \<Rightarrow> string list" where
  "print_stmt D backend ZeroContext = [''  memset(context, 0, sizeof('' @ ''*context));'']"
| "print_stmt D backend (ZeroObj ObjNode) = [''  context->node = rcl_get_zero_initialized_node();'']"
| "print_stmt D backend (ZeroObj ObjExecutor) =
     [''  context->executor = rclc_executor_get_zero_initialized_executor();'']"
| "print_stmt D backend (ZeroObj (ObjEndpoint e)) =
     [''  context->'' @ member e @ '' = rcl_get_zero_initialized_'' @ ep_kind e @ ''();'']"
| "print_stmt D backend (DeclareQos e) = qos_initializer e"
| "print_stmt D backend (Checked c h) = print_call D backend c @ [print_on_error h]"
| "print_stmt D backend (SetInitialized x) =
     [''  context->'' @ obj_member x @ ''_initialized = true;'']"

text \<open>A guarded finaliser: the call only when the object is marked, the result turned to an error.\<close>

fun print_fini :: "obj \<Rightarrow> string" where
  "print_fini ObjExecutor =
     ''  if (context->executor_initialized && rclc_executor_fini(&context->executor) != RCL_RET_OK) { result = RCL_RET_ERROR; }''"
| "print_fini (ObjEndpoint e) =
     ''  if (context->'' @ member e @ ''_initialized && '' @ ''rcl_'' @ ep_kind e
     @ ''_fini(&context->'' @ member e @ '', &context->node) != RCL_RET_OK) ''
     @ ''{ result = RCL_RET_ERROR; }''"
| "print_fini ObjNode =
     ''  if (context->node_initialized && rcl_node_fini(&context->node) != RCL_RET_OK) { result = RCL_RET_ERROR; }''"

definition print_source :: "deployment \<Rightarrow> string \<Rightarrow> string list" where
  "print_source D backend =
     [generated_banner, ''#include '' @ quoted ''generated_ros_init.h'']
     @ (if builtin_uint32 D backend
        then [''#include <std_msgs/msg/detail/u_int32__rosidl_typesupport_introspection_c.h>'']
        else [])
     @ ['''', ''#include <string.h>'', '''',
        ''rcl_ret_t ros2z_deployment_fini(ros2z_deployment_context_t *context)'', ''{'',
        ''  rcl_ret_t result = RCL_RET_OK;'',
        ''  if (context == NULL) { return RCL_RET_INVALID_ARGUMENT; }'']
     @ map print_fini (fini_program D)
     @ [''  return result;'', ''}'', '''',
        ''rcl_ret_t ros2z_deployment_init(ros2z_deployment_context_t *context,'',
        ''                                   rclc_support_t *support,'',
        ''                                   rcl_allocator_t *allocator)'',
        ''{'',
        ''  if (context == NULL || support == NULL || allocator == NULL) { return RCL_RET_INVALID_ARGUMENT; }'']
     @ concat (map (print_stmt D backend) (init_program D))
     @ [''  return RCL_RET_OK;'', ''}'', '''']"

section \<open>Meaning\<close>

text \<open>
  The state: the objects whose \<open>_initialized\<close> member is true, and the calls made so far with
  their return codes. \<open>rc\<close> decides the return code of a call from the calls before it; 0 is
  \<open>RCL_RET_OK\<close>.
\<close>

type_synonym rcl_trace = "(call \<times> int) list"
type_synonym rcl_env = "rcl_trace \<Rightarrow> call \<Rightarrow> int"

record ros_ctx =
  marked :: "obj list"
  trace :: rcl_trace

definition do_call :: "rcl_env \<Rightarrow> call \<Rightarrow> ros_ctx \<Rightarrow> int \<times> ros_ctx" where
  "do_call rc c s = (let r = rc (trace s) c in (r, s\<lparr>trace := trace s @ [(c, r)]\<rparr>))"

text \<open>\<open>ros2z_deployment_fini\<close>; 1 is \<open>RCL_RET_ERROR\<close>.\<close>

fun exec_fini :: "rcl_env \<Rightarrow> obj list \<Rightarrow> int \<Rightarrow> ros_ctx \<Rightarrow> int \<times> ros_ctx" where
  "exec_fini rc [] result s = (result, s)"
| "exec_fini rc (x # xs) result s =
     (if x \<in> set (marked s)
      then (let (r, s') = do_call rc (Destroy x) s
            in exec_fini rc xs (if r \<noteq> 0 then 1 else result) s')
      else exec_fini rc xs result s)"

fun exec_init :: "rcl_env \<Rightarrow> obj list \<Rightarrow> cstmt list \<Rightarrow> ros_ctx \<Rightarrow> int \<times> ros_ctx" where
  "exec_init rc fini [] s = (0, s)"
| "exec_init rc fini (Checked c h # ss) s =
     (let (r, s') = do_call rc c s
      in if r \<noteq> 0
         then (case h of
                 Return_Result \<Rightarrow> (r, s')
               | Fini_Return \<Rightarrow> (r, snd (exec_fini rc fini 0 s')))
         else exec_init rc fini ss s')"
| "exec_init rc fini (SetInitialized x # ss) s = exec_init rc fini ss (s\<lparr>marked := x # marked s\<rparr>)"
| "exec_init rc fini (ZeroContext # ss) s = exec_init rc fini ss (s\<lparr>marked := []\<rparr>)"
| "exec_init rc fini (ZeroObj x # ss) s = exec_init rc fini ss s"
| "exec_init rc fini (DeclareQos e # ss) s = exec_init rc fini ss s"

definition deployment_init :: "rcl_env \<Rightarrow> deployment \<Rightarrow> ros_ctx \<Rightarrow> int \<times> ros_ctx" where
  "deployment_init rc D s = exec_init rc (fini_program D) (init_program D) s"

definition deployment_fini :: "rcl_env \<Rightarrow> deployment \<Rightarrow> ros_ctx \<Rightarrow> int \<times> ros_ctx" where
  "deployment_fini rc D s = exec_fini rc (fini_program D) 0 s"

text \<open>The objects created and the objects destroyed in a trace.\<close>

definition created :: "rcl_trace \<Rightarrow> obj list" where
  "created tr = concat (map (\<lambda>(c, r). case c of Create x \<Rightarrow> if r = 0 then [x] else [] | _ \<Rightarrow> []) tr)"

definition destroyed :: "rcl_trace \<Rightarrow> obj list" where
  "destroyed tr = concat (map (\<lambda>(c, r). case c of Destroy x \<Rightarrow> [x] | _ \<Rightarrow> []) tr)"


section \<open>The text is the printed program\<close>

lemma split_type_eq_Inr:
  "split_type t = Inr (p, m) \<longleftrightarrow> t = p @ ''/msg/'' @ m \<and> type_part p \<and> type_part m"
proof -
  have "split_type t = Inr (p, m) \<longleftrightarrow>
      (\<exists>g. fullmatch MESSAGE_TYPE t = Some g \<and> p = group_of g 1 \<and> m = group_of g 2)"
    unfolding split_type_def by (auto split: option.splits)
  also have "\<dots> \<longleftrightarrow> t = p @ ''/msg/'' @ m \<and> type_part p \<and> type_part m"
  proof
    assume "t = p @ ''/msg/'' @ m \<and> type_part p \<and> type_part m"
    then show "\<exists>g. fullmatch MESSAGE_TYPE t = Some g \<and> p = group_of g 1 \<and> m = group_of g 2"
      unfolding fullmatch_MESSAGE_TYPE
      by (intro exI [of _ "[(2, m), (1, p)]"]) (auto simp: group_of_def)
  qed (auto simp: fullmatch_MESSAGE_TYPE group_of_def)
  finally show ?thesis .
qed

lemma wf_split_type:
  assumes "wf_endpoint e"
  obtains p m where "split_type (ep_type e) = Inr (p, m)" "ep_type e = p @ ''/msg/'' @ m"
    "type_part p" "type_part m"
  using assms unfolding wf_endpoint_def by (metis split_type_eq_Inr)

lemma wf_get_callback:
  assumes "wf_endpoint e" and "is_subscription e"
  obtains c where "get_callback e = Inr c" "ep_callback e = Some c" "is_identifier c"
proof -
  have "ep_kind e \<noteq> ''publisher''" using assms(2) by (simp add: is_subscription_def)
  with assms(1) obtain c where "ep_callback e = Some c" "is_identifier c"
    unfolding wf_endpoint_def by (cases "ep_callback e") auto
  with that show thesis by (simp add: get_callback_def)
qed

lemma endpoint_lines_print:
  assumes "wf_endpoint e"
  shows "endpoint_lines (builtin_uint32 D backend) e =
    Inr (concat (map (print_stmt D backend) (endpoint_program e)))"
  by (rule wf_split_type [OF assms])
     (simp add: endpoint_lines_def endpoint_program_def print_on_error_def)

lemma add_lines_print:
  assumes "wf_endpoint e" and "is_subscription e"
  shows "add_lines e = Inr (print_stmt D backend (Checked (AddSubscription e) Fini_Return))"
  by (rule wf_get_callback [OF assms]) (simp add: add_lines_def print_on_error_def)

lemma executor_lines_print:
  assumes "list_all wf_endpoint (dep_endpoints D)"
  shows "executor_lines D = Inr (concat (map (print_stmt D backend) (executor_program D)))"
proof -
  have "mapE add_lines (subscriptions D) =
      Inr (map (\<lambda>e. print_stmt D backend (Checked (AddSubscription e) Fini_Return)) (subscriptions D))"
    using assms by (intro mapE_pure add_lines_print) (auto simp: subscriptions_def list_all_iff)
  then show ?thesis
    by (simp add: executor_lines_def executor_program_def print_on_error_def comp_def)
qed

lemma zero_node_lines_print:
  "zero_lines D @ node_lines D =
     [''rcl_ret_t ros2z_deployment_init(ros2z_deployment_context_t *context,'',
      ''                                   rclc_support_t *support,'',
      ''                                   rcl_allocator_t *allocator)'',
      ''{'',
      ''  if (context == NULL || support == NULL || allocator == NULL) { return RCL_RET_INVALID_ARGUMENT; }'']
     @ concat (map (print_stmt D backend) (zero_program D @ node_program))"
  by (simp add: zero_lines_def node_lines_def zero_program_def node_program_def print_on_error_def
      comp_def)

lemma fini_lines_print:
  "fini_lines D =
     [''rcl_ret_t ros2z_deployment_fini(ros2z_deployment_context_t *context)'', ''{'',
      ''  rcl_ret_t result = RCL_RET_OK;'',
      ''  if (context == NULL) { return RCL_RET_INVALID_ARGUMENT; }'']
     @ map print_fini (fini_program D) @ [''  return result;'', ''}'', '''']"
  by (simp add: fini_lines_def fini_program_def comp_def)

lemma generate_source_print:
  assumes "list_all wf_endpoint (dep_endpoints D)"
  shows "generate_source D backend = Inr (join nl (print_source D backend))"
proof -
  let ?P = "print_stmt D backend"
  have "mapE (endpoint_lines (builtin_uint32 D backend)) (dep_endpoints D) =
      Inr (map (\<lambda>e. concat (map ?P (endpoint_program e))) (dep_endpoints D))"
    using assms by (intro mapE_pure endpoint_lines_print) (auto simp: list_all_iff)
  moreover have "concat (map (\<lambda>e. concat (map ?P (endpoint_program e))) es) =
      concat (map ?P (concat (map endpoint_program es)))" for es
    by (induction es) simp_all
  moreover have "zero_lines D @ node_lines D @ xs = (zero_lines D @ node_lines D) @ xs" for xs
    by simp
  ultimately show ?thesis
    unfolding generate_source_def executor_lines_print [OF assms, of backend] print_source_def
      init_program_def fini_lines_print
    by (simp only: bindE_simps zero_node_lines_print [of D backend] map_append concat_append
        append_assoc append_Cons append_Nil)
qed

section \<open>What the program does\<close>

lemma trace_simps [simp]:
  "created [] = []" "destroyed [] = []"
  "created (tr @ tr') = created tr @ created tr'"
  "destroyed (tr @ tr') = destroyed tr @ destroyed tr'"
  "created [(Create x, r)] = (if r = 0 then [x] else [])"
  "created [(AddSubscription e, r)] = []" "created [(Prepare, r)] = []" "created [(Destroy x, r)] = []"
  "destroyed [(Create x, r)] = []" "destroyed [(AddSubscription e, r)] = []"
  "destroyed [(Prepare, r)] = []" "destroyed [(Destroy x, r)] = [x]"
  by (simp_all add: created_def destroyed_def)

lemma exec_fini_trace:
  "marked (snd (exec_fini rc xs res s)) = marked s \<and>
   created (trace (snd (exec_fini rc xs res s))) = created (trace s) \<and>
   destroyed (trace (snd (exec_fini rc xs res s))) =
     destroyed (trace s) @ filter (\<lambda>x. x \<in> set (marked s)) xs"
  by (induction xs arbitrary: res s) (simp_all add: do_call_def Let_def)

text \<open>Every marked object has been created, in the order of the marks, and none is finalised.\<close>

definition balanced :: "ros_ctx \<Rightarrow> bool" where
  "balanced s \<longleftrightarrow> created (trace s) = rev (marked s) \<and> destroyed (trace s) = []"

text \<open>How a part of the initialisation can end: it goes on, or it runs the finaliser and returns.\<close>

definition ends_with :: "rcl_env \<Rightarrow> obj list \<Rightarrow> int \<times> ros_ctx \<Rightarrow> obj list \<Rightarrow> bool" where
  "ends_with rc fini out ms \<longleftrightarrow>
     (\<exists>s r. balanced s \<and> marked s = ms \<and> r \<noteq> 0 \<and> out = (r, snd (exec_fini rc fini 0 s)))"

lemma exec_create:
  assumes "balanced s"
  shows "(\<exists>s'. balanced s' \<and> marked s' = x # marked s \<and>
      exec_init rc fini (Checked (Create x) Fini_Return # SetInitialized x # ss) s =
      exec_init rc fini ss s') \<or>
    ends_with rc fini (exec_init rc fini (Checked (Create x) Fini_Return # SetInitialized x # ss) s)
      (marked s)"
proof (cases "rc (trace s) (Create x) = 0")
  case True
  with assms show ?thesis
    by (intro disjI1 exI [of _ "s\<lparr>trace := trace s @ [(Create x, 0)], marked := x # marked s\<rparr>"])
       (simp add: balanced_def do_call_def Let_def)
next
  case False
  with assms show ?thesis
    unfolding ends_with_def
    by (intro disjI2 exI [of _ "s\<lparr>trace := trace s @ [(Create x, rc (trace s) (Create x))]\<rparr>"]
        exI [of _ "rc (trace s) (Create x)"])
       (simp add: balanced_def do_call_def Let_def)
qed

lemma exec_check:
  assumes "balanced s" and "c = Prepare \<or> (\<exists>e. c = AddSubscription e)"
  shows "(\<exists>s'. balanced s' \<and> marked s' = marked s \<and>
      exec_init rc fini (Checked c Fini_Return # ss) s = exec_init rc fini ss s') \<or>
    ends_with rc fini (exec_init rc fini (Checked c Fini_Return # ss) s) (marked s)"
proof -
  have c: "created [(c, r)] = []" "destroyed [(c, r)] = []" for r
    using assms(2) by auto
  show ?thesis
  proof (cases "rc (trace s) c = 0")
    case True
    with assms(1) c show ?thesis
      by (intro disjI1 exI [of _ "s\<lparr>trace := trace s @ [(c, 0)]\<rparr>"])
         (simp add: balanced_def do_call_def Let_def)
  next
    case False
    with assms(1) c show ?thesis
      unfolding ends_with_def
      by (intro disjI2 exI [of _ "s\<lparr>trace := trace s @ [(c, rc (trace s) c)]\<rparr>"]
          exI [of _ "rc (trace s) c"])
         (simp add: balanced_def do_call_def Let_def)
  qed
qed

lemma exec_endpoints:
  assumes "balanced s"
  shows "(\<exists>s'. balanced s' \<and> marked s' = rev (map ObjEndpoint es) @ marked s \<and>
      exec_init rc fini (concat (map endpoint_program es) @ ss) s = exec_init rc fini ss s') \<or>
    (\<exists>n. ends_with rc fini (exec_init rc fini (concat (map endpoint_program es) @ ss) s)
       (rev (map ObjEndpoint (take n es)) @ marked s))"
  using assms
proof (induction es arbitrary: s)
  case Nil
  then show ?case by auto
next
  case (Cons e es)
  let ?rest = "concat (map endpoint_program es) @ ss"
  let ?prog = "Checked (Create (ObjEndpoint e)) Fini_Return # SetInitialized (ObjEndpoint e) # ?rest"
  have prog: "exec_init rc fini (concat (map endpoint_program (e # es)) @ ss) s =
      exec_init rc fini ?prog s"
    by (simp add: endpoint_program_def)
  from exec_create [OF Cons.prems, of "ObjEndpoint e" rc fini ?rest] show ?case
  proof (elim disjE exE conjE)
    fix s' assume s': "balanced s'" "marked s' = ObjEndpoint e # marked s"
      "exec_init rc fini ?prog s = exec_init rc fini ?rest s'"
    from Cons.IH [OF s'(1)] show ?thesis
    proof (elim disjE exE)
      fix n assume "ends_with rc fini (exec_init rc fini ?rest s')
        (rev (map ObjEndpoint (take n es)) @ marked s')"
      then show ?thesis unfolding prog s'(3) s'(2) by (intro disjI2 exI [of _ "Suc n"]) simp
    next
      fix t assume t: "balanced t \<and> marked t = rev (map ObjEndpoint es) @ marked s' \<and>
        exec_init rc fini ?rest s' = exec_init rc fini ss t"
      then show ?thesis unfolding prog s'(3) by (intro disjI1 exI [of _ t]) (simp add: s'(2))
    qed
  next
    assume "ends_with rc fini (exec_init rc fini ?prog s) (marked s)"
    then show ?thesis unfolding prog by (intro disjI2 exI [of _ 0]) simp
  qed
qed

lemma exec_adds:
  assumes "balanced s"
  shows "(\<exists>s'. balanced s' \<and> marked s' = marked s \<and>
      exec_init rc fini (map (\<lambda>e. Checked (AddSubscription e) Fini_Return) es
        @ [Checked Prepare Fini_Return]) s = (0, s')) \<or>
    ends_with rc fini (exec_init rc fini (map (\<lambda>e. Checked (AddSubscription e) Fini_Return) es
        @ [Checked Prepare Fini_Return]) s) (marked s)"
  using assms
proof (induction es arbitrary: s)
  case Nil
  from exec_check [OF Nil, of Prepare rc fini "[]"] show ?case by simp
next
  case (Cons e es)
  let ?rest = "map (\<lambda>e. Checked (AddSubscription e) Fini_Return) es @ [Checked Prepare Fini_Return]"
  have "(\<exists>s'. balanced s' \<and> marked s' = marked s \<and>
      exec_init rc fini (Checked (AddSubscription e) Fini_Return # ?rest) s = exec_init rc fini ?rest s') \<or>
    ends_with rc fini (exec_init rc fini (Checked (AddSubscription e) Fini_Return # ?rest) s) (marked s)"
    by (rule exec_check [OF Cons.prems]) simp
  then show ?case
  proof (elim disjE exE conjE)
    fix s' assume "balanced s'" "marked s' = marked s"
      "exec_init rc fini (Checked (AddSubscription e) Fini_Return # ?rest) s = exec_init rc fini ?rest s'"
    with Cons.IH [of s'] show ?thesis by simp
  qed (simp_all del: exec_init.simps)
qed

text \<open>The marked objects, latest first, are a final part of the finaliser's list.\<close>

lemma fini_program_filter:
  assumes "distinct (dep_endpoints D)"
    and "ms = rev (map ObjEndpoint (take n (dep_endpoints D))) @ [ObjNode] \<or>
         ms = ObjExecutor # rev (map ObjEndpoint (dep_endpoints D)) @ [ObjNode]"
  shows "filter (\<lambda>x. x \<in> set ms) (fini_program D) = ms"
proof -
  let ?es = "dep_endpoints D"
  have "filter (\<lambda>e. e \<in> set (take n ?es)) (rev ?es) = rev (take n ?es)"
  proof -
    have "filter (\<lambda>e. e \<in> set (take n ?es)) (take n ?es @ drop n ?es) = take n ?es"
      using set_take_disj_set_drop_if_distinct [OF assms(1), of n n]
      unfolding filter_append by (auto simp: filter_id_conv filter_empty_conv)
    then show ?thesis by (simp add: rev_filter [symmetric])
  qed
  then have "filter (\<lambda>x. x \<in> ObjEndpoint ` set (take n ?es)) (map ObjEndpoint (rev ?es)) =
      map ObjEndpoint (rev (take n ?es))"
    by (simp add: filter_map comp_def image_iff)
  with assms(2) show ?thesis
    by (auto simp: fini_program_def rev_map filter_id_conv filter_map comp_def image_iff)
qed

lemma wf_distinct_endpoints: "wf_deployment D \<Longrightarrow> distinct (dep_endpoints D)"
  unfolding wf_deployment_def by (blast dest: distinct_map [THEN iffD1])

definition all_objs :: "deployment \<Rightarrow> obj list" where
  "all_objs D =
     [ObjNode] @ map ObjEndpoint (dep_endpoints D) @ (if subscriptions D = [] then [] else [ObjExecutor])"

lemma exec_init_zero:
  "exec_init rc fini (zero_program D @ ss) s = exec_init rc fini ss (s\<lparr>marked := []\<rparr>)"
proof -
  have "exec_init rc fini (map (\<lambda>e. ZeroObj (ObjEndpoint e)) es @ ss) t = exec_init rc fini ss t" for es t
    by (induction es) simp_all
  then show ?thesis by (simp add: zero_program_def)
qed

lemma exec_executor:
  assumes "balanced s"
  shows "(\<exists>s'. balanced s' \<and> exec_init rc fini (executor_program D) s = (0, s') \<and>
      marked s' = (if subscriptions D = [] then [] else [ObjExecutor]) @ marked s) \<or>
    ends_with rc fini (exec_init rc fini (executor_program D) s) (marked s) \<or>
    ends_with rc fini (exec_init rc fini (executor_program D) s) (ObjExecutor # marked s)"
proof (cases "subscriptions D = []")
  case True
  with assms show ?thesis by (simp add: executor_program_def)
next
  case False
  let ?rest = "map (\<lambda>e. Checked (AddSubscription e) Fini_Return) (subscriptions D)
        @ [Checked Prepare Fini_Return]"
  from False have prog: "executor_program D =
      Checked (Create ObjExecutor) Fini_Return # SetInitialized ObjExecutor # ?rest"
    by (simp add: executor_program_def)
  from exec_create [OF assms, of ObjExecutor rc fini ?rest] show ?thesis
    unfolding prog
  proof (elim disjE exE conjE)
    fix s' assume s': "balanced s'" "marked s' = ObjExecutor # marked s"
      "exec_init rc fini (Checked (Create ObjExecutor) Fini_Return # SetInitialized ObjExecutor # ?rest) s
         = exec_init rc fini ?rest s'"
    with exec_adds [OF s'(1), of rc fini "subscriptions D"] False show
      "(\<exists>s'. balanced s' \<and> exec_init rc fini (Checked (Create ObjExecutor) Fini_Return #
          SetInitialized ObjExecutor # ?rest) s = (0, s') \<and>
          marked s' = (if subscriptions D = [] then [] else [ObjExecutor]) @ marked s) \<or>
        ends_with rc fini (exec_init rc fini (Checked (Create ObjExecutor) Fini_Return #
          SetInitialized ObjExecutor # ?rest) s) (marked s) \<or>
        ends_with rc fini (exec_init rc fini (Checked (Create ObjExecutor) Fini_Return #
          SetInitialized ObjExecutor # ?rest) s) (ObjExecutor # marked s)"
      by auto
  qed blast
qed

text \<open>The three ways the initialisation ends, for every behaviour of the libraries.\<close>

lemma deployment_init_cases:
  assumes "trace s = []"
  shows "(\<exists>s'. balanced s' \<and> deployment_init rc D s = (0, s') \<and> marked s' = rev (all_objs D)) \<or>
    (\<exists>r s'. r \<noteq> 0 \<and> deployment_init rc D s = (r, s') \<and> trace s' = [(Create ObjNode, r)]) \<or>
    (\<exists>ms. ends_with rc (fini_program D) (deployment_init rc D s) ms \<and>
       ((\<exists>n. ms = rev (map ObjEndpoint (take n (dep_endpoints D))) @ [ObjNode]) \<or>
        ms = ObjExecutor # rev (map ObjEndpoint (dep_endpoints D)) @ [ObjNode]))"
proof (cases "rc [] (Create ObjNode) = 0")
  case False
  with assms show ?thesis
    by (simp add: deployment_init_def init_program_def exec_init_zero node_program_def do_call_def
        Let_def)
next
  case True
  let ?s = "s\<lparr>trace := [(Create ObjNode, 0)], marked := [ObjNode]\<rparr>"
  let ?E = "concat (map endpoint_program (dep_endpoints D))"
  have start: "deployment_init rc D s = exec_init rc (fini_program D) (?E @ executor_program D) ?s"
    using True assms
    by (simp add: deployment_init_def init_program_def exec_init_zero node_program_def do_call_def
        Let_def)
  have "balanced ?s" by (simp add: balanced_def created_def destroyed_def)
  from exec_endpoints [OF this, of "dep_endpoints D" rc "fini_program D" "executor_program D"]
  show ?thesis
  proof (elim disjE exE conjE)
    fix t assume t: "balanced t" "marked t = rev (map ObjEndpoint (dep_endpoints D)) @ marked ?s"
      "exec_init rc (fini_program D) (?E @ executor_program D) ?s =
       exec_init rc (fini_program D) (executor_program D) t"
    have full: "\<exists>n. marked t = rev (map ObjEndpoint (take n (dep_endpoints D))) @ [ObjNode]"
      using t(2) by (intro exI [of _ "length (dep_endpoints D)"]) simp
    from exec_executor [OF t(1), of rc "fini_program D" D] show ?thesis
      unfolding start t(3)
    proof (elim disjE)
      assume "ends_with rc (fini_program D)
        (exec_init rc (fini_program D) (executor_program D) t) (marked t)"
      with full show "(\<exists>s'. balanced s' \<and>
          exec_init rc (fini_program D) (executor_program D) t = (0, s') \<and> marked s' = rev (all_objs D)) \<or>
        (\<exists>r s'. r \<noteq> 0 \<and> exec_init rc (fini_program D) (executor_program D) t = (r, s') \<and>
          trace s' = [(Create ObjNode, r)]) \<or>
        (\<exists>ms. ends_with rc (fini_program D) (exec_init rc (fini_program D) (executor_program D) t) ms \<and>
          ((\<exists>n. ms = rev (map ObjEndpoint (take n (dep_endpoints D))) @ [ObjNode]) \<or>
           ms = ObjExecutor # rev (map ObjEndpoint (dep_endpoints D)) @ [ObjNode]))"
        by blast
    qed (use t(2) in \<open>auto simp: all_objs_def\<close>)
  next
    fix n assume "ends_with rc (fini_program D) (exec_init rc (fini_program D) (?E @ executor_program D) ?s)
       (rev (map ObjEndpoint (take n (dep_endpoints D))) @ marked ?s)"
    then show ?thesis unfolding start by auto
  qed
qed

lemma ends_with_destroyed:
  assumes "ends_with rc (fini_program D) out ms"
    and "filter (\<lambda>x. x \<in> set ms) (fini_program D) = ms"
  shows "fst out \<noteq> 0 \<and> created (trace (snd out)) = rev ms \<and> destroyed (trace (snd out)) = ms"
proof -
  from assms(1) obtain s r where s: "balanced s" "marked s = ms" "r \<noteq> 0"
    "out = (r, snd (exec_fini rc (fini_program D) 0 s))"
    unfolding ends_with_def by blast
  with exec_fini_trace [of rc "fini_program D" 0 s] assms(2) show ?thesis
    by (simp add: balanced_def)
qed

lemma deployment_init_failed:
  assumes "distinct (dep_endpoints D)" and "trace s = []" and "deployment_init rc D s = (r, s')"
    and "r \<noteq> 0"
  shows "destroyed (trace s') = rev (created (trace s'))"
  using deployment_init_cases [OF assms(2), of rc D]
proof (elim disjE exE conjE)
  fix ms n assume "ends_with rc (fini_program D) (deployment_init rc D s) ms"
    and "ms = rev (map ObjEndpoint (take n (dep_endpoints D))) @ [ObjNode]"
  then show ?thesis
    using ends_with_destroyed fini_program_filter [OF assms(1)] assms(3) by fastforce
next
  fix ms assume "ends_with rc (fini_program D) (deployment_init rc D s) ms"
    and "ms = ObjExecutor # rev (map ObjEndpoint (dep_endpoints D)) @ [ObjNode]"
  then show ?thesis
    using ends_with_destroyed fini_program_filter [OF assms(1)] assms(3) by fastforce
qed (use assms(3,4) in auto)

lemma deployment_init_succeeded:
  assumes "distinct (dep_endpoints D)" and "trace s = []" and "deployment_init rc D s = (0, s')"
  shows "created (trace s') = all_objs D" "destroyed (trace s') = []"
    "destroyed (trace (snd (deployment_fini rc' D s'))) = rev (all_objs D)"
proof -
  from deployment_init_cases [OF assms(2), of rc D]
  have s': "balanced s'" "marked s' = rev (all_objs D)"
    using assms(3) by (auto simp: ends_with_def)
  then show "created (trace s') = all_objs D" "destroyed (trace s') = []"
    by (simp_all add: balanced_def)
  have "filter (\<lambda>x. x \<in> set (rev (all_objs D))) (fini_program D) = rev (all_objs D)"
    by (rule fini_program_filter [OF assms(1), where n = "length (dep_endpoints D)"])
       (simp add: all_objs_def rev_map)
  with s' exec_fini_trace [of rc' "fini_program D" 0 s']
  show "destroyed (trace (snd (deployment_fini rc' D s'))) = rev (all_objs D)"
    by (simp add: deployment_fini_def balanced_def)
qed

section \<open>Properties\<close>

text \<open>
  Property C11. On every well-formed deployment the text that \<open>generate_source\<close> returns is the
  printed form of the initialisation and the finalisation program, so that what is shown of the
  programs holds of the generated C functions.
\<close>

theorem generate_source_is_program:
  assumes "wf_deployment D"
  shows "generate_source D backend = Inr (join nl (print_source D backend))"
  using assms by (intro generate_source_print) (simp add: wf_deployment_def)

theorem generate_source_is_program_witness:
  "generate_source example_deployment ''rmw_cyclonedds_c'' =
     Inr (join nl (print_source example_deployment ''rmw_cyclonedds_c''))"
  by (rule generate_source_is_program [OF example_wf])

text \<open>
  Property C2. Whatever the rcl and rclc calls return, a generated initialisation that fails has
  finalised exactly the objects it had created, each once, in the reverse order of creation.
\<close>

theorem failed_init_releases_all:
  assumes "wf_deployment D" and "trace s = []" and "deployment_init rc D s = (r, s')" and "r \<noteq> 0"
  shows "destroyed (trace s') = rev (created (trace s')) \<and> distinct (created (trace s'))"
proof -
  note es = wf_distinct_endpoints [OF assms(1)]
  have "distinct (created (trace s'))"
    using deployment_init_cases [OF assms(2), of rc D]
  proof (elim disjE exE conjE)
    fix ms n assume "ends_with rc (fini_program D) (deployment_init rc D s) ms"
      and "ms = rev (map ObjEndpoint (take n (dep_endpoints D))) @ [ObjNode]"
    then show ?thesis
      using ends_with_destroyed fini_program_filter [OF es] assms(3) es
      by (fastforce simp: distinct_map inj_on_def)
  next
    fix ms assume "ends_with rc (fini_program D) (deployment_init rc D s) ms"
      and "ms = ObjExecutor # rev (map ObjEndpoint (dep_endpoints D)) @ [ObjNode]"
    then show ?thesis
      using ends_with_destroyed fini_program_filter [OF es] assms(3) es
      by (fastforce simp: distinct_map inj_on_def)
  qed (use assms(3,4) in \<open>auto simp: created_def\<close>)
  with deployment_init_failed [OF es assms(2-4)] show ?thesis by simp
qed

definition failing_prepare :: rcl_env where
  "failing_prepare tr c = (case c of Prepare \<Rightarrow> 1 | _ \<Rightarrow> 0)"

theorem failed_init_releases_all_witness:
  "fst (deployment_init failing_prepare example_deployment \<lparr>marked = [], trace = []\<rparr>) = 1 \<and>
   destroyed (trace (snd (deployment_init failing_prepare example_deployment
     \<lparr>marked = [], trace = []\<rparr>))) =
     [ObjExecutor, ObjEndpoint example_subscription, ObjEndpoint example_publisher, ObjNode]"
proof -
  let ?out = "deployment_init failing_prepare example_deployment \<lparr>marked = [], trace = []\<rparr>"
  have out: "fst ?out = 1" "created (trace (snd ?out)) =
      [ObjNode, ObjEndpoint example_publisher, ObjEndpoint example_subscription, ObjExecutor]"
    by (simp_all add: deployment_init_def init_program_def zero_program_def node_program_def
        endpoint_program_def executor_program_def subscriptions_def is_subscription_def
        fini_program_def example_deployment_def do_call_def failing_prepare_def created_def
        example_publisher_def example_subscription_def)
  then have "?out = (1, snd ?out)" by (metis prod.collapse)
  from failed_init_releases_all [OF example_wf _ this] out show ?thesis by simp
qed

text \<open>
  Property C10. A generated initialisation that returns \<open>RCL_RET_OK\<close> has created the node, every
  endpoint in declaration order and, when there are subscriptions, the executor; it has finalised
  none of them, and the generated finaliser then finalises all of them in reverse order.
\<close>

theorem successful_init_then_fini:
  assumes "wf_deployment D" and "trace s = []" and "deployment_init rc D s = (0, s')"
  shows "created (trace s') = all_objs D \<and> destroyed (trace s') = [] \<and>
    destroyed (trace (snd (deployment_fini rc' D s'))) = rev (all_objs D)"
  using deployment_init_succeeded [OF wf_distinct_endpoints [OF assms(1)] assms(2,3)] by blast

theorem successful_init_then_fini_witness:
  "created (trace (snd (deployment_init (\<lambda>_ _. 0) example_deployment \<lparr>marked = [], trace = []\<rparr>))) =
     [ObjNode, ObjEndpoint example_publisher, ObjEndpoint example_subscription, ObjExecutor]"
proof -
  let ?out = "deployment_init (\<lambda>_ _. 0) example_deployment \<lparr>marked = [], trace = []\<rparr>"
  have "fst ?out = 0"
    by (simp add: deployment_init_def init_program_def zero_program_def node_program_def
        endpoint_program_def executor_program_def subscriptions_def is_subscription_def
        example_deployment_def do_call_def example_publisher_def example_subscription_def)
  then have "?out = (0, snd ?out)" by (metis prod.collapse)
  from successful_init_then_fini [OF example_wf _ this] show ?thesis
    by (simp add: all_objs_def subscriptions_def is_subscription_def example_deployment_def
        example_publisher_def example_subscription_def)
qed

end
