(* ===== verification/Deployment_Header.thy ===== *)
theory Deployment_Header
  imports Deployment_Program
begin

text \<open>
  The context structure that \<open>generate_header\<close> declares: its fields as data, the header as their
  printing, and when the field names are distinct, as C requires.
\<close>

section \<open>Fields\<close>

definition message_member :: "endpoint \<Rightarrow> string" where
  "message_member e = ''subscription_'' @ ep_id e @ ''_message''"

definition message_type :: "endpoint \<Rightarrow> string" where
  "message_type e =
     (case split_type (ep_type e) of
        Inl _ \<Rightarrow> []
      | Inr parts \<Rightarrow> fst parts @ ''__msg__'' @ snd parts)"

definition endpoint_fields :: "endpoint \<Rightarrow> (string \<times> string) list" where
  "endpoint_fields e =
     (''rcl_'' @ ep_kind e @ ''_t'', member e)
     # (if is_subscription e then [(message_type e, message_member e)] else [])"

definition context_fields :: "deployment \<Rightarrow> (string \<times> string) list" where
  "context_fields D =
     [(''rcl_node_t'', ''node'')]
     @ concat (map endpoint_fields (dep_endpoints D))
     @ [(''rclc_executor_t'', ''executor''), (''bool'', ''node_initialized'')]
     @ map (\<lambda>e. (''bool'', member e @ ''_initialized'')) (dep_endpoints D)
     @ [(''bool'', ''executor_initialized'')]"

definition print_field :: "string \<times> string \<Rightarrow> string" where
  "print_field f = ''  '' @ fst f @ '' '' @ snd f @ '';''"

definition header_includes :: "deployment \<Rightarrow> string list" where
  "header_includes D =
     map (\<lambda>(package, message). ''#include <'' @ package @ ''/msg/'' @ snake_case message @ ''.h>'')
       (sorted_set (concat (map (\<lambda>e. case split_type (ep_type e) of Inl _ \<Rightarrow> [] | Inr pm \<Rightarrow> [pm])
          (dep_endpoints D))))"

definition header_callbacks :: "deployment \<Rightarrow> string list" where
  "header_callbacks D =
     map (\<lambda>e. ''void '' @ the (ep_callback e) @ ''(const void *message);'') (subscriptions D)"

definition print_header :: "deployment \<Rightarrow> string list" where
  "print_header D =
     [generated_banner, ''#ifndef ROS2_ZEPHYR_GENERATED_ROS_INIT_H'',
      ''#define ROS2_ZEPHYR_GENERATED_ROS_INIT_H'', '''', ''#include <stdbool.h>'',
      ''#include <rcl/rcl.h>'', ''#include <rclc/executor.h>'', ''#include <rclc/rclc.h>'']
     @ header_includes D
     @ ['''', ''typedef struct ros2z_deployment_context {'']
     @ map print_field (context_fields D)
     @ [''} ros2z_deployment_context_t;'',
        '''',
        ''rcl_ret_t ros2z_deployment_init(ros2z_deployment_context_t *context,'',
        ''                                   rclc_support_t *support,'',
        ''                                   rcl_allocator_t *allocator);'',
        ''rcl_ret_t ros2z_deployment_fini(ros2z_deployment_context_t *context);'',
        '''']
     @ header_callbacks D
     @ ['''', ''#endif'', '''']"

section \<open>The header is the printed structure\<close>

lemma header_members_print:
  assumes "wf_endpoint e"
  shows "header_members e = Inr (map print_field (endpoint_fields e))"
  by (rule wf_split_type [OF assms])
     (simp add: header_members_def endpoint_fields_def print_field_def message_member_def
      message_type_def)

lemma mapE_split_type:
  assumes "list_all wf_endpoint es"
  shows "mapE (\<lambda>e. split_type (ep_type e)) es =
    Inr (concat (map (\<lambda>e. case split_type (ep_type e) of Inl _ \<Rightarrow> [] | Inr pm \<Rightarrow> [pm]) es))"
  using assms
proof (induction es)
  case (Cons e es)
  then have "wf_endpoint e" by simp
  then obtain p m where "split_type (ep_type e) = Inr (p, m)" by (rule wf_split_type)
  with Cons show ?case by simp
qed simp

lemma mapE_get_callback:
  assumes "list_all wf_endpoint (dep_endpoints D)"
  shows "mapE get_callback (subscriptions D) = Inr (map (\<lambda>e. the (ep_callback e)) (subscriptions D))"
proof (rule mapE_pure)
  fix e assume "e \<in> set (subscriptions D)"
  with assms have "wf_endpoint e" "is_subscription e"
    by (auto simp: subscriptions_def list_all_iff)
  then obtain c where "get_callback e = Inr c" "ep_callback e = Some c" by (rule wf_get_callback)
  then show "get_callback e = Inr (the (ep_callback e))" by simp
qed

lemma generate_header_print:
  assumes "list_all wf_endpoint (dep_endpoints D)"
  shows "generate_header D = Inr (join nl (print_header D))"
proof -
  have members: "mapE header_members (dep_endpoints D) =
      Inr (map (\<lambda>e. map print_field (endpoint_fields e)) (dep_endpoints D))"
    using assms by (intro mapE_pure header_members_print) (simp add: list_all_iff)
  have concats: "concat (map (\<lambda>e. map print_field (endpoint_fields e)) es) =
      map print_field (concat (map endpoint_fields es))" for es
    by (induction es) simp_all
  have field: "print_field (t, n) = ''  '' @ t @ '' '' @ n @ '';''" for t n
    by (simp add: print_field_def)
  have "map print_field (context_fields D) =
      [''  rcl_node_t node;''] @ map print_field (concat (map endpoint_fields (dep_endpoints D)))
      @ [''  rclc_executor_t executor;'', ''  bool node_initialized;'']
      @ map (\<lambda>e. ''  bool '' @ member e @ ''_initialized;'') (dep_endpoints D)
      @ [''  bool executor_initialized;'']"
    unfolding context_fields_def by (simp add: field comp_def)
  then show ?thesis
    unfolding generate_header_def print_header_def mapE_split_type [OF assms]
      mapE_get_callback [OF assms] members bindE_simps concats
    by (simp add: header_callbacks_def header_includes_def comp_def)
qed

section \<open>Distinct field names\<close>

definition plain_id :: "endpoint \<Rightarrow> bool" where
  "plain_id e \<longleftrightarrow> \<not> endswith (ep_id e) ''_message'' \<and> \<not> endswith (ep_id e) ''_initialized''"

lemma kind_cases:
  assumes "wf_endpoint e"
  shows "member e = ''publisher_'' @ ep_id e \<and> \<not> is_subscription e \<or>
    member e = ''subscription_'' @ ep_id e \<and> is_subscription e"
  using assms by (auto simp: wf_endpoint_def member_def is_subscription_def)

lemma members_distinct:
  assumes "wf_endpoint e" "wf_endpoint e'" "ep_id e \<noteq> ep_id e'"
  shows "member e \<noteq> member e'"
  using kind_cases [OF assms(1)] kind_cases [OF assms(2)] assms(3) by auto

lemma member_not_message:
  assumes "wf_endpoint e" "plain_id e"
  shows "member e \<noteq> message_member e'"
  using kind_cases [OF assms(1)] assms(2)
  by (auto simp: message_member_def plain_id_def endswith_iff)

lemma member_not_initialized:
  assumes "wf_endpoint e" "wf_endpoint e'" "plain_id e"
  shows "member e \<noteq> member e' @ ''_initialized''"
  using kind_cases [OF assms(1)] kind_cases [OF assms(2)] assms(3)
  by (auto simp: plain_id_def endswith_iff)

lemma message_not_initialized: "message_member e \<noteq> member e' @ ''_initialized''"
proof
  assume "message_member e = member e' @ ''_initialized''"
  then have "last (message_member e) = last (member e' @ ''_initialized'')" by simp
  then show False by (simp add: message_member_def)
qed

lemma fixed_members:
  assumes "wf_endpoint e"
  shows "member e \<notin> {''node'', ''executor'', ''node_initialized'', ''executor_initialized''}"
    "message_member e \<notin> {''node'', ''executor'', ''node_initialized'', ''executor_initialized''}"
    "member e @ ''_initialized'' \<notin> {''node'', ''executor'', ''node_initialized'', ''executor_initialized''}"
  using kind_cases [OF assms] by (auto simp: message_member_def)

lemma endpoint_field_names:
  "map snd (endpoint_fields e) = member e # (if is_subscription e then [message_member e] else [])"
  by (simp add: endpoint_fields_def)

lemma distinct_endpoint_names:
  assumes "list_all wf_endpoint es" "list_all plain_id es" "distinct (map ep_id es)"
  shows "distinct (concat (map (\<lambda>e. map snd (endpoint_fields e)) es))"
  using assms
proof (induction es)
  case (Cons e es)
  have "member e \<noteq> member e' \<and> member e \<noteq> message_member e' \<and> message_member e \<noteq> member e' \<and>
      message_member e \<noteq> message_member e'" if "e' \<in> set es" for e'
  proof -
    have "wf_endpoint e" "wf_endpoint e'" "plain_id e" "plain_id e'" "ep_id e \<noteq> ep_id e'"
      using Cons.prems that by (auto simp: list_all_iff)
    then show ?thesis
      using members_distinct [of e e'] member_not_message [of e e'] member_not_message [of e' e]
      by (auto simp: message_member_def)
  qed
  moreover have "member e \<noteq> message_member e"
    using Cons.prems member_not_message by simp
  ultimately show ?case
    using Cons by (auto simp: endpoint_field_names split: if_splits)
qed simp

lemma distinct_initialized_names:
  assumes "list_all wf_endpoint es" "distinct (map ep_id es)"
  shows "distinct (map (\<lambda>e. member e @ ''_initialized'') es)"
  using assms
proof (induction es)
  case (Cons e es)
  then show ?case using members_distinct [of e] by (auto simp: list_all_iff image_iff)
qed simp

lemma context_field_names:
  "map snd (context_fields D) =
     [''node''] @ concat (map (\<lambda>e. map snd (endpoint_fields e)) (dep_endpoints D))
     @ [''executor'', ''node_initialized'']
     @ map (\<lambda>e. member e @ ''_initialized'') (dep_endpoints D) @ [''executor_initialized'']"
  by (simp add: context_fields_def map_concat comp_def)

lemma distinct_context_fields:
  assumes "list_all wf_endpoint (dep_endpoints D)" "list_all plain_id (dep_endpoints D)"
    "distinct (map ep_id (dep_endpoints D))"
  shows "distinct (map snd (context_fields D))"
proof -
  let ?es = "dep_endpoints D"
  let ?A = "concat (map (\<lambda>e. map snd (endpoint_fields e)) ?es)"
  let ?C = "map (\<lambda>e. member e @ ''_initialized'') ?es"
  let ?F = "{''node'', ''executor'', ''node_initialized'', ''executor_initialized''}"
  have A: "x \<in> set ?A \<Longrightarrow> \<exists>e \<in> set ?es. x = member e \<or> x = message_member e" for x
    by (auto simp: endpoint_field_names split: if_splits)
  have wf: "e \<in> set ?es \<Longrightarrow> wf_endpoint e \<and> plain_id e" for e
    using assms by (auto simp: list_all_iff)
  have "set ?A \<inter> ?F = {}" "set ?C \<inter> ?F = {}"
    using A wf fixed_members by (fastforce, fastforce)
  moreover have "set ?A \<inter> set ?C = {}"
  proof (intro equals0I)
    fix x assume "x \<in> set ?A \<inter> set ?C"
    then have "x \<in> set ?A" and "x \<in> set ?C" by (rule IntD1, rule IntD2)
    from \<open>x \<in> set ?C\<close> obtain e' where "e' \<in> set ?es" "x = member e' @ ''_initialized''" by auto
    moreover from A [OF \<open>x \<in> set ?A\<close>] obtain e where "e \<in> set ?es"
      "x = member e \<or> x = message_member e" by blast
    ultimately show False
      using wf member_not_initialized [of e e'] message_not_initialized [of e e'] by auto
  qed
  ultimately show ?thesis
    unfolding context_field_names
    using distinct_endpoint_names [OF assms] distinct_initialized_names [OF assms(1,3)]
    by (auto simp del: set_concat set_map)
qed

section \<open>Properties\<close>

text \<open>
  Property C15. On every well-formed deployment whose endpoint ids do not end in \<open>_message\<close> or
  \<open>_initialized\<close>, the header declares a structure whose member names are distinct: the
  generated type compiles.
\<close>

theorem generated_members_distinct:
  assumes "wf_deployment D" and "list_all plain_id (dep_endpoints D)"
  shows "generate_header D = Inr (join nl (print_header D)) \<and> distinct (map snd (context_fields D))"
  using assms generate_header_print distinct_context_fields unfolding wf_deployment_def by blast

theorem generated_members_distinct_witness:
  "distinct (map snd (context_fields example_deployment))"
proof -
  have "list_all plain_id (dep_endpoints example_deployment)"
    by (simp add: example_deployment_def example_publisher_def example_subscription_def plain_id_def
        endswith_def)
  from generated_members_distinct [OF example_wf this] show ?thesis by blast
qed

text \<open>
  The condition on the ids is needed: two subscriptions \<open>a\<close> and \<open>a_message\<close> make a well-formed
  deployment whose generated structure has two members \<open>subscription_a_message\<close>.
\<close>

definition clashing_deployment :: deployment where
  "clashing_deployment = example_deployment\<lparr>dep_endpoints :=
     [example_subscription\<lparr>ep_id := ''a''\<rparr>, example_subscription\<lparr>ep_id := ''a_message''\<rparr>]\<rparr>"

lemma clashing_members:
  "wf_deployment clashing_deployment \<and> \<not> distinct (map snd (context_fields clashing_deployment))"
proof
  have "wf_endpoint example_subscription"
    using example_wf by (simp add: wf_deployment_def example_deployment_def)
  then have "wf_endpoint (example_subscription\<lparr>ep_id := ''a''\<rparr>)"
    "wf_endpoint (example_subscription\<lparr>ep_id := ''a_message''\<rparr>)"
    by (simp_all add: wf_endpoint_def is_lower_identifier_def ident_ok_def in_cls_def lower_alpha_def
        lower_alnum_us_def split: option.splits)
  with example_wf show "wf_deployment clashing_deployment"
    by (simp add: wf_deployment_def clashing_deployment_def example_deployment_def)
  have "example_subscription\<lparr>ep_id := i\<rparr> = \<lparr>ep_id = i, ep_kind = ''subscription'',
      ep_topic = ''/command'', ep_type = ''std_msgs/msg/UInt32'', ep_callback = Some ''on_command'',
      ep_qos = ep_qos example_subscription\<rparr>" for i
    by (simp add: example_subscription_def)
  then show "\<not> distinct (map snd (context_fields clashing_deployment))"
    by (simp add: context_fields_def clashing_deployment_def endpoint_fields_def is_subscription_def
        message_member_def member_def)
qed

end
