(* ===== verification/Deployment_Compile.thy ===== *)
theory Deployment_Compile
  imports Deployment_Header
begin

text \<open>
  \<open>load_json\<close>, \<open>compile_deployment\<close> and \<open>main\<close> of \<open>src/tools/compile_deployment.py\<close>. The file
  system is a parameter: what reading a path gives, and whether creating a directory or writing a
  file fails. The effects on it are returned as a log, in the order they happen.
\<close>

section \<open>The file system\<close>

text \<open>
  Reading a path can fail because the file cannot be read (\<open>OSError\<close>) or its bytes are not UTF-8
  (\<open>UnicodeDecodeError\<close>); otherwise \<open>json.loads\<close> gets the text. The strings are the texts of the exceptions.
\<close>

datatype read_result = Unreadable string | NotUtf8 | Loads loads_result

abbreviation Document :: "json \<Rightarrow> read_result" where "Document v \<equiv> Loads (Json_document v)"

text \<open>Writing a text fails with an \<open>OSError\<close>, or because a character of it has no UTF-8 encoding.\<close>

datatype write_failure = Write_failed string | Not_encodable

fun write_exception :: "write_failure \<Rightarrow> pyexn" where
  "write_exception (Write_failed err) = OSError err"
| "write_exception Not_encodable = UnicodeEncodeError"

record world =
  reads :: "string \<Rightarrow> read_result"
  mkdir_error :: "string \<Rightarrow> string option"
  write_error :: "string \<Rightarrow> write_failure option"

datatype effect = Mkdir string | WriteText string string

section \<open>The tool\<close>

definition load_json :: "world \<Rightarrow> string \<Rightarrow> dict res" where
  "load_json w path =
     (case reads w path of
        Unreadable err \<Rightarrow> reject ''E_INPUT'' (''cannot read '' @ path @ '': '' @ err)
      | NotUtf8 \<Rightarrow> Inl UnicodeDecodeError
      | Loads (Json_decode_error err) \<Rightarrow> reject ''E_INPUT'' (''cannot read '' @ path @ '': '' @ err)
      | Loads (Json_value_error err) \<Rightarrow> Inl (ValueError err)
      | Loads Json_too_deep \<Rightarrow> Inl RecursionError
      | Loads (Json_document v) \<Rightarrow> require_object v path)"

text \<open>The plan document that later tools read.\<close>

definition plan_dict :: "string \<Rightarrow> dict \<Rightarrow> dict \<Rightarrow> dict" where
  "plan_dict backend document capability =
     [(''schema_version'', JInt 2), (''backend'', JStr backend),
      (''deployment'', JObj document), (''capability'', JObj capability)]"

definition outputs :: "deployment \<Rightarrow> dict \<Rightarrow> dict \<Rightarrow> string \<Rightarrow> (string \<times> string) list res" where
  "outputs D document capability backend =
     bindE (generate_header D) (\<lambda>header.
     bindE (generate_source D backend) (\<lambda>source.
     bindE (generate_config D backend) (\<lambda>config.
     bindE (generate_features D) (\<lambda>features.
     bindE (generate_report D capability backend) (\<lambda>report.
     Inr [(''generated_ros_init.h'', header),
          (''generated_ros_init.c'', source),
          (''generated_ros2_zephyr.conf'', config),
          (''generated_features.cmake'', features),
          (''deployment-plan.json'', dumps_sorted (JObj (plan_dict backend document capability)) @ nl),
          (''deployment-report.md'', report)])))))"

text \<open>The writing loop stops at the first file that cannot be written.\<close>

fun write_all :: "world \<Rightarrow> string \<Rightarrow> (string \<times> string) list \<Rightarrow> effect list \<times> unit res" where
  "write_all w dir [] = ([], Inr ())"
| "write_all w dir ((name, content) # rest) =
     (case write_error w (path_join dir name) of
        Some err \<Rightarrow> ([], Inl (write_exception err))
      | None \<Rightarrow>
          (let (log, r) = write_all w dir rest
           in (WriteText (path_join dir name) content # log, r)))"

text \<open>
  The checks that come before the first effect. The typed reading exists for every document that
  the validator accepts.
\<close>

definition check_inputs ::
  "world \<Rightarrow> string \<Rightarrow> string \<Rightarrow> string \<Rightarrow> (dict \<times> deployment \<times> dict) res" where
  "check_inputs w deployment_path backend capability_dir =
     bindE (load_json w deployment_path) (\<lambda>raw.
     bindE (validate_deployment raw) (\<lambda>document.
     bindE (load_json w (path_join capability_dir (backend @ ''.json''))) (\<lambda>capability.
     case deployment_of document of
       None \<Rightarrow> Inl TypeError
     | Some D \<Rightarrow>
         bindE (validate_capabilities D capability backend) (\<lambda>_.
         Inr (document, D, capability)))))"

definition compile_deployment ::
  "world \<Rightarrow> string \<Rightarrow> string \<Rightarrow> string \<Rightarrow> string \<Rightarrow> effect list \<times> unit res" where
  "compile_deployment w deployment_path backend capability_dir output_dir =
     (case check_inputs w deployment_path backend capability_dir of
        Inl e \<Rightarrow> ([], Inl e)
      | Inr (document, D, capability) \<Rightarrow>
          (case mkdir_error w output_dir of
             Some err \<Rightarrow> ([], Inl (OSError err))
           | None \<Rightarrow>
               (case outputs D document capability backend of
                  Inl e \<Rightarrow> ([Mkdir output_dir], Inl e)
                | Inr files \<Rightarrow>
                    (let (log, r) = write_all w output_dir files in (Mkdir output_dir # log, r)))))"

text \<open>\<open>main\<close> on parsed arguments: the log, the text on standard error, the exit status.\<close>

record compile_args =
  arg_deployment :: string
  arg_backend :: string
  arg_capabilities_dir :: string
  arg_output_dir :: string

definition main :: "world \<Rightarrow> compile_args \<Rightarrow> effect list \<times> string \<times> int res" where
  "main w args =
     (case compile_deployment w (arg_deployment args) (arg_backend args) (arg_capabilities_dir args)
             (arg_output_dir args) of
        (log, Inr _) \<Rightarrow> (log, [], Inr 0)
      | (log, Inl e) \<Rightarrow>
          (case e of
             DeploymentError code message \<Rightarrow> (log, code @ '': '' @ message @ nl, Inr 2)
           | _ \<Rightarrow> (log, [], Inl e)))"

section \<open>The generators are total on accepted deployments\<close>

lemma generate_features_ok:
  assumes "wf_deployment D"
  shows "\<exists>t. generate_features D = Inr t"
  using assms by (simp add: generate_features_def wf_deployment_def mapE_split_type)

lemma generate_config_ok:
  assumes "backend \<in> set SUPPORTED_BACKENDS"
  shows "\<exists>t. generate_config D backend = Inr t"
  using assms by (auto simp: generate_config_def backend_symbol_def SUPPORTED_BACKENDS_def)

lemma generate_header_ok: "wf_deployment D \<Longrightarrow> \<exists>t. generate_header D = Inr t"
  by (simp add: generate_header_print wf_deployment_def)

lemma generate_source_ok: "wf_deployment D \<Longrightarrow> \<exists>t. generate_source D backend = Inr t"
  by (simp add: generate_source_print wf_deployment_def)

definition capability_reports :: "dict \<Rightarrow> bool" where
  "capability_reports capability \<longleftrightarrow>
     (\<exists>d v. map_of capability ''runtime_allocation'' = Some (JObj d) \<and>
        map_of d ''ros_after_executor_prepare'' = Some v)"

lemma generate_report_ok:
  "(\<exists>t. generate_report D capability backend = Inr t) \<longleftrightarrow> capability_reports capability"
  by (auto simp: generate_report_def capability_reports_def bindE_eq_Inr getitem_eq_Inr
      subscript_eq_Inr Let_def)

lemma generate_report_raises:
  "raises_only (\<lambda>e. (\<exists>k. e = KeyError k) \<or> e = TypeError) (generate_report D capability backend)"
  unfolding generate_report_def Let_def
  by (intro raises_only_bindE)
     (auto simp: getitem_def subscript_def split: option.splits json.splits)

lemma outputs_iff:
  assumes "wf_deployment D" and "backend \<in> set (dep_rmw D)"
  shows "(\<exists>files. outputs D document capability backend = Inr files) \<longleftrightarrow> capability_reports capability"
proof -
  have "backend \<in> set SUPPORTED_BACKENDS" using assms by (auto simp: wf_deployment_def)
  then obtain a b c d where "generate_header D = Inr a" "generate_source D backend = Inr b"
    "generate_config D backend = Inr c" "generate_features D = Inr d"
    using generate_header_ok generate_source_ok generate_config_ok generate_features_ok assms(1)
    by meson
  then show ?thesis
    unfolding outputs_def by (simp add: bindE_eq_Inr flip: generate_report_ok [of D capability backend])
qed

lemma outputs_raises:
  assumes "wf_deployment D" and "backend \<in> set (dep_rmw D)"
  shows "raises_only (\<lambda>e. (\<exists>k. e = KeyError k) \<or> e = TypeError)
    (outputs D document capability backend)"
proof -
  have "backend \<in> set SUPPORTED_BACKENDS" using assms by (auto simp: wf_deployment_def)
  then obtain a b c d where "generate_header D = Inr a" "generate_source D backend = Inr b"
    "generate_config D backend = Inr c" "generate_features D = Inr d"
    using generate_header_ok generate_source_ok generate_config_ok generate_features_ok assms(1)
    by meson
  then show ?thesis
    unfolding outputs_def bindE_simps by (simp add: raises_only_bindE generate_report_raises)
qed

lemma outputs_names:
  "outputs D document capability backend = Inr files \<Longrightarrow> map fst files =
     [''generated_ros_init.h'', ''generated_ros_init.c'', ''generated_ros2_zephyr.conf'',
      ''generated_features.cmake'', ''deployment-plan.json'', ''deployment-report.md'']"
  by (auto simp: outputs_def bindE_eq_Inr)

section \<open>Effects\<close>

definition written :: "string \<Rightarrow> (string \<times> string) list \<Rightarrow> effect list" where
  "written dir files = map (\<lambda>(name, content). WriteText (path_join dir name) content) files"

lemma write_all_ok:
  "write_all w dir files = (log, Inr ()) \<longleftrightarrow>
     log = written dir files \<and> (\<forall>name \<in> fst ` set files. write_error w (path_join dir name) = None)"
proof (induction files arbitrary: log)
  case Nil
  then show ?case by (auto simp: written_def)
next
  case (Cons f files)
  obtain name content where f: "f = (name, content)" by (cases f)
  obtain log' r where rest: "write_all w dir files = (log', r)" by (cases "write_all w dir files")
  from Cons.IH [of log'] Cons.IH [of "written dir files"] rest show ?case
    by (auto simp: f written_def split: option.splits)
qed

lemma write_all_error:
  "write_all w dir files = (log, Inl e) \<Longrightarrow> \<exists>err. e = write_exception err"
  by (induction files arbitrary: log) (auto split: option.splits prod.splits)

lemma check_inputs_ok:
  "check_inputs w path backend capdir = Inr (document, D, capability) \<longleftrightarrow>
     reads w path = Document (JObj document) \<and> validate_deployment document = Inr document \<and>
     deployment_of document = Some D \<and>
     reads w (path_join capdir (backend @ ''.json'')) = Document (JObj capability) \<and>
     supports capability backend D"
proof -
  have load: "load_json w p = Inr d \<longleftrightarrow> reads w p = Document (JObj d)" for p d
    by (auto simp: load_json_def reject_def require_object_def split: read_result.splits loads_result.splits json.splits)
  show ?thesis
    unfolding check_inputs_def validate_capabilities_ok [symmetric]
    by (auto simp: bindE_eq_Inr load validate_deployment_ok split: option.splits)
qed

lemma compile_deployment_ok:
  "compile_deployment w path backend capdir outdir = (log, Inr ()) \<longleftrightarrow>
     (\<exists>document D capability files.
        check_inputs w path backend capdir = Inr (document, D, capability) \<and>
        outputs D document capability backend = Inr files \<and>
        mkdir_error w outdir = None \<and>
        (\<forall>name \<in> fst ` set files. write_error w (path_join outdir name) = None) \<and>
        log = Mkdir outdir # written outdir files)"
proof -
  have "(let (log', r) = write_all w outdir files in (Mkdir outdir # log', r)) = (log, Inr ()) \<longleftrightarrow>
      (\<forall>name \<in> fst ` set files. write_error w (path_join outdir name) = None) \<and>
      log = Mkdir outdir # written outdir files" for files
    using write_all_ok [of w outdir files "tl log"] by (cases log) (auto simp: case_prod_beta prod_eq_iff)
  then show ?thesis
    unfolding compile_deployment_def
    by (cases "check_inputs w path backend capdir"; cases "mkdir_error w outdir")
       (auto split: sum.splits)
qed

lemma check_inputs_view:
  assumes "check_inputs w path backend capdir = Inr (document, D, capability)"
  shows "wf_deployment D \<and> backend \<in> set (dep_rmw D) \<and> conforms deployment_schema (JObj document)"
proof -
  from assms have v: "validate_deployment document = Inr document" "deployment_of document = Some D"
    "supports capability backend D"
    by (simp_all add: check_inputs_ok)
  from validate_deployment_view [OF v(1)] v(2) have "wf_deployment D" by auto
  moreover have "conforms deployment_schema (JObj document)"
    by (rule validate_deployment_conforms [OF v(1)])
  ultimately show ?thesis using v(3) by (simp add: supports_def)
qed

lemma check_inputs_spec:
  "check_inputs w path backend capdir = Inr (document, D, capability) \<longleftrightarrow>
     reads w path = Document (JObj document) \<and> conforms deployment_schema (JObj document) \<and>
     deployment_of document = Some D \<and> wf_deployment D \<and>
     reads w (path_join capdir (backend @ ''.json'')) = Document (JObj capability) \<and>
     supports capability backend D"
  (is "?L \<longleftrightarrow> ?R")
proof
  assume ?L
  with check_inputs_view [OF this] show ?R by (simp add: check_inputs_ok)
next
  assume ?R
  with validate_deployment_complete [of document D] show ?L by (simp add: check_inputs_ok)
qed

lemma outputs_reports:
  assumes "outputs D document capability backend = Inr files"
  shows "capability_reports capability"
  using assms unfolding outputs_def generate_report_ok [of D _ backend, symmetric]
  by (auto simp: bindE_eq_Inr)



lemma compile_deployment_error:
  assumes "compile_deployment w path backend capdir outdir = (log, Inl e)"
  shows "check_inputs w path backend capdir = Inl e \<and> log = [] \<or>
    (\<exists>err. e = OSError err) \<or> e = UnicodeEncodeError \<or> (\<exists>k. e = KeyError k) \<or> e = TypeError"
proof (cases "check_inputs w path backend capdir")
  case (Inl e')
  with assms show ?thesis by (simp add: compile_deployment_def)
next
  case (Inr x)
  obtain document D capability where x: "x = (document, D, capability)" by (cases x)
  from check_inputs_view [OF Inr [unfolded x]] have wf: "wf_deployment D" "backend \<in> set (dep_rmw D)"
    by blast+
  show ?thesis
  proof (cases "mkdir_error w outdir")
    case None
    show ?thesis
    proof (cases "outputs D document capability backend")
      case (Inl e')
      with outputs_raises [OF wf, of document capability] assms Inr x None show ?thesis
        by (auto simp: compile_deployment_def)
    next
      case (Inr files)
      with assms \<open>check_inputs w path backend capdir = Inr x\<close> x None
      have "snd (write_all w outdir files) = Inl e"
        by (auto simp: compile_deployment_def case_prod_beta)
      then have "write_all w outdir files = (fst (write_all w outdir files), Inl e)"
        by (metis prod.collapse)
      from write_all_error [OF this] obtain err where "e = write_exception err" by blast
      then show ?thesis by (cases err) simp_all
    qed
  qed (use assms Inr x in \<open>auto simp: compile_deployment_def\<close>)
qed

section \<open>Properties\<close>

text \<open>The capability document \<open>src/capabilities/rmw_cyclonedds_c.json\<close>, and a world that holds it.\<close>

definition cyclonedds_capability :: dict where
  "cyclonedds_capability =
     [(''schema_version'', JInt 1), (''backend'', JStr ''rmw_cyclonedds_c''),
      (''message_profiles'', JArr [JStr ''fixed_size'']),
      (''qos'', JObj
         [(''reliability'', JArr [JStr ''best_effort'', JStr ''reliable'']),
          (''durability'', JArr [JStr ''volatile'', JStr ''transient_local'']),
          (''history'', JArr [JStr ''keep_last'']),
          (''depth'', JObj [(''minimum'', JInt 1), (''maximum'', JInt 32)])]),
      (''graph'', JObj
         [(''outbound'', JBool True), (''inbound'', JBool True),
          (''api'', JArr [JStr ''node_names'', JStr ''publishers_info_by_topic'',
             JStr ''subscriptions_info_by_topic'', JStr ''topic_names_and_types''])]),
      (''endpoint_lifetime'', JArr [JStr ''fixed_startup'']),
      (''services'', JBool False), (''actions'', JBool False),
      (''runtime_allocation'', JObj
         [(''ros_after_executor_prepare'', JBool False),
          (''middleware_after_executor_prepare'', JBool True)]),
      (''workers'', JObj [(''minimum'', JInt 5),
         (''configuration'', JStr ''CONFIG_ROS2_ZEPHYR_CYCLONEDDS_THREAD_COUNT'')]),
      (''peer_compatibility'', JArr [JStr ''stock ROS 2 rmw_cyclonedds_cpp'']),
      (''reconnection'', JStr ''DDS discovery retries after interface recovery'')]"

definition example_world :: world where
  "example_world = \<lparr>
     reads = (\<lambda>p. if p = ''d.json'' then Document (JObj (deployment_json example_deployment))
        else if p = ''caps/rmw_cyclonedds_c.json'' then Document (JObj cyclonedds_capability)
        else Unreadable ''No such file''),
     mkdir_error = (\<lambda>_. None), write_error = (\<lambda>_. None)\<rparr>"

definition example_args :: compile_args where
  "example_args = \<lparr>arg_deployment = ''d.json'', arg_backend = ''rmw_cyclonedds_c'',
     arg_capabilities_dir = ''caps'', arg_output_dir = ''out''\<rparr>"

lemma example_supported: "supports cyclonedds_capability ''rmw_cyclonedds_c'' example_deployment"
  unfolding supports_def supports_graph_def supports_qos_def offers_def
  by (simp add: cyclonedds_capability_def example_deployment_def example_publisher_def
      example_subscription_def dict_get_def dict_get_default_def eq_int_def str_in_def str_set_def
      hashable_def strs_def qos_policies_def truthy_def)

lemma example_inputs:
  "check_inputs example_world ''d.json'' ''rmw_cyclonedds_c'' ''caps'' =
     Inr (deployment_json example_deployment, example_deployment, cyclonedds_capability)"
  unfolding check_inputs_ok
  using example_supported validate_deployment_json [OF example_wf] deployment_of_json
  by (simp add: example_world_def path_join_def startswith_def endswith_def)

text \<open>
  Property C12. With a file system on which nothing fails, the compiler exits with status 0 exactly
  when both documents can be read, the deployment is valid, the backend supports it and its
  capability document says what it allocates; the effects are then the output directory and the
  six files of \<open>outputs\<close>, and nothing goes to standard error.
\<close>

theorem main_success:
  assumes "\<And>p. mkdir_error w p = None" and "\<And>p. write_error w p = None"
  shows "main w args = (log, err, Inr 0) \<longleftrightarrow>
    err = [] \<and>
    (\<exists>document D capability files.
       reads w (arg_deployment args) = Document (JObj document) \<and>
       conforms deployment_schema (JObj document) \<and>
       deployment_of document = Some D \<and> wf_deployment D \<and>
       reads w (path_join (arg_capabilities_dir args) (arg_backend args @ ''.json'')) =
         Document (JObj capability) \<and>
       supports capability (arg_backend args) D \<and> capability_reports capability \<and>
       outputs D document capability (arg_backend args) = Inr files \<and>
       log = Mkdir (arg_output_dir args) # written (arg_output_dir args) files)"
    (is "?L \<longleftrightarrow> ?R")
proof -
  have "?L \<longleftrightarrow> err = [] \<and> compile_deployment w (arg_deployment args) (arg_backend args)
      (arg_capabilities_dir args) (arg_output_dir args) = (log, Inr ())"
    unfolding main_def by (auto split: prod.splits sum.splits pyexn.splits)
  also have "\<dots> \<longleftrightarrow> ?R"
    unfolding compile_deployment_ok check_inputs_spec
    by (rule conj_cong [OF refl], rule ex_cong1, rule ex_cong1, rule ex_cong1, rule ex_cong1)
       (auto simp: assms dest: outputs_reports)
  finally show ?thesis .
qed

theorem main_success_witness:
  "\<exists>log. main example_world example_args = (log, [], Inr 0) \<and> hd log = Mkdir ''out''"
proof -
  have fs: "mkdir_error example_world p = None" "write_error example_world p = None" for p
    by (simp_all add: example_world_def)
  have rep: "capability_reports cyclonedds_capability"
    by (simp add: capability_reports_def cyclonedds_capability_def)
  from check_inputs_view [OF example_inputs] outputs_iff rep obtain files where
    "outputs example_deployment (deployment_json example_deployment) cyclonedds_capability
       ''rmw_cyclonedds_c'' = Inr files" by blast
  note files = this
  note inputs = example_inputs [unfolded check_inputs_spec]
  have args: "arg_deployment example_args = ''d.json''" "arg_output_dir example_args = ''out''"
    "arg_backend example_args = ''rmw_cyclonedds_c''" "arg_capabilities_dir example_args = ''caps''"
    by (simp_all add: example_args_def)
  have "main example_world example_args = (Mkdir ''out'' # written ''out'' files, [], Inr 0)"
    unfolding main_success [OF fs] args using inputs rep files by blast
  then show ?thesis by simp
qed

text \<open>
  An input that the compiler refuses (exit status 2) leaves the file system as it
  was: no directory is made and no file is written; the diagnostic is one line with the error's
  code.
\<close>

lemma main_rejection_has_no_effect:
  assumes "main w args = (log, err, Inr 2)"
  shows "log = [] \<and> (\<exists>code msg. err = code @ '': '' @ msg @ nl)"
proof -
  obtain log' r where c: "compile_deployment w (arg_deployment args) (arg_backend args)
      (arg_capabilities_dir args) (arg_output_dir args) = (log', r)"
    by (cases "compile_deployment w (arg_deployment args) (arg_backend args)
      (arg_capabilities_dir args) (arg_output_dir args)")
  with assms obtain code msg where r: "r = Inl (DeploymentError code msg)" "log' = log"
    "err = code @ '': '' @ msg @ nl"
    by (auto simp: main_def split: sum.splits pyexn.splits)
  from compile_deployment_error [OF c [unfolded r]] r(3) show ?thesis by auto
qed



end
