(* ===== verification/Resource_Admission.thy ===== *)
theory Resource_Admission
  imports Resource_Plan Deployment_Compile
begin

text \<open>
  What the pre-link plan decides on the plan document of an accepted deployment: it is produced
  whenever the deployment has a budget for the target, and its status is \<open>PASS\<close> exactly when the
  configuration meets the arithmetic contract \<open>admits\<close>.
\<close>

section \<open>The contract\<close>

definition within :: "int \<Rightarrow> int option \<Rightarrow> bool" where
  "within required available = (case available of None \<Rightarrow> False | Some a \<Rightarrow> required \<le> a)"

definition reserved_ram :: "kconfig \<Rightarrow> string \<Rightarrow> int \<Rightarrow> int" where
  "reserved_ram config backend worker_count =
     (let get = (\<lambda>key. case integer_config config key of None \<Rightarrow> 0 | Some v \<Rightarrow> v) in
      get ''CONFIG_MAIN_STACK_SIZE'' + get ''CONFIG_IDLE_STACK_SIZE''
      + get ''CONFIG_SYSTEM_WORKQUEUE_STACK_SIZE''
      + (if backend = ''rmw_cyclonedds_c''
         then worker_count * get ''CONFIG_ROS2_ZEPHYR_CYCLONEDDS_THREAD_STACK_SIZE'' else 0)
      + get ''CONFIG_HEAP_MEM_POOL_SIZE''
      + max 0 (get ''CONFIG_COMMON_LIBC_MALLOC_ARENA_SIZE''))"

definition configured_workers :: "kconfig \<Rightarrow> string \<Rightarrow> int \<Rightarrow> int option" where
  "configured_workers config backend minimum =
     (if backend = ''rmw_cyclonedds_c''
      then integer_config config ''CONFIG_ROS2_ZEPHYR_CYCLONEDDS_THREAD_COUNT'' else Some minimum)"

definition stack_workers :: "int option \<Rightarrow> int \<Rightarrow> int" where
  "stack_workers configured minimum =
     (case configured of None \<Rightarrow> minimum | Some n \<Rightarrow> if n = 0 then minimum else n)"

definition admits :: "deployment \<Rightarrow> kconfig \<Rightarrow> string \<Rightarrow> int \<Rightarrow> budget \<Rightarrow> bool" where
  "admits D config backend minimum b \<longleftrightarrow>
     (let n = int (length (dep_endpoints D));
          workers = configured_workers config backend minimum
      in
      n \<le> dep_local D \<and>
      within 1 (integer_config config ''CONFIG_ROS2_ZEPHYR_GRAPH_MAX_LOCAL_NODES'') \<and>
      within n (integer_config config ''CONFIG_ROS2_ZEPHYR_GRAPH_MAX_ENDPOINTS_PER_NODE'') \<and>
      list_all (\<lambda>(required, key). required = 0 \<or> within required (integer_config config key))
        [(dep_participants D, ''CONFIG_ROS2_ZEPHYR_GRAPH_CACHE_MAX_PARTICIPANTS''),
         (dep_nodes D, ''CONFIG_ROS2_ZEPHYR_GRAPH_CACHE_MAX_NODES''),
         (dep_remote_endpoints D, ''CONFIG_ROS2_ZEPHYR_GRAPH_CACHE_MAX_ENDPOINTS'')] \<and>
      within minimum workers \<and>
      (case workers of None \<Rightarrow> False | Some w \<Rightarrow> w \<le> dep_workers D) \<and>
      reserved_ram config backend (stack_workers workers minimum) + dep_reserve D \<le> bud_ram b)"

section \<open>Evaluation of the checks\<close>

definition verdict :: "bool \<Rightarrow> string" where
  "verdict b = (if b then ''PASS'' else ''FAIL'')"

lemma make_check_int:
  "make_check i c (JInt r) (JInt a) d = Inr (check_row i c (JInt r) (JInt a) (verdict (r \<le> a)) d)"
  by (simp add: make_check_def json_le_def num_val_def verdict_def)

lemma make_check_opt:
  "make_check i c (JInt r) (opt_json v) d =
     Inr (check_row i c (JInt r) (opt_json v) (verdict (within r v)) d)"
proof (cases v)
  case None
  then show ?thesis by (simp add: opt_json_def within_def make_check_def verdict_def)
next
  case (Some a)
  then show ?thesis by (simp add: make_check_int opt_json_def within_def)
qed

lemma status_of_simps [simp]:
  "status_of [] = ''PASS''"
  "status_of (check_row i c r a (verdict b) d # cs) = (if b then status_of cs else ''FAIL'')"
  by (simp_all add: status_of_def check_row_def dict_get_def verdict_def)

lemma status_of_pass_row [simp]: "status_of (check_row i c r a ''PASS'' d # cs) = status_of cs"
  using status_of_simps(2) [of i c r a True d cs] by (simp add: verdict_def)

lemma remote_check_int:
  assumes "map_of remote name = Some (JInt n)"
  shows "remote_check config remote (name, key) =
    Inr (check_row (''configured_remote_'' @ name @ ''_capacity'') ''E_RESOURCE_GRAPH_CAPACITY'' (JInt n)
      (opt_json (integer_config config key)) (verdict (n = 0 \<or> within n (integer_config config key)))
      (if n = 0 then ''deployment does not require inbound graph capacity''
       else ''declared remote '' @ name @ '' must fit '' @ key))"
  using assms
  by (simp add: remote_check_def dict_get_def int_of_def make_check_opt verdict_def Let_def)

lemma sum_opt:
  "sum_list (map snd (case v of None \<Rightarrow> [] | Some x \<Rightarrow> [(f x, g x)])) =
     (case v of None \<Rightarrow> 0 | Some x \<Rightarrow> g x)"
  by (cases v) simp_all

lemma stacks_sum:
  "sum_list (map snd (configured_stacks config)) =
     (case integer_config config ''CONFIG_MAIN_STACK_SIZE'' of None \<Rightarrow> 0 | Some v \<Rightarrow> v)
     + (case integer_config config ''CONFIG_IDLE_STACK_SIZE'' of None \<Rightarrow> 0 | Some v \<Rightarrow> v)
     + (case integer_config config ''CONFIG_SYSTEM_WORKQUEUE_STACK_SIZE'' of None \<Rightarrow> 0 | Some v \<Rightarrow> v)"
  unfolding configured_stacks_def stack_keys_def by (simp add: sum_opt)

lemma heaps_sum:
  "sum_list (map snd (configured_heaps config)) =
     (case integer_config config ''CONFIG_HEAP_MEM_POOL_SIZE'' of None \<Rightarrow> 0 | Some v \<Rightarrow> v)
     + max 0 (case integer_config config ''CONFIG_COMMON_LIBC_MALLOC_ARENA_SIZE'' of
         None \<Rightarrow> 0 | Some v \<Rightarrow> v)"
  unfolding configured_heaps_def by (auto split: option.split)

lemma reservations_total:
  "snd (snd (configured_reservations config backend (JInt n))) = reserved_ram config backend n"
  unfolding configured_reservations_def Let_def map_append sum_list_append stacks_sum heaps_sum
    reserved_ram_def snd_conv
  by (simp add: worker_stacks_def int_val_def int_of_def Let_def split: option.split)

section \<open>The plan of an accepted deployment\<close>

definition chosen_target :: "kconfig \<Rightarrow> deployment \<Rightarrow> string \<Rightarrow> string" where
  "chosen_target config D target =
     (case map_of config ''CONFIG_BOARD_TARGET'' of
        None \<Rightarrow> target
      | Some t \<Rightarrow> if t \<noteq> [] \<and> t \<in> set (map fst (dep_targets D)) then t else target)"

definition valid_sync :: "string \<Rightarrow> string \<Rightarrow> bool" where
  "valid_sync backend sync \<longleftrightarrow>
     backend \<noteq> ''rmw_cyclonedds_c'' \<or> sync \<in> {''posix'', ''zephyr-native'', ''not-applicable''}"

lemma map_of_targets:
  assumes "map_opt target_of rawts = Some ts"
  shows "map fst rawts = map fst ts"
    and "map_of ts t = Some b \<Longrightarrow> \<exists>v. map_of rawts t = Some v \<and> budget_of v = Some b"
    and "map_of ts t = None \<Longrightarrow> map_of rawts t = None"
  using assms unfolding map_opt_Some
  by (induction rawts ts rule: list_all2_induct) (auto simp: target_of_Some split: if_splits)

lemma chosen_target_eq:
  assumes "map_opt target_of rawts = Some (dep_targets D)"
  shows "select_target config (JObj rawts) target = chosen_target config D target"
  using map_of_targets(1) [OF assms]
  by (auto simp: select_target_def chosen_target_def split: option.splits)

lemma local_checks_int:
  assumes "map_of resources ''local_endpoints'' = Some (JInt n)"
  shows "\<exists>cs. local_checks config resources es = Inr cs \<and> (\<forall>rest. status_of (cs @ rest) =
    (if int (length es) \<le> n \<and>
        within 1 (integer_config config ''CONFIG_ROS2_ZEPHYR_GRAPH_MAX_LOCAL_NODES'') \<and>
        within (int (length es)) (integer_config config ''CONFIG_ROS2_ZEPHYR_GRAPH_MAX_ENDPOINTS_PER_NODE'')
     then status_of rest else ''FAIL''))"
  using assms
  by (simp add: local_checks_def dict_get_def int_of_def make_check_int make_check_opt Let_def)

lemma remote_checks_int:
  assumes "map_of resources ''remote'' = Some (JObj remote)"
    and "map_of remote ''participants'' = Some (JInt p)" "map_of remote ''nodes'' = Some (JInt n)"
      "map_of remote ''endpoints'' = Some (JInt e)"
  shows "\<exists>cs. remote_checks config resources = Inr (remote, cs) \<and> (\<forall>rest. status_of (cs @ rest) =
    (if list_all (\<lambda>(required, key). required = 0 \<or> within required (integer_config config key))
        [(p, ''CONFIG_ROS2_ZEPHYR_GRAPH_CACHE_MAX_PARTICIPANTS''),
         (n, ''CONFIG_ROS2_ZEPHYR_GRAPH_CACHE_MAX_NODES''),
         (e, ''CONFIG_ROS2_ZEPHYR_GRAPH_CACHE_MAX_ENDPOINTS'')]
     then status_of rest else ''FAIL''))"
  using assms
  by (simp add: remote_checks_def dict_get_def as_obj_def REMOTE_CONFIG_KEYS_def remote_check_int)
     blast

lemma worker_checks_int:
  "\<exists>cs. worker_checks (JInt m) (JInt k) (opt_json v) = Inr cs \<and> (\<forall>rest. status_of (cs @ rest) =
    (if within m v \<and> (case v of None \<Rightarrow> False | Some w \<Rightarrow> w \<le> k)
     then status_of rest else ''FAIL''))"
  by (cases v)
     (simp_all add: worker_checks_def make_check_opt make_check_int opt_json_def int_val_def int_of_def
       within_def make_check_opt [of _ _ _ None, unfolded opt_json_def, simplified]
       make_check_opt [of _ _ _ "Some a" for a, unfolded opt_json_def, simplified])

lemma plan_contract_ok:
  assumes "map_of document ''resources'' = Some (JObj r)" "map_of document ''endpoints'' = Some (JArr raws)"
    and "map_of r ''targets'' = Some (JObj rawts)" "map_opt target_of rawts = Some (dep_targets D)"
    and "valid_sync backend sync"
    and "map_of (dep_targets D) (chosen_target config D target) = Some b"
  shows "\<exists>bd. plan_contract (plan_dict backend document capability) config target sync =
      Inr \<lparr>c_deployment = document, c_capability = capability, c_backend = backend, c_resources = r,
        c_endpoints = raws, c_target = chosen_target config D target, c_budget = bd\<rparr> \<and>
    map_of bd ''flash_bytes'' = Some (JInt (bud_flash b)) \<and>
    map_of bd ''ram_bytes'' = Some (JInt (bud_ram b))"
proof -
  from map_of_targets(2) [OF assms(4,6)] obtain bd where
    bd: "map_of rawts (chosen_target config D target) = Some (JObj bd)"
      "map_of bd ''flash_bytes'' = Some (JInt (bud_flash b))"
      "map_of bd ''ram_bytes'' = Some (JInt (bud_ram b))"
    by (auto simp: budget_of_Some)
  have sync: "\<not> (backend = ''rmw_cyclonedds_c'' \<and>
      sync \<notin> set [''posix'', ''zephyr-native'', ''not-applicable''])"
    using assms(5) by (auto simp: valid_sync_def)
  show ?thesis
    unfolding plan_contract_def
    using assms(1-3) bd sync
    by (auto simp: plan_dict_def dict_get_def eq_int_def as_obj_def as_str_def as_arr_def Let_def
        chosen_target_eq [OF assms(4)])
qed

lemma worker_bounds_ok:
  assumes "map_of (c_capability c) ''workers'' = Some (JObj wk)" "map_of wk ''minimum'' = Some (JInt m)"
    and "map_of (c_resources c) ''workers'' = Some (JObj wr)" "map_of wr ''maximum'' = Some (JInt k)"
  shows "worker_bounds config c =
    Inr (JInt m, JInt k, opt_json (configured_workers config (c_backend c) m))"
  using assms
  by (simp add: worker_bounds_def dict_get_def as_obj_def int_of_def Let_def configured_workers_def
      opt_json_def)

lemma stack_workers_json:
  "(if truthy (opt_json v) then opt_json v else JInt m) = JInt (stack_workers v m)"
  by (simp add: opt_json_def stack_workers_def truthy_def split: option.splits)

lemma prelink_plan_decides:
  assumes "deployment_of document = Some D" and "valid_sync backend sync"
    and "map_of capability ''workers'' = Some (JObj wk)" "map_of wk ''minimum'' = Some (JInt m)"
    and "map_of (dep_targets D) (chosen_target config D target) = Some b"
  shows "\<exists>P. build_prelink_plan (plan_dict backend document capability) config target sync = Inr P \<and>
    map_of P ''status'' = Some (JStr (verdict (admits D config backend m b))) \<and>
    map_of P ''target'' = Some (JStr (chosen_target config D target)) \<and>
    map_of P ''backend'' = Some (JStr backend) \<and>
    map_of P ''budgets'' = Some (JObj [(''flash_bytes'', JInt (bud_flash b)), (''ram_bytes'', JInt (bud_ram b))]) \<and>
    (\<exists>planned. map_of P ''planned'' = Some (JObj planned) \<and> map_of planned ''application_reservations'' =
       Some (JObj [(''static_reserve_bytes'', JInt (dep_reserve D))]))"
proof -
  from assms(1) [unfolded deployment_of_Some] obtain raws r rem wr ap rawts where
    f: "map_of document ''endpoints'' = Some (JArr raws)" "map_of document ''resources'' = Some (JObj r)"
      "map_opt endpoint_of raws = Some (dep_endpoints D)" and
    r: "map_of r ''local_endpoints'' = Some (JInt (dep_local D))"
      "map_of r ''remote'' = Some (JObj rem)" "map_of rem ''participants'' = Some (JInt (dep_participants D))"
      "map_of rem ''nodes'' = Some (JInt (dep_nodes D))"
      "map_of rem ''endpoints'' = Some (JInt (dep_remote_endpoints D))"
      "map_of r ''workers'' = Some (JObj wr)" "map_of wr ''maximum'' = Some (JInt (dep_workers D))"
      "map_of r ''application'' = Some (JObj ap)"
      "map_of ap ''static_reserve_bytes'' = Some (JInt (dep_reserve D))"
      "map_of r ''targets'' = Some (JObj rawts)" "map_opt target_of rawts = Some (dep_targets D)"
    by blast
  have len: "length raws = length (dep_endpoints D)"
    using f(3) unfolding map_opt_Some by (simp add: list_all2_lengthD)
  let ?w = "configured_workers config backend m"
  obtain bd where c: "plan_contract (plan_dict backend document capability) config target sync =
      Inr \<lparr>c_deployment = document, c_capability = capability, c_backend = backend, c_resources = r,
        c_endpoints = raws, c_target = chosen_target config D target, c_budget = bd\<rparr>"
      "map_of bd ''flash_bytes'' = Some (JInt (bud_flash b))"
      "map_of bd ''ram_bytes'' = Some (JInt (bud_ram b))"
    using plan_contract_ok [OF f(2,1) r(10,11) assms(2,5)] by blast
  note lc = local_checks_int [OF r(1), of config raws]
  note rc = remote_checks_int [OF r(2-5), of config]
  note wc = worker_checks_int [of m "dep_workers D" ?w]
  from lc rc wc obtain cl cr cw where checks: "local_checks config r raws = Inr cl"
      "remote_checks config r = Inr (rem, cr)" "worker_checks (JInt m) (JInt (dep_workers D)) (opt_json ?w) = Inr cw"
    and status: "\<And>rest. status_of (cl @ rest) = (if int (length raws) \<le> dep_local D \<and>
        within 1 (integer_config config ''CONFIG_ROS2_ZEPHYR_GRAPH_MAX_LOCAL_NODES'') \<and>
        within (int (length raws)) (integer_config config ''CONFIG_ROS2_ZEPHYR_GRAPH_MAX_ENDPOINTS_PER_NODE'')
        then status_of rest else ''FAIL'')"
      "\<And>rest. status_of (cr @ rest) =
        (if list_all (\<lambda>(required, key). required = 0 \<or> within required (integer_config config key))
          [(dep_participants D, ''CONFIG_ROS2_ZEPHYR_GRAPH_CACHE_MAX_PARTICIPANTS''),
           (dep_nodes D, ''CONFIG_ROS2_ZEPHYR_GRAPH_CACHE_MAX_NODES''),
           (dep_remote_endpoints D, ''CONFIG_ROS2_ZEPHYR_GRAPH_CACHE_MAX_ENDPOINTS'')]
         then status_of rest else ''FAIL'')"
      "\<And>rest. status_of (cw @ rest) =
        (if within m ?w \<and> (case ?w of None \<Rightarrow> False | Some w \<Rightarrow> w \<le> dep_workers D)
         then status_of rest else ''FAIL'')"
    by blast
  obtain stacks heaps where res: "configured_reservations config backend (JInt (stack_workers ?w m)) =
      (stacks, heaps, reserved_ram config backend (stack_workers ?w m))"
    using reservations_total [of config backend "stack_workers ?w m"] by (metis prod.collapse)
  have wb: "worker_bounds config \<lparr>c_deployment = document, c_capability = capability, c_backend = backend,
      c_resources = r, c_endpoints = raws, c_target = chosen_target config D target, c_budget = bd\<rparr> =
      Inr (JInt m, JInt (dep_workers D), opt_json ?w)"
    by (subst worker_bounds_ok) (use assms(3,4) r(6,7) in simp_all)
  show ?thesis
    unfolding build_prelink_plan_def
    by (simp add: c checks wb res stack_workers_json Let_def dict_get_def r as_obj_def int_of_def
        int_val_def make_check_int getitem_def status admits_def len verdict_def [of "admits D config backend m b"]
        application_reserve_def target_budgets_def plan_document_def)
       (auto simp: verdict_def)
qed

section \<open>Exceptions on arbitrary plan documents\<close>

definition is_resource_error :: "pyexn \<Rightarrow> bool" where
  "is_resource_error e \<longleftrightarrow> (case e of ResourceError _ _ \<Rightarrow> True | _ \<Rightarrow> False)"

definition plan_error :: "pyexn \<Rightarrow> bool" where
  "plan_error e \<longleftrightarrow> is_resource_error e \<or> e = KeyError ''local_endpoints''"

lemma plan_error_reject [raises]: "raises_only plan_error (resource_reject c m)"
  by (simp add: resource_reject_def plan_error_def is_resource_error_def)

lemma make_check_total:
  assumes "int_of r \<noteq> None" and "a = JNull \<or> int_of a \<noteq> None"
  shows "raises_only P (make_check i c r a d)"
  using assms unfolding make_check_def json_le_def
  by (cases a; cases r) (auto simp: int_of_def num_val_def)

lemma opt_json_int: "opt_json v = JNull \<or> int_of (opt_json v) \<noteq> None"
  by (simp add: opt_json_def int_of_def split: option.splits)

lemma int_of_JInt [simp]: "int_of (JInt i) = Some i"
  by (simp add: int_of_def)

lemma int_of_JNull [simp]: "int_of JNull = None"
  by (simp add: int_of_def)

lemma plan_contract_raises: "raises_only plan_error (plan_contract p config target sync)"
  unfolding plan_contract_def Let_def
  by (auto split: option.split intro!: plan_error_reject)

lemma local_checks_raises: "raises_only P (local_checks config r es)"
  unfolding local_checks_def Let_def
  by (intro raises_only_bindE make_check_total raises_only_simps opt_json_int) auto

lemma remote_checks_raises: "raises_only plan_error (remote_checks config r)"
proof -
  have "raises_only plan_error (remote_check config remote e)" for remote e
    unfolding remote_check_def Let_def
    by (auto split: option.split prod.split intro!: plan_error_reject make_check_total opt_json_int)
  then show ?thesis
    unfolding remote_checks_def
    by (auto split: option.split intro!: plan_error_reject raises_only_bindE raises_only_mapE)
qed

lemma worker_bounds_raises: "raises_only plan_error (worker_bounds config c)"
  unfolding worker_bounds_def Let_def
  by (auto split: option.split intro!: plan_error_reject)

lemma worker_bounds_ints:
  assumes "worker_bounds config c = Inr (minimum, maximum, configured)"
  shows "int_of minimum \<noteq> None \<and> int_of maximum \<noteq> None \<and> (configured = JNull \<or> int_of configured \<noteq> None)"
  using assms unfolding worker_bounds_def Let_def
  by (auto simp: resource_reject_def opt_json_def split: option.splits if_splits)

lemma worker_checks_raises:
  assumes "int_of minimum \<noteq> None" "int_of maximum \<noteq> None" "configured = JNull \<or> int_of configured \<noteq> None"
  shows "raises_only P (worker_checks minimum maximum configured)"
  unfolding worker_checks_def
  by (intro raises_only_bindE make_check_total raises_only_simps) (use assms in auto)

lemma application_reserve_raises: "raises_only plan_error (application_reserve r)"
  unfolding application_reserve_def
  by (intro raises_only_option raises_only_if plan_error_reject raises_only_simps)

lemma target_budgets_raises: "raises_only plan_error (target_budgets c)"
  unfolding target_budgets_def Let_def by (intro raises_only_if plan_error_reject raises_only_simps)

lemma target_budgets_ints: "target_budgets c = Inr b \<Longrightarrow> int_of (snd b) \<noteq> None"
  by (auto simp: target_budgets_def Let_def resource_reject_def split: if_splits)

lemma build_prelink_plan_raises:
  "raises_only plan_error (build_prelink_plan p config target sync)"
  unfolding build_prelink_plan_def Let_def case_prod_beta
proof (intro raises_only_bindE plan_contract_raises local_checks_raises remote_checks_raises
    worker_bounds_raises worker_checks_raises application_reserve_raises target_budgets_raises
    raises_only_simps make_check_total)
  fix c ls rr ws
  assume w: "worker_bounds config c = Inr ws"
  then have "worker_bounds config c = Inr (fst ws, fst (snd ws), snd (snd ws))" by simp
  note ints = worker_bounds_ints [OF this]
  from ints show "int_of (fst ws) \<noteq> None" "int_of (fst (snd ws)) \<noteq> None"
    "snd (snd ws) = JNull \<or> int_of (snd (snd ws)) \<noteq> None" by blast+
qed (auto simp: getitem_def plan_error_def dest: target_budgets_ints split: option.split)

section \<open>Properties\<close>

text \<open>
  Property C3. For the plan document of an accepted deployment whose backend states its worker
  minimum, and a target with a budget, the pre-link plan is produced, names the chosen target, and
  has status \<open>PASS\<close> exactly when the configuration satisfies \<open>admits\<close>: endpoint, node and remote
  graph capacities, worker bounds and the known RAM reservations.
\<close>

theorem prelink_plan_admission:
  assumes "deployment_of document = Some D" and "valid_sync backend sync"
    and "map_of capability ''workers'' = Some (JObj wk)" "map_of wk ''minimum'' = Some (JInt m)"
    and "map_of (dep_targets D) (chosen_target config D target) = Some b"
  shows "\<exists>P. build_prelink_plan (plan_dict backend document capability) config target sync = Inr P \<and>
    map_of P ''status'' = Some (JStr (if admits D config backend m b then ''PASS'' else ''FAIL'')) \<and>
    map_of P ''target'' = Some (JStr (chosen_target config D target))"
  using prelink_plan_decides [OF assms] unfolding verdict_def by blast

definition example_config :: kconfig where
  "example_config =
     [(''CONFIG_ROS2_ZEPHYR_GRAPH_MAX_LOCAL_NODES'', ''1''),
      (''CONFIG_ROS2_ZEPHYR_GRAPH_MAX_ENDPOINTS_PER_NODE'', ''4''),
      (''CONFIG_ROS2_ZEPHYR_GRAPH_CACHE_MAX_PARTICIPANTS'', ''2''),
      (''CONFIG_ROS2_ZEPHYR_GRAPH_CACHE_MAX_NODES'', ''2''),
      (''CONFIG_ROS2_ZEPHYR_GRAPH_CACHE_MAX_ENDPOINTS'', ''8''),
      (''CONFIG_ROS2_ZEPHYR_CYCLONEDDS_THREAD_COUNT'', ''6''),
      (''CONFIG_ROS2_ZEPHYR_CYCLONEDDS_THREAD_STACK_SIZE'', ''0x2000''),
      (''CONFIG_MAIN_STACK_SIZE'', ''8192''), (''CONFIG_HEAP_MEM_POOL_SIZE'', ''n'')]"

lemma py_int_examples:
  "py_int 0 ''1'' = Some 1" "py_int 0 ''2'' = Some 2" "py_int 0 ''4'' = Some 4" "py_int 0 ''6'' = Some 6"
  "py_int 0 ''8'' = Some 8" "py_int 0 ''8192'' = Some 8192" "py_int 0 ''0x2000'' = Some 8192"
  by (simp_all add: py_int_def strip_def strip_by_def is_space_def in_range_def unsigned_val_def
      has_prefix_def after_prefix_def digit_val_def)

lemma example_admitted:
  "admits example_deployment example_config ''rmw_cyclonedds_c'' 5 \<lparr>bud_flash = 500000, bud_ram = 400000\<rparr>"
  by (simp add: admits_def example_config_def integer_config_def example_deployment_def within_def
      configured_workers_def stack_workers_def reserved_ram_def py_int_examples)

theorem prelink_plan_admission_witness:
  "\<exists>P. build_prelink_plan (plan_dict ''rmw_cyclonedds_c'' (deployment_json example_deployment)
      cyclonedds_capability) example_config ''native_sim'' ''posix'' = Inr P \<and>
    map_of P ''status'' = Some (JStr ''PASS'')"
proof -
  have t: "chosen_target example_config example_deployment ''native_sim'' = ''native_sim''"
    by (simp add: chosen_target_def example_config_def)
  from prelink_plan_admission [OF deployment_of_json [of example_deployment], of "''rmw_cyclonedds_c''" "''posix''"
      cyclonedds_capability "[(''minimum'', JInt 5),
         (''configuration'', JStr ''CONFIG_ROS2_ZEPHYR_CYCLONEDDS_THREAD_COUNT'')]" 5 example_config
      "''native_sim''" "\<lparr>bud_flash = 500000, bud_ram = 400000\<rparr>"] example_admitted
  show ?thesis
    unfolding t
    by (simp add: valid_sync_def cyclonedds_capability_def)
       (simp add: example_deployment_def, blast)
qed

text \<open>
  Without a budget for the chosen target the plan is refused with
  \<open>E_RESOURCE_TARGET\<close>.
\<close>

lemma prelink_plan_needs_budget:
  assumes "deployment_of document = Some D" and "valid_sync backend sync"
    and "map_of (dep_targets D) (chosen_target config D target) = None"
  shows "build_prelink_plan (plan_dict backend document capability) config target sync =
    Inl (ResourceError ''E_RESOURCE_TARGET''
      (''deployment has no resource budget for target '' @ chosen_target config D target))"
proof -
  from assms(1) [unfolded deployment_of_Some] obtain raws r rawts where
    f: "map_of document ''endpoints'' = Some (JArr raws)" "map_of document ''resources'' = Some (JObj r)"
      "map_of r ''targets'' = Some (JObj rawts)" "map_opt target_of rawts = Some (dep_targets D)"
    by blast
  have "\<not> (backend = ''rmw_cyclonedds_c'' \<and> sync \<notin> set [''posix'', ''zephyr-native'', ''not-applicable''])"
    using assms(2) by (auto simp: valid_sync_def)
  then have "plan_contract (plan_dict backend document capability) config target sync =
    Inl (ResourceError ''E_RESOURCE_TARGET''
      (''deployment has no resource budget for target '' @ chosen_target config D target))"
    unfolding plan_contract_def using f(1-3) map_of_targets(3) [OF f(4) assms(3)]
    by (auto simp: plan_dict_def dict_get_def eq_int_def as_obj_def as_str_def as_arr_def Let_def
        chosen_target_eq [OF f(4)] resource_reject_def)
  then show ?thesis by (simp add: build_prelink_plan_def)
qed

text \<open>
  Property C17. On every plan document and configuration, the only exceptions that leave
  \<open>build_prelink_plan\<close> are \<open>ResourceError\<close> and, for a contract without \<open>local_endpoints\<close>,
  \<open>KeyError\<close>: no comparison or subscript of the planner raises \<open>TypeError\<close>.
\<close>

theorem prelink_plan_errors:
  assumes "build_prelink_plan p config target sync = Inl e"
  shows "(\<exists>c m. e = ResourceError c m) \<or> e = KeyError ''local_endpoints''"
  using raises_onlyD [OF build_prelink_plan_raises assms]
  by (cases e) (auto simp: plan_error_def is_resource_error_def)

theorem prelink_plan_errors_witness:
  "\<exists>c m. build_prelink_plan [] [] ''t'' ''posix'' = Inl (ResourceError c m)"
proof -
  have e: "build_prelink_plan [] [] ''t'' ''posix'' =
      Inl (ResourceError ''E_RESOURCE_INPUT'' ''deployment plan schema_version must be 2'')"
    by (simp add: build_prelink_plan_def plan_contract_def dict_get_def eq_int_def resource_reject_def)
  from prelink_plan_errors [OF e] e show ?thesis by blast
qed

end
