(* ===== verification/Link_Map.thy ===== *)
theory Link_Map
  imports Elf_Sections Resource_Plan Py_Regex
begin

text \<open>
  The linker map of \<open>src/tools/verify_resources.py\<close>: \<open>parse_memory_regions\<close>, \<open>region_usage\<close> and
  \<open>parse_linked_stacks\<close>. The last is a machine that reads the map line by line; it is shown to
  compute a direct description of the stack rows.
\<close>

section \<open>Memory regions\<close>

record mem_region =
  reg_origin :: int
  reg_length :: int

text \<open>\<open>int(s, 16)\<close> on a group of hexadecimal digits, where it cannot fail.\<close>

definition hex_int :: "string \<Rightarrow> int" where
  "hex_int s = (case py_int 16 s of Some i \<Rightarrow> i | None \<Rightarrow> 0)"

definition region_start :: cls where
  "region_start = Cls True [(9, 13), (28, 32), (133, 133), (160, 160), (42, 42)]"

definition Spaces :: rx where "Spaces = Plus (Set space_cls)"
definition Hex :: "nat \<Rightarrow> rx" where "Hex n = Seq (Lit ''0x'') (Grp n (Plus (Set hex_cls)))"

definition REGION_LINE :: rx where
  "REGION_LINE =
     Seqs [Bol, Grp 1 (Seq (Set region_start) (Star (Set nonspace_cls))), Spaces, Hex 2, Spaces,
           Hex 3, Opt (Seq Spaces (Plus (Set nonspace_cls))), Eol]"

definition region_line ::
  "(string \<times> mem_region) list \<Rightarrow> string \<Rightarrow> (string \<times> mem_region) list" where
  "region_line regions line =
     (case rx_match REGION_LINE (strip line) of
        None \<Rightarrow> regions
      | Some g \<Rightarrow>
          dict_set (group_of g 1)
            \<lparr>reg_origin = hex_int (group_of g 2), reg_length = hex_int (group_of g 3)\<rparr> regions)"

definition parse_memory_regions :: "string \<Rightarrow> (string \<times> mem_region) list" where
  "parse_memory_regions map_text =
     (if \<not> contains ''Memory Configuration'' map_text
         \<or> \<not> contains ''Linker script and memory map'' map_text
      then []
      else
      let rest = (case split_once ''Memory Configuration'' map_text of Some (_, b) \<Rightarrow> b | None \<Rightarrow> []);
          block = (case split_once ''Linker script and memory map'' rest of
                     Some (a, _) \<Rightarrow> a | None \<Rightarrow> rest)
      in foldl region_line [] (splitlines block))"

definition section_end :: "elf_section \<Rightarrow> int" where
  "section_end s = int (sec_address s) + int (sec_size s)"

definition region_usage :: "elf_section list \<Rightarrow> mem_region \<Rightarrow> int" where
  "region_usage sections region =
     (let origin = reg_origin region; limit = origin + reg_length region;
          ends = map section_end (filter (\<lambda>s. alloc s \<and> origin \<le> int (sec_address s)
                   \<and> int (sec_address s) < limit \<and> section_end s \<le> limit) sections)
      in max_default origin ends - origin)"

section \<open>Linked stacks\<close>

definition NOINIT :: rx where "NOINIT = Grp 1 (Seq (Lit ''.noinit'') (Star (Set nonspace_cls)))"
definition Rest :: "nat \<Rightarrow> rx" where "Rest n = Grp n (Plus (Set any_cls))"

definition ONE_LINE :: rx where
  "ONE_LINE = Seqs [Bol, Set space_cls, NOINIT, Spaces, Hex 2, Spaces, Hex 3, Spaces, Rest 4, Eol]"

definition NAME_LINE :: rx where
  "NAME_LINE = Seqs [Bol, Set space_cls, NOINIT, Star (Set space_cls), Eol]"

definition DETAIL_LINE :: rx where
  "DETAIL_LINE = Seqs [Bol, Spaces, Hex 1, Spaces, Hex 2, Spaces, Rest 3, Eol]"

definition STACK_SYMBOL :: rx where
  "STACK_SYMBOL =
     Seqs [Bol, Spaces, Lit ''0x'', Plus (Set hex_cls), Spaces,
           Grp 1 (Seqs [Set symbol_start, Star (Set symbol_char), Lit ''stack'', Opt (Lit ''s'')]),
           Star (Set space_cls), Eol]"

record stack_entry =
  ent_bytes :: int
  ent_source :: string
  ent_names :: "string list"

record map_state =
  ms_pending :: string
  ms_current :: "stack_entry option"
  ms_rows :: "json list"

definition stack_row :: "stack_entry \<Rightarrow> json" where
  "stack_row e = reservation (join '', '' (sort (ent_names e))) (JInt (ent_bytes e)) (ent_source e)"

definition finish_current :: "map_state \<Rightarrow> map_state" where
  "finish_current st =
     (case ms_current st of
        None \<Rightarrow> st
      | Some e \<Rightarrow>
          st\<lparr>ms_current := None,
             ms_rows := (if ent_names e \<noteq> [] then ms_rows st @ [stack_row e] else ms_rows st)\<rparr>)"

definition open_entry :: "string \<Rightarrow> string \<Rightarrow> map_state \<Rightarrow> map_state" where
  "open_entry sz source st =
     (finish_current st)\<lparr>ms_current := Some \<lparr>ent_bytes = hex_int sz, ent_source = source,
        ent_names = []\<rparr>, ms_pending := []\<rparr>"

definition map_step :: "map_state \<Rightarrow> string \<Rightarrow> map_state" where
  "map_step st line =
     (case rx_match ONE_LINE line of
        Some g \<Rightarrow> open_entry (group_of g 3) (group_of g 4) st
      | None \<Rightarrow>
     (case rx_match NAME_LINE line of
        Some g \<Rightarrow> (finish_current st)\<lparr>ms_pending := group_of g 1\<rparr>
      | None \<Rightarrow>
     (case (if ms_pending st \<noteq> [] then rx_match DETAIL_LINE line else None) of
        Some g \<Rightarrow> open_entry (group_of g 2) (group_of g 3) st
      | None \<Rightarrow>
     (case ms_current st of
        None \<Rightarrow> st
      | Some e \<Rightarrow>
          (case rx_match STACK_SYMBOL line of
             Some g \<Rightarrow> st\<lparr>ms_current := Some (e\<lparr>ent_names := ent_names e @ [group_of g 1]\<rparr>)\<rparr>
           | None \<Rightarrow> finish_current st)))))"

definition parse_linked_stacks :: "string \<Rightarrow> json list" where
  "parse_linked_stacks map_text =
     ms_rows (finish_current (foldl map_step
       \<lparr>ms_pending = [], ms_current = None, ms_rows = []\<rparr> (splitlines map_text)))"

section \<open>Hexadecimal groups\<close>

lemma hex_digit_val: "in_cls hex_cls c \<Longrightarrow> \<exists>d. digit_val c = Some d \<and> d < 16"
  by (auto simp: in_cls_def hex_cls_def digit_val_def in_range_def)

lemma digits_val_hex: "list_all (in_cls hex_cls) s \<Longrightarrow> ld \<or> s \<noteq> [] \<Longrightarrow> digits_val 16 acc ld s \<noteq> None"
proof (induction s arbitrary: acc ld)
  case (Cons c s)
  then obtain d where "digit_val c = Some d" "d < 16" using hex_digit_val [of c] by auto
  moreover have "c \<noteq> CHR ''_''" using Cons.prems by (auto simp: in_cls_def hex_cls_def)
  ultimately show ?case using Cons by simp
qed simp

lemma hex_int_defined:
  assumes "list_all (in_cls hex_cls) s" and "s \<noteq> []"
  shows "py_int 16 s = Some (hex_int s)"
proof -
  have ns: "\<forall>c \<in> set s. \<not> is_space c"
    using assms(1) by (auto simp: list_all_iff in_cls_def hex_cls_def is_space_def in_range_def)
  obtain c cs where s: "s = c # cs" using assms(2) by (cases s) auto
  have "c \<noteq> CHR ''-''" "c \<noteq> CHR ''+''" using assms(1) by (auto simp: s in_cls_def hex_cls_def)
  moreover have "\<not> has_prefix ''xX'' s"
    using assms(1) by (auto simp: s has_prefix_def in_cls_def hex_cls_def split: list.splits)
  moreover have "digits_val 16 0 False s \<noteq> None" by (rule digits_val_hex) (use assms in auto)
  ultimately have "py_int 16 s \<noteq> None"
    using strip_by_id [OF ns] by (auto simp: py_int_def strip_def unsigned_val_def s)
  then show ?thesis by (auto simp: hex_int_def)
qed

section \<open>The stack rows described directly\<close>

text \<open>
  An entry starts at a line with section, address, size and object file, or at a line with the last
  three when a section name stood alone on a line before. Its names are the stack symbols on the
  lines that follow it directly; an entry without names gives no row.
\<close>

definition entry_of :: "bool \<Rightarrow> string \<Rightarrow> stack_entry option" where
  "entry_of pending line =
     (case rx_match ONE_LINE line of
        Some g \<Rightarrow> Some \<lparr>ent_bytes = hex_int (group_of g 3), ent_source = group_of g 4, ent_names = []\<rparr>
      | None \<Rightarrow>
          if rx_match NAME_LINE line \<noteq> None \<or> \<not> pending then None
          else map_option (\<lambda>g. \<lparr>ent_bytes = hex_int (group_of g 2), ent_source = group_of g 3,
                 ent_names = []\<rparr>) (rx_match DETAIL_LINE line))"

definition symbol_of :: "string \<Rightarrow> string option" where
  "symbol_of line =
     (if rx_match ONE_LINE line \<noteq> None \<or> rx_match NAME_LINE line \<noteq> None then None
      else map_option (\<lambda>g. group_of g 1) (rx_match STACK_SYMBOL line))"

fun symbols :: "string list \<Rightarrow> string list" where
  "symbols [] = []"
| "symbols (l # ls) = (case symbol_of l of None \<Rightarrow> [] | Some n \<Rightarrow> n # symbols ls)"

fun entries :: "bool \<Rightarrow> string list \<Rightarrow> stack_entry list" where
  "entries pending [] = []"
| "entries pending (l # ls) =
     (case entry_of pending l of
        Some e \<Rightarrow> e\<lparr>ent_names := symbols ls\<rparr> # entries False ls
      | None \<Rightarrow> entries (pending \<or> rx_match NAME_LINE l \<noteq> None) ls)"

definition stack_rows :: "stack_entry list \<Rightarrow> json list" where
  "stack_rows es = map stack_row (filter (\<lambda>e. ent_names e \<noteq> []) es)"

lemma rx_match_SomeD:
  "rx_match r s = Some g \<Longrightarrow> \<exists>p s'. (p, s', g) \<in> set (run False r ([], s, []))"
  by (fastforce simp: rx_match_def split: list.splits)

lemma name_line_group:
  assumes "rx_match NAME_LINE line = Some g"
  shows "group_of g 1 \<noteq> []"
proof -
  from rx_match_SomeD [OF assms] obtain p s' where
    "(p, s', g) \<in> set (run False NAME_LINE ([], line, []))" by blast
  then obtain s u t where "s = ''.noinit'' @ u @ t" "g = [(1, take (length s - length t) s)]"
    unfolding NAME_LINE_def NOINIT_def Seqs.simps by (auto simp: rx_iff simp del: run.simps)
  then show ?thesis by (simp add: group_of_def)
qed

text \<open>What the machine still has to say in a state: the open entry, then the entries of the rest.\<close>

definition pending_rows :: "map_state \<Rightarrow> string list \<Rightarrow> stack_entry list" where
  "pending_rows st lines =
     (case ms_current st of
        None \<Rightarrow> []
      | Some e \<Rightarrow> [e\<lparr>ent_names := ent_names e @ symbols lines\<rparr>])
     @ entries (ms_pending st \<noteq> []) lines"

definition sound_state :: "map_state \<Rightarrow> bool" where
  "sound_state st \<longleftrightarrow> (ms_current st \<noteq> None \<longrightarrow> ms_pending st = [])"

lemma stack_rows_simps [simp]:
  "stack_rows [] = []"
  "stack_rows (e # es) = (if ent_names e \<noteq> [] then [stack_row e] else []) @ stack_rows es"
  by (simp_all add: stack_rows_def)

lemma finish_current_simps [simp]:
  "ms_current (finish_current st) = None"
  "ms_pending (finish_current st) = ms_pending st"
  "ms_rows (finish_current st) =
     ms_rows st @ stack_rows (case ms_current st of None \<Rightarrow> [] | Some e \<Rightarrow> [e])"
  by (auto simp: finish_current_def split: option.splits)

lemma open_entry_simps [simp]:
  "ms_current (open_entry sz src st) =
     Some \<lparr>ent_bytes = hex_int sz, ent_source = src, ent_names = []\<rparr>"
  "ms_pending (open_entry sz src st) = []"
  "ms_rows (open_entry sz src st) =
     ms_rows st @ stack_rows (case ms_current st of None \<Rightarrow> [] | Some e \<Rightarrow> [e])"
  by (simp_all add: open_entry_def)

lemma map_step_rows:
  assumes "sound_state st"
  shows "sound_state (map_step st l) \<and>
    ms_rows (map_step st l) @ stack_rows (pending_rows (map_step st l) ls) =
    ms_rows st @ stack_rows (pending_rows st (l # ls))"
proof (cases "rx_match ONE_LINE l")
  case (Some g)
  then have "map_step st l = open_entry (group_of g 3) (group_of g 4) st"
    "symbol_of l = None" "entry_of b l = Some \<lparr>ent_bytes = hex_int (group_of g 3),
      ent_source = group_of g 4, ent_names = []\<rparr>" for b
    by (simp_all add: map_step_def symbol_of_def entry_of_def)
  then show ?thesis
    by (simp add: sound_state_def pending_rows_def split: option.splits)
next
  case one: None
  show ?thesis
  proof (cases "rx_match NAME_LINE l")
    case (Some g)
    then have "map_step st l = (finish_current st)\<lparr>ms_pending := group_of g 1\<rparr>"
      "symbol_of l = None" "entry_of b l = None" for b
      using one by (simp_all add: map_step_def symbol_of_def entry_of_def)
    with Some name_line_group [OF Some] show ?thesis
      by (simp add: sound_state_def pending_rows_def split: option.splits)
  next
    case name: None
    show ?thesis
    proof (cases "if ms_pending st \<noteq> [] then rx_match DETAIL_LINE l else None")
      case (Some g)
      then have p: "ms_pending st \<noteq> []" "rx_match DETAIL_LINE l = Some g" by (auto split: if_splits)
      with assms have "ms_current st = None" by (simp add: sound_state_def)
      with p one name show ?thesis
        by (simp add: map_step_def sound_state_def pending_rows_def entry_of_def)
    next
      case None
      then have e: "entry_of (ms_pending st \<noteq> []) l = None"
        using one name by (auto simp: entry_of_def split: if_splits)
      show ?thesis
      proof (cases "ms_current st")
        case cur: None
        with None one name have "map_step st l = st" by (simp add: map_step_def)
        with cur e name assms show ?thesis by (simp add: pending_rows_def)
      next
        case cur: (Some c)
        with assms have "ms_pending st = []" by (simp add: sound_state_def)
        with cur None one name e show ?thesis
          by (cases "rx_match STACK_SYMBOL l")
             (simp_all add: map_step_def sound_state_def pending_rows_def symbol_of_def)
      qed
    qed
  qed
qed

lemma map_steps_rows:
  assumes "sound_state st"
  shows "ms_rows (finish_current (foldl map_step st ls)) =
    ms_rows st @ stack_rows (pending_rows st ls)"
  using assms
proof (induction ls arbitrary: st)
  case Nil
  then show ?case by (simp add: pending_rows_def split: option.split)
next
  case (Cons l ls)
  with map_step_rows [OF Cons.prems, of l ls] show ?case by simp
qed

section \<open>Bounds of a region\<close>

definition inside :: "mem_region \<Rightarrow> elf_section \<Rightarrow> bool" where
  "inside r s \<longleftrightarrow> alloc s \<and> reg_origin r \<le> int (sec_address s) \<and>
     int (sec_address s) < reg_origin r + reg_length r \<and> section_end s \<le> reg_origin r + reg_length r"

lemma region_usage_eq:
  "region_usage sections r =
     max_default (reg_origin r) (map section_end (filter (inside r) sections)) - reg_origin r"
  by (simp add: region_usage_def inside_def [abs_def] Let_def)

section \<open>Properties\<close>

text \<open>
  Property C19. The line-by-line machine computes the described rows: one row per entry of a
  \<open>.noinit\<close> section that is directly followed by stack symbols, with its size, its object file and
  its symbols in sorted order, in the order of the map.
\<close>

theorem parse_linked_stacks_described:
  "parse_linked_stacks map_text = stack_rows (entries False (splitlines map_text))"
  unfolding parse_linked_stacks_def
  by (subst map_steps_rows) (simp_all add: sound_state_def pending_rows_def)

text \<open>
  Property C20. The usage of a memory region lies between 0 and the length of the region; it reaches
  the end of every allocated section that lies inside the region, and it is 0 or the end of one.
\<close>

theorem region_usage_bounds:
  assumes "0 \<le> reg_length r"
  shows "0 \<le> region_usage sections r \<and> region_usage sections r \<le> reg_length r \<and>
    (\<forall>s \<in> set sections. inside r s \<longrightarrow> section_end s - reg_origin r \<le> region_usage sections r) \<and>
    (region_usage sections r = 0 \<or>
     (\<exists>s \<in> set sections. inside r s \<and> region_usage sections r = section_end s - reg_origin r))"
proof -
  let ?ends = "map section_end (filter (inside r) sections)"
  have "\<forall>x \<in> set ?ends. reg_origin r \<le> x \<and> x \<le> reg_origin r + reg_length r"
    by (auto simp: inside_def section_end_def)
  then show ?thesis
    using max_default_mem [of "reg_origin r" ?ends] max_default_upper [of _ ?ends "reg_origin r"] assms
    unfolding region_usage_eq by auto
qed

theorem region_usage_bounds_witness:
  "region_usage [\<lparr>sec_name = ''d'', sec_address = 4112, sec_size = 16, sec_type = 1, sec_flags = 3\<rparr>]
     \<lparr>reg_origin = 4096, reg_length = 64\<rparr> \<le> 64 \<and>
   32 \<le> region_usage [\<lparr>sec_name = ''d'', sec_address = 4112, sec_size = 16, sec_type = 1, sec_flags = 3\<rparr>]
     \<lparr>reg_origin = 4096, reg_length = 64\<rparr>"
  using region_usage_bounds [of "\<lparr>reg_origin = 4096, reg_length = 64\<rparr>"
    "[\<lparr>sec_name = ''d'', sec_address = 4112, sec_size = 16, sec_type = 1, sec_flags = 3\<rparr>]"]
  by (simp add: inside_def section_end_def alloc_def)

end
