(* ===== verification/Resource_Report.thy ===== *)
theory Resource_Report
  imports Link_Map
begin

text \<open>
  The post-link half of \<open>src/tools/verify_resources.py\<close>: \<open>parse_runtime_log\<close>, \<open>measure_linked\<close>,
  \<open>build_postlink_report\<close>, the two Markdown printers, \<open>first_failed\<close> and \<open>main\<close>. The resource plan
  is an arbitrary JSON object, read from a file, and every subscript has the exceptions of Python.
\<close>

section \<open>The environment\<close>

text \<open>
  Files, the decoder of ELF section names, the failures of writing, and the arithmetic and the
  printing of floats, which the plan may contain and the model does not compute.
\<close>

record renv =
  files :: rworld
  decode_name :: "bytes \<Rightarrow> string"
  mkdir_fails :: "string \<Rightarrow> string option"
  write_fails :: "string \<Rightarrow> string option"
  float_plus :: "json \<Rightarrow> json \<Rightarrow> json"
  float_minus :: "json \<Rightarrow> json \<Rightarrow> json"
  float_grouped :: "pyfloat \<Rightarrow> string"

definition num_add :: "renv \<Rightarrow> json \<Rightarrow> json \<Rightarrow> json res" where
  "num_add env a b =
     (case (int_of a, int_of b) of
        (Some i, Some j) \<Rightarrow> Inr (JInt (i + j))
      | _ \<Rightarrow> if num_val a = None \<or> num_val b = None then Inl TypeError else Inr (float_plus env a b))"

definition num_sub :: "renv \<Rightarrow> json \<Rightarrow> json \<Rightarrow> json res" where
  "num_sub env a b =
     (case (int_of a, int_of b) of
        (Some i, Some j) \<Rightarrow> Inr (JInt (i - j))
      | _ \<Rightarrow> if num_val a = None \<or> num_val b = None then Inl TypeError else Inr (float_minus env a b))"

text \<open>Iteration over a JSON value.\<close>

definition iter :: "json \<Rightarrow> json list res" where
  "iter v =
     (case v of
        JArr vs \<Rightarrow> Inr vs
      | JObj d \<Rightarrow> Inr (map (JStr \<circ> fst) d)
      | JStr s \<Rightarrow> Inr (map (\<lambda>c. JStr [c]) s)
      | _ \<Rightarrow> Inl TypeError)"

section \<open>Runtime log\<close>

definition FIELD :: rx where
  "FIELD = Seqs [Grp 1 (Seq (Set symbol_start) (Star (Set symbol_char))), Lit ''='',
                 Grp 2 (Plus (Set nonspace_cls))]"

definition field_value :: "string \<Rightarrow> json" where
  "field_value value = (case py_int 0 value of Some i \<Rightarrow> JInt i | None \<Rightarrow> JStr value)"

definition log_fields :: "string \<Rightarrow> dict" where
  "log_fields line =
     foldl (\<lambda>fields g. dict_set (group_of g 1) (field_value (group_of g 2)) fields) []
       (findall False FIELD line)"

definition log_record :: "string \<Rightarrow> json list" where
  "log_record line =
     (if \<not> contains ''_METRICS'' line \<and> \<not> contains ''_RESOURCES'' line then []
      else [JObj [(''marker'', JStr (hd (split_ws line))), (''values'', JObj (log_fields line))]])"

definition parse_runtime_log :: "renv \<Rightarrow> string option \<Rightarrow> dict res" where
  "parse_runtime_log env path =
     (case path of
        None \<Rightarrow> Inr [(''status'', JStr ''not_provided'')]
      | Some p \<Rightarrow>
          (case open_file (files env) p of
             Inl err \<Rightarrow> resource_reject ''E_RESOURCE_INPUT''
               (''cannot read runtime log '' @ p @ '': '' @ err)
           | Inr f \<Rightarrow>
               (let records = concat (map log_record (splitlines (lossy_text f)))
                in Inr [(''status'', JStr (if records \<noteq> [] then ''measured'' else ''no_resource_markers'')),
                        (''source'', JStr p), (''records'', JArr records)])))"

section \<open>Measuring the linked image\<close>

definition region_json :: "string \<times> mem_region \<Rightarrow> string \<times> json" where
  "region_json nr =
     (fst nr, JObj [(''origin'', JInt (reg_origin (snd nr))), (''length'', JInt (reg_length (snd nr)))])"

definition sum_sizes :: "(elf_section \<Rightarrow> bool) \<Rightarrow> elf_section list \<Rightarrow> int" where
  "sum_sizes P sections = sum_list (map (\<lambda>s. int (sec_size s)) (filter P sections))"

text \<open>The span of a physical region from its origin to the end of its last section.\<close>

definition region_span :: "elf_section list \<Rightarrow> mem_region \<Rightarrow> int" where
  "region_span sections r =
     max_default (reg_origin r) (map section_end (filter (\<lambda>s. alloc s \<and> reg_origin r \<le> int (sec_address s)
        \<and> int (sec_address s) < reg_origin r + reg_length r) sections)) - reg_origin r"

definition linked_ram ::
  "kconfig \<Rightarrow> (string \<times> mem_region) list \<Rightarrow> elf_section list \<Rightarrow> int \<times> string" where
  "linked_ram config regions sections =
     (if map_of config ''CONFIG_SOC_ESP32C6_HPCORE'' = Some ''y'' \<and> map_of regions ''sram0_0_seg'' \<noteq> None
      then (sum_list (map (\<lambda>name. case map_of regions name of
               None \<Rightarrow> 0 | Some r \<Rightarrow> region_span sections r) [''sram0_0_seg'', ''lp_ram_seg'']),
            ''C6 physical SRAM spans including alignment holes'')
      else
      case map_of regions ''dram0_0_seg'' of
        Some r \<Rightarrow> (region_usage sections r, ''map region dram0_0_seg'')
      | None \<Rightarrow> (sum_sizes occupies_ram sections, ''ELF allocated writable sections''))"

definition LIBC_HEAP :: rx where
  "LIBC_HEAP = Seqs [Hex 1, Spaces, Lit ''_libc_heap_size'', Star (Set space_cls), Lit ''='']"

definition linked_libc_heap :: "kconfig \<Rightarrow> string \<Rightarrow> (int \<times> string) option" where
  "linked_libc_heap config map_text =
     (case integer_config config ''CONFIG_COMMON_LIBC_MALLOC_ARENA_SIZE'' of
        Some n \<Rightarrow>
          if 0 \<le> n then Some (n, ''CONFIG_COMMON_LIBC_MALLOC_ARENA_SIZE'')
          else map_option (\<lambda>g. (hex_int (group_of g 1), ''linker symbol''))
                 (rx_search False LIBC_HEAP map_text)
      | None \<Rightarrow> map_option (\<lambda>g. (hex_int (group_of g 1), ''linker symbol''))
                  (rx_search False LIBC_HEAP map_text))"

definition linked_heaps :: "kconfig \<Rightarrow> string \<Rightarrow> json list" where
  "linked_heaps config map_text =
     (case integer_config config ''CONFIG_HEAP_MEM_POOL_SIZE'' of
        None \<Rightarrow> []
      | Some n \<Rightarrow> [reservation ''Zephyr heap backing'' (JInt n) ''CONFIG_HEAP_MEM_POOL_SIZE''])
     @ (case linked_libc_heap config map_text of
          None \<Rightarrow> []
        | Some (n, source) \<Rightarrow> [reservation ''libc heap backing'' (JInt n) source])"

record artifacts =
  art_elf :: string
  art_map :: string
  art_config :: string
  art_binary :: string

definition find_artifacts :: "renv \<Rightarrow> string \<Rightarrow> artifacts res" where
  "find_artifacts env build_dir =
     (let zephyr_dir = (if is_dir (files env) (path_join build_dir ''zephyr'')
                        then path_join build_dir ''zephyr'' else build_dir);
          elf_path = path_join zephyr_dir ''zephyr.elf'';
          map_path = (if is_file (files env) (path_join zephyr_dir ''zephyr.map'')
                      then path_join zephyr_dir ''zephyr.map''
                      else path_join zephyr_dir ''zephyr_final.map'');
          config_path = path_join zephyr_dir ''.config'';
          missing = filter (\<lambda>p. \<not> is_file (files env) p) [elf_path, map_path, config_path]
      in if missing \<noteq> []
         then resource_reject ''E_RESOURCE_ARTIFACT''
           (''missing required post-link artifacts: '' @ join '', '' missing)
         else Inr \<lparr>art_elf = elf_path, art_map = map_path, art_config = config_path,
                art_binary = path_join zephyr_dir ''zephyr.bin''\<rparr>)"

definition read_lossy :: "renv \<Rightarrow> string \<Rightarrow> string res" where
  "read_lossy env p =
     (case open_file (files env) p of Inl err \<Rightarrow> Inl (OSError err) | Inr f \<Rightarrow> Inr (lossy_text f))"

definition linked_flash :: "renv \<Rightarrow> string \<Rightarrow> elf_section list \<Rightarrow> int \<times> string" where
  "linked_flash env binary_path sections =
     (case files env binary_path of
        Regular f \<Rightarrow> (int (length (content f)), binary_path)
      | _ \<Rightarrow> (sum_sizes occupies_flash sections, ''ELF allocated file-backed sections''))"

definition measure_linked :: "renv \<Rightarrow> string \<Rightarrow> dict res" where
  "measure_linked env build_dir =
     bindE (find_artifacts env build_dir) (\<lambda>a.
     bindE (parse_elf_sections (decode_name env) (files env) (art_elf a)) (\<lambda>sections.
     bindE (read_lossy env (art_map a)) (\<lambda>map_text.
     bindE (parse_config (files env) (art_config a)) (\<lambda>config.
     let regions = parse_memory_regions map_text;
         (flash_bytes, flash_source) = linked_flash env (art_binary a) sections;
         (ram_bytes, ram_source) = linked_ram config regions sections
     in Inr [(''flash_bytes'', JInt flash_bytes),
             (''flash_source'', JStr flash_source),
             (''static_ram_bytes'', JInt ram_bytes),
             (''ram_source'', JStr ram_source),
             (''memory_regions'', JObj (map region_json regions)),
             (''heap_backing'', JArr (linked_heaps config map_text)),
             (''thread_stacks'', JArr (parse_linked_stacks map_text)),
             (''elf_sections'', JObj
                [(''allocated_file_bytes'', JInt (sum_sizes occupies_flash sections)),
                 (''allocated_ram_bytes'', JInt (sum_sizes occupies_ram sections))])]))))"

section \<open>The report\<close>

definition budget_checks :: "renv \<Rightarrow> dict \<Rightarrow> json \<Rightarrow> json \<Rightarrow> json list res" where
  "budget_checks env linked budgets reserve =
     bindE (getitem linked ''flash_bytes'') (\<lambda>flash.
     bindE (subscript budgets ''flash_bytes'') (\<lambda>flash_budget.
     bindE (make_check ''linked_flash_budget'' ''E_RESOURCE_FLASH_BUDGET'' flash flash_budget
       ''linked flash must not exceed the target budget'') (\<lambda>c1.
     bindE (getitem linked ''static_ram_bytes'') (\<lambda>ram.
     bindE (num_add env ram reserve) (\<lambda>total.
     bindE (subscript budgets ''ram_bytes'') (\<lambda>ram_budget.
     bindE (make_check ''linked_ram_budget_with_reserve'' ''E_RESOURCE_RAM_BUDGET'' total ram_budget
       ''linked static RAM plus declared application reserve must fit the target budget'') (\<lambda>c2.
     Inr [c1, c2])))))))"

definition region_checks :: "dict \<Rightarrow> json \<Rightarrow> json list res" where
  "region_checks regions budgets =
     bindE (case map_of regions ''FLASH'' of
        None \<Rightarrow> Inr []
      | Some region \<Rightarrow>
          bindE (subscript budgets ''flash_bytes'') (\<lambda>flash_budget.
          bindE (subscript region ''length'') (\<lambda>limit.
          bindE (make_check ''flash_budget_within_target_region'' ''E_RESOURCE_TARGET_CAPACITY''
            flash_budget limit ''declared flash budget must fit the linked target region'') (\<lambda>c.
          Inr [c])))) (\<lambda>flash_checks.
     let sram = dict_get regions ''sram0_0_seg'';
         ram_region = (if truthy sram then sram else dict_get regions ''dram0_0_seg'')
     in bindE (if ram_region = JNull then Inr [] else
          bindE (subscript budgets ''ram_bytes'') (\<lambda>ram_budget.
          bindE (subscript ram_region ''length'') (\<lambda>limit.
          bindE (make_check ''ram_budget_within_target_region'' ''E_RESOURCE_TARGET_CAPACITY''
            ram_budget limit ''declared RAM budget must fit the linked target region'') (\<lambda>c.
          Inr [c])))) (\<lambda>ram_checks.
     Inr (flash_checks @ ram_checks)))"

definition failing :: "json list \<Rightarrow> json list res" where
  "failing checks =
     bindE (mapE (\<lambda>item. bindE (subscript item ''status'') (\<lambda>s. Inr (s = JStr ''FAIL'', item))) checks)
       (\<lambda>rows. Inr (map snd (filter fst rows)))"

definition accounting_note :: string where
  "accounting_note =
     ''Thread stacks and heap backing are explanatory slices of linked static RAM. ''
     @ ''Runtime allocator high-water values are observations and are never added to linked RAM.''"

definition report_document ::
  "dict \<Rightarrow> json \<Rightarrow> json \<Rightarrow> json \<Rightarrow> json \<Rightarrow> json \<Rightarrow> dict \<Rightarrow> dict \<Rightarrow> json list \<Rightarrow> json list \<Rightarrow> dict" where
  "report_document resource_plan target backend deployment planned budgets linked runtime failed checks =
     [(''schema_version'', JInt 1),
      (''status'', JStr (if failed \<noteq> [] then ''FAIL'' else ''PASS'')),
      (''target'', target),
      (''backend'', backend),
      (''ddsrt_sync'', dict_get_default resource_plan ''ddsrt_sync'' (JStr ''not-applicable'')),
      (''deployment'', deployment),
      (''planned'', planned),
      (''budgets'', budgets),
      (''linked'', JObj linked),
      (''runtime_measured'', JObj runtime),
      (''checks'', JArr checks),
      (''accounting_note'', JStr accounting_note)]"

definition build_postlink_report :: "renv \<Rightarrow> dict \<Rightarrow> dict \<Rightarrow> dict \<Rightarrow> dict res" where
  "build_postlink_report env resource_plan linked runtime =
     (if dict_get resource_plan ''status'' \<noteq> JStr ''PASS''
      then resource_reject ''E_RESOURCE_PLAN'' ''cannot verify a failed pre-link resource plan''
      else
     bindE (getitem resource_plan ''budgets'') (\<lambda>budgets.
     bindE (getitem resource_plan ''planned'') (\<lambda>planned.
     bindE (subscript planned ''application_reservations'') (\<lambda>application.
     bindE (subscript application ''static_reserve_bytes'') (\<lambda>reserve.
     bindE (getitem resource_plan ''checks'') (\<lambda>raw_checks.
     bindE (iter raw_checks) (\<lambda>plan_checks.
     bindE (budget_checks env linked budgets reserve) (\<lambda>linked_checks.
     bindE (case dict_get_default linked ''memory_regions'' (JObj []) of
              JObj regions \<Rightarrow> region_checks regions budgets | _ \<Rightarrow> Inl TypeError) (\<lambda>target_checks.
     let checks = plan_checks @ linked_checks @ target_checks in
     bindE (failing checks) (\<lambda>failed.
     bindE (getitem resource_plan ''target'') (\<lambda>target.
     bindE (getitem resource_plan ''backend'') (\<lambda>backend.
     bindE (getitem resource_plan ''deployment'') (\<lambda>deployment.
     Inr (report_document resource_plan target backend deployment planned budgets linked runtime
       failed checks))))))))))))))"

end
