(* ===== verification/Resource_Tool.thy ===== *)
theory Resource_Tool
  imports Resource_Report
begin

text \<open>
  The outer part of \<open>src/tools/verify_resources.py\<close>: \<open>format_bytes\<close>, the two Markdown printers,
  \<open>write_report\<close>, \<open>first_failed\<close> and \<open>main\<close> with its exit status and its effects.
\<close>

section \<open>Markdown\<close>

definition format_bytes :: "renv \<Rightarrow> json \<Rightarrow> string res" where
  "format_bytes env v =
     (case v of
        JNull \<Rightarrow> Inr ''target-resolved''
      | JInt i \<Rightarrow> Inr (show_grouped i @ '' B'')
      | JBool b \<Rightarrow> Inr (show_grouped (of_bool b) @ '' B'')
      | JFloat f \<Rightarrow> Inr (float_grouped env f @ '' B'')
      | JStr _ \<Rightarrow> Inl (ValueError ''format'')
      | _ \<Rightarrow> Inl TypeError)"

text \<open>A chain of subscripts \<open>v[k1][k2]...\<close>.\<close>

fun path_get :: "json \<Rightarrow> string list \<Rightarrow> json res" where
  "path_get v [] = Inr v"
| "path_get v (k # ks) = bindE (subscript v k) (\<lambda>w. path_get w ks)"

definition slice_rows :: "renv \<Rightarrow> string \<Rightarrow> json \<Rightarrow> string list res" where
  "slice_rows env kind rows =
     bindE (iter rows) (\<lambda>items.
     mapE (\<lambda>row.
       bindE (subscript row ''name'') (\<lambda>name.
       bindE (subscript row ''bytes'') (\<lambda>bytes.
       bindE (format_bytes env bytes) (\<lambda>text.
       bindE (subscript row ''source'') (\<lambda>source.
       Inr (''| '' @ kind @ '' | '' @ str_json name @ '' | '' @ text @ '' | '' @ str_json source
            @ '' |'')))))) items)"

definition check_rows :: "json \<Rightarrow> string list res" where
  "check_rows checks =
     bindE (iter checks) (\<lambda>items.
     mapE (\<lambda>item.
       bindE (subscript item ''id'') (\<lambda>check_id.
       bindE (subscript item ''required'') (\<lambda>required.
       bindE (subscript item ''available'') (\<lambda>available.
       bindE (subscript item ''status'') (\<lambda>status.
       Inr (''| '' @ str_json check_id @ '' | '' @ str_json required @ '' | ''
            @ (if available = JNull then ''missing'' else str_json available) @ '' | ''
            @ str_json status @ '' |'')))))) items)"

definition plan_markdown :: "renv \<Rightarrow> dict \<Rightarrow> string res" where
  "plan_markdown env plan =
     bindE (getitem plan ''planned'') (\<lambda>planned.
     bindE (getitem plan ''status'') (\<lambda>status.
     bindE (getitem plan ''deployment'') (\<lambda>deployment.
     bindE (getitem plan ''target'') (\<lambda>target.
     bindE (getitem plan ''backend'') (\<lambda>backend.
     bindE (path_get planned [''local_endpoint_resources'', ''required'']) (\<lambda>required.
     bindE (path_get planned [''local_endpoint_resources'', ''capacity'']) (\<lambda>capacity.
     bindE (subscript planned ''remote_discovery_bounds'') (\<lambda>remote.
     bindE (path_get planned [''middleware_reservations'', ''workers'']) (\<lambda>workers.
     bindE (path_get planned [''middleware_reservations'', ''maximum_workers'']) (\<lambda>maximum.
     bindE (path_get (JObj plan) [''budgets'', ''flash_bytes'']) (\<lambda>flash.
     bindE (format_bytes env flash) (\<lambda>flash_text.
     bindE (path_get (JObj plan) [''budgets'', ''ram_bytes'']) (\<lambda>ram.
     bindE (format_bytes env ram) (\<lambda>ram_text.
     bindE (path_get planned [''application_reservations'', ''static_reserve_bytes'']) (\<lambda>reserve.
     bindE (format_bytes env reserve) (\<lambda>reserve_text.
     bindE (subscript planned ''thread_stacks'') (\<lambda>stacks.
     bindE (subscript planned ''heap_backing'') (\<lambda>heaps.
     bindE (slice_rows env ''stack'' stacks) (\<lambda>stack_lines.
     bindE (slice_rows env ''heap'' heaps) (\<lambda>heap_lines.
     bindE (getitem plan ''checks'') (\<lambda>checks.
     bindE (check_rows checks) (\<lambda>check_lines.
     Inr (join nl
       ([''# Pre-build resource plan'', '''',
         ''Status: **'' @ str_json status @ ''**'',
         ''Deployment: '' @ str_json deployment,
         ''Target: '' @ str_json target,
         ''Backend: '' @ str_json backend,
         ''DDSRT synchronization: ''
           @ str_json (dict_get_default plan ''ddsrt_sync'' (JStr ''not-applicable'')),
         '''', ''## Contract'', '''',
         ''- Local endpoints: '' @ str_json required @ '' required / '' @ str_json capacity @ '' allowed.'',
         ''- Remote discovery bounds: '' @ str_json remote @ ''.'',
         ''- Middleware workers: '' @ str_json workers @ '' configured / '' @ str_json maximum
           @ '' allowed.'',
         ''- Flash budget: '' @ flash_text @ ''.'',
         ''- RAM budget: '' @ ram_text @ ''.'',
         ''- Application reserve: '' @ reserve_text @ ''.'',
         '''', ''## Planned RAM slices'', '''',
         ''| Kind | Reservation | Bytes | Evidence |'', ''|---|---|---:|---|'']
        @ stack_lines @ heap_lines
        @ ['''', ''## Admission checks'', '''', ''| Check | Required | Available | Status |'',
           ''|---|---:|---:|---|'']
        @ check_lines @ ['''']))))))))))))))))))))))))"

definition runtime_lines :: "json \<Rightarrow> string list res" where
  "runtime_lines runtime =
     bindE (subscript runtime ''status'') (\<lambda>status.
     if status = JStr ''measured'' then
       bindE (subscript runtime ''source'') (\<lambda>source.
       bindE (subscript runtime ''records'') (\<lambda>raw.
       bindE (iter raw) (\<lambda>records.
       bindE (mapE (\<lambda>record.
           bindE (subscript record ''marker'') (\<lambda>marker.
           bindE (subscript record ''values'') (\<lambda>fields.
           Inr (''- '' @ str_json marker @ '': '' @ str_json fields)))) records) (\<lambda>lines.
       Inr ((''Runtime markers were parsed from '' @ str_json source @ ''.'') # lines)))))
     else Inr [''Runtime measurements: '' @ str_json status @ ''.''])"

definition headroom_row :: "renv \<Rightarrow> string \<Rightarrow> json \<Rightarrow> json res \<Rightarrow> json res \<Rightarrow> string res" where
  "headroom_row env label limit used left =
     bindE (format_bytes env limit) (\<lambda>a.
     bindE used (\<lambda>u.
     bindE (format_bytes env u) (\<lambda>b.
     bindE left (\<lambda>l.
     bindE (format_bytes env l) (\<lambda>c.
     Inr (''| '' @ label @ '' | '' @ a @ '' | '' @ b @ '' | '' @ c @ '' |''))))))"

definition budget_rows :: "renv \<Rightarrow> json \<Rightarrow> json \<Rightarrow> json \<Rightarrow> string list res" where
  "budget_rows env budgets linked reserve =
     bindE (subscript budgets ''flash_bytes'') (\<lambda>flash_budget.
     bindE (headroom_row env ''Flash'' flash_budget (subscript linked ''flash_bytes'')
       (bindE (subscript linked ''flash_bytes'') (num_sub env flash_budget))) (\<lambda>r1.
     bindE (subscript budgets ''ram_bytes'') (\<lambda>ram_budget.
     let ram = subscript linked ''static_ram_bytes'' in
     bindE (headroom_row env ''Static RAM'' ram_budget ram (bindE ram (num_sub env ram_budget))) (\<lambda>r2.
     bindE (headroom_row env ''Static RAM plus application reserve'' ram_budget
       (bindE ram (\<lambda>r. num_add env r reserve))
       (bindE (bindE ram (num_sub env ram_budget)) (\<lambda>left. num_sub env left reserve))) (\<lambda>r3.
     Inr [r1, r2, r3])))))"

definition report_markdown :: "renv \<Rightarrow> dict \<Rightarrow> string res" where
  "report_markdown env report =
     bindE (getitem report ''linked'') (\<lambda>linked.
     bindE (path_get (JObj report) [''planned'', ''application_reservations'', ''static_reserve_bytes''])
       (\<lambda>reserve.
     bindE (getitem report ''status'') (\<lambda>status.
     bindE (getitem report ''deployment'') (\<lambda>deployment.
     bindE (getitem report ''target'') (\<lambda>target.
     bindE (getitem report ''backend'') (\<lambda>backend.
     bindE (getitem report ''budgets'') (\<lambda>budgets.
     bindE (budget_rows env budgets linked reserve) (\<lambda>budget_lines.
     bindE (subscript linked ''thread_stacks'') (\<lambda>stacks.
     bindE (subscript linked ''heap_backing'') (\<lambda>heaps.
     bindE (slice_rows env ''stack'' stacks) (\<lambda>stack_lines.
     bindE (slice_rows env ''heap'' heaps) (\<lambda>heap_lines.
     bindE (getitem report ''runtime_measured'') (\<lambda>runtime.
     bindE (runtime_lines runtime) (\<lambda>runtime_text.
     bindE (getitem report ''checks'') (\<lambda>checks.
     bindE (check_rows checks) (\<lambda>check_lines.
     bindE (getitem report ''accounting_note'') (\<lambda>note.
     Inr (join nl
       ([''# Post-link resource verification'', '''',
         ''Status: **'' @ str_json status @ ''**'',
         ''Deployment: '' @ str_json deployment,
         ''Target: '' @ str_json target,
         ''Backend: '' @ str_json backend,
         ''DDSRT synchronization: ''
           @ str_json (dict_get_default report ''ddsrt_sync'' (JStr ''not-applicable'')),
         '''', ''## Planned versus linked'', '''',
         ''| Resource | Planned limit | Linked | Headroom |'', ''|---|---:|---:|---:|'']
        @ budget_lines
        @ ['''', ''Thread stacks and heap backing below are slices of linked RAM, not additional totals.'',
           '''', ''## Linked reservations'', '''', ''| Kind | Reservation | Bytes | Evidence |'',
           ''|---|---|---:|---|'']
        @ stack_lines @ heap_lines
        @ ['''', ''## Runtime measured'', '''']
        @ runtime_text
        @ ['''', ''## Verification checks'', '''', ''| Check | Required | Available | Status |'',
           ''|---|---:|---:|---|'']
        @ check_lines @ ['''', str_json note, ''''])))))))))))))))))))"

section \<open>Effects and exit status\<close>

datatype reffect = MakeDirs string | WriteFile string string

definition path_parent :: "string \<Rightarrow> string" where
  "path_parent p =
     (if CHR ''/'' \<notin> set p then ''.''
      else let d = rev (tl (dropWhile (\<lambda>c. c \<noteq> CHR ''/'') (rev p))) in if d = [] then ''/'' else d)"

definition write_report :: "renv \<Rightarrow> string \<Rightarrow> string \<Rightarrow> reffect list \<times> unit res" where
  "write_report env path text =
     (case mkdir_fails env (path_parent path) of
        Some err \<Rightarrow> ([], Inl (OSError err))
      | None \<Rightarrow>
          (case write_fails env path of
             Some err \<Rightarrow> ([MakeDirs (path_parent path)], Inl (OSError err))
           | None \<Rightarrow> ([MakeDirs (path_parent path), WriteFile path text], Inr ())))"

definition first_failed :: "dict \<Rightarrow> json option res" where
  "first_failed report =
     bindE (getitem report ''checks'') (\<lambda>raw.
     bindE (iter raw) (\<lambda>checks.
     foldE (\<lambda>found item.
       if found \<noteq> None then Inr found
       else bindE (subscript item ''status'') (\<lambda>s.
            Inr (if s = JStr ''FAIL'' then Some item else None))) None checks))"

datatype command =
    Plan string string string string
  | Verify string string "string option"

record resource_args =
  ra_command :: command
  ra_json :: string
  ra_markdown :: string

definition build_report :: "renv \<Rightarrow> command \<Rightarrow> (dict \<times> string \<times> string) res" where
  "build_report env cmd =
     (case cmd of
        Plan deployment_plan config target ddsrt_sync \<Rightarrow>
          bindE (resource_load_json (files env) deployment_plan) (\<lambda>p.
          bindE (parse_config (files env) config) (\<lambda>c.
          bindE (build_prelink_plan p c target ddsrt_sync) (\<lambda>report.
          bindE (plan_markdown env report) (\<lambda>markdown.
          Inr (report, markdown, ''ROS2_ZEPHYR_RESOURCE_PLAN'')))))
      | Verify resource_plan build_dir runtime_log \<Rightarrow>
          bindE (resource_load_json (files env) resource_plan) (\<lambda>p.
          bindE (measure_linked env build_dir) (\<lambda>linked.
          bindE (parse_runtime_log env runtime_log) (\<lambda>runtime.
          bindE (build_postlink_report env p linked runtime) (\<lambda>report.
          bindE (report_markdown env report) (\<lambda>markdown.
          Inr (report, markdown, ''ROS2_ZEPHYR_RESOURCE_VERIFY'')))))))"

text \<open>The line that \<open>main\<close> prints at the end and its exit status; the flag is standard error.\<close>

definition conclude :: "dict \<Rightarrow> string \<Rightarrow> (bool \<times> string \<times> int) res" where
  "conclude report marker =
     bindE (first_failed report) (\<lambda>failed.
     case failed of
       Some item \<Rightarrow>
         bindE (subscript item ''code'') (\<lambda>code.
         bindE (subscript item ''detail'') (\<lambda>detail.
         bindE (subscript item ''required'') (\<lambda>required.
         bindE (subscript item ''available'') (\<lambda>available.
         Inr (True, str_json code @ '': '' @ str_json detail @ '': required='' @ str_json required
           @ '' available='' @ str_json available, 2)))))
     | None \<Rightarrow>
         bindE (getitem report ''deployment'') (\<lambda>deployment.
         bindE (getitem report ''target'') (\<lambda>target.
         bindE (getitem report ''backend'') (\<lambda>backend.
         Inr (False, marker @ ''_PASS deployment='' @ str_json deployment @ '' target=''
           @ str_json target @ '' backend='' @ str_json backend, 0)))))"

text \<open>The body of the \<open>try\<close>: the effects so far and the line and the status, or an exception.\<close>

definition resource_run :: "renv \<Rightarrow> resource_args \<Rightarrow> reffect list \<times> (bool \<times> string \<times> int) res" where
  "resource_run env args =
     (case build_report env (ra_command args) of
        Inl e \<Rightarrow> ([], Inl e)
      | Inr (report, markdown, marker) \<Rightarrow>
          (case write_report env (ra_json args) (dumps_sorted (JObj report) @ nl) of
             (log1, Inl e) \<Rightarrow> (log1, Inl e)
           | (log1, Inr _) \<Rightarrow>
               (case write_report env (ra_markdown args) markdown of
                  (log2, Inl e) \<Rightarrow> (log1 @ log2, Inl e)
                | (log2, Inr _) \<Rightarrow> (log1 @ log2, conclude report marker))))"

definition resource_main :: "renv \<Rightarrow> resource_args \<Rightarrow> reffect list \<times> (bool \<times> string \<times> int) res" where
  "resource_main env args =
     (case resource_run env args of
        (log, Inl (ResourceError code message)) \<Rightarrow> (log, Inr (True, code @ '': '' @ message, 2))
      | out \<Rightarrow> out)"

end
