(* ===== verification/Resource_Verdict.thy ===== *)
theory Resource_Verdict
  imports Resource_Tool
begin

text \<open>
  The contract between the report builders and the end of \<open>main\<close>: a report has a list of checks
  and a status that is \<open>FAIL\<close> exactly when one of them failed. The locale states it and shows, once
  for both builders, that the exit status agrees with the status in the report; the interpretations
  discharge it for the pre-link plan and the post-link report.
\<close>

section \<open>Reports\<close>

definition row_status :: "json \<Rightarrow> json option" where
  "row_status item = (case item of JObj row \<Rightarrow> map_of row ''status'' | _ \<Rightarrow> None)"

definition failed_row :: "json \<Rightarrow> bool" where
  "failed_row item \<longleftrightarrow> row_status item = Some (JStr ''FAIL'')"

locale check_report =
  fixes build :: "'i \<Rightarrow> dict res"
  assumes checks: "build i = Inr report \<Longrightarrow>
    \<exists>rows. map_of report ''checks'' = Some (JArr rows) \<and> (\<forall>row \<in> set rows. row_status row \<noteq> None) \<and>
      map_of report ''status'' = Some (JStr (if list_ex failed_row rows then ''FAIL'' else ''PASS''))"
    and labels: "build i = Inr report \<Longrightarrow> k \<in> {''deployment'', ''target'', ''backend''} \<Longrightarrow>
      map_of report k \<noteq> None"
begin

lemma subscript_status:
  "row_status row \<noteq> None \<Longrightarrow> \<exists>s. subscript row ''status'' = Inr s \<and> (failed_row row \<longleftrightarrow> s = JStr ''FAIL'')"
  by (cases row) (auto simp: row_status_def subscript_def getitem_def failed_row_def split: option.splits)

lemma find_failed:
  "\<forall>row \<in> set rows. row_status row \<noteq> None \<Longrightarrow>
     foldE (\<lambda>found item. if found \<noteq> None then Inr found
       else bindE (subscript item ''status'') (\<lambda>s.
            Inr (if s = JStr ''FAIL'' then Some item else None))) f rows =
     Inr (if f \<noteq> None then f else List.find failed_row rows)"
proof (induction rows arbitrary: f)
  case (Cons row rows)
  from Cons.prems have "row_status row \<noteq> None" by simp
  from subscript_status [OF this] obtain s where s: "subscript row ''status'' = Inr s"
    "failed_row row \<longleftrightarrow> s = JStr ''FAIL''" by (elim exE conjE)
  from Cons.prems have rows: "\<forall>row \<in> set rows. row_status row \<noteq> None" by simp
  show ?case by (simp only: foldE.simps s(1) bindE_simps s(2) [symmetric] Cons.IH [OF rows]) simp
qed simp

lemma first_failed_report:
  assumes "build i = Inr report"
  shows "\<exists>rows. map_of report ''checks'' = Some (JArr rows) \<and>
    first_failed report = Inr (List.find failed_row rows) \<and>
    map_of report ''status'' = Some (JStr (if List.find failed_row rows = None then ''PASS'' else ''FAIL''))"
proof -
  from checks [OF assms] obtain rows where rows: "map_of report ''checks'' = Some (JArr rows)"
    "\<forall>row \<in> set rows. row_status row \<noteq> None"
    "map_of report ''status'' = Some (JStr (if list_ex failed_row rows then ''FAIL'' else ''PASS''))"
    by (elim exE conjE)
  have "list_ex failed_row rows \<longleftrightarrow> List.find failed_row rows \<noteq> None"
    unfolding find_None_iff list_ex_iff by blast
  then have "map_of report ''status'' =
      Some (JStr (if List.find failed_row rows = None then ''PASS'' else ''FAIL''))"
    using rows(3) by simp
  moreover have "first_failed report = Inr (List.find failed_row rows)"
    using find_failed [OF rows(2), of None] rows(1) by (simp add: first_failed_def getitem_def iter_def)
  ultimately show ?thesis using rows(1) by (intro exI conjI)
qed

text \<open>The exit status agrees with the report, and a report without failures always concludes.\<close>

lemma conclude_status:
  assumes "build i = Inr report" and "conclude report marker = Inr (err, line, code)"
  shows "(code = 0 \<and> \<not> err \<and> map_of report ''status'' = Some (JStr ''PASS'')) \<or>
    (code = 2 \<and> err \<and> map_of report ''status'' = Some (JStr ''FAIL''))"
proof -
  from first_failed_report [OF assms(1)] obtain rows where
    f: "first_failed report = Inr (List.find failed_row rows)"
    and s: "map_of report ''status'' =
      Some (JStr (if List.find failed_row rows = None then ''PASS'' else ''FAIL''))"
    by (elim exE conjE)
  show ?thesis
  proof (cases "List.find failed_row rows")
    case None
    with assms(2) f have "code = 0 \<and> \<not> err"
      by (simp only: conclude_def bindE_simps bindE_eq_Inr option.case sum.inject prod.inject)
         (elim exE conjE, simp)
    with None s show ?thesis by simp
  next
    case (Some row)
    with assms(2) f have "code = 2 \<and> err"
      by (simp only: conclude_def bindE_simps bindE_eq_Inr option.case sum.inject prod.inject)
         (elim exE conjE, simp)
    with Some s show ?thesis by simp
  qed
qed

lemma conclude_pass:
  assumes "build i = Inr report" and "map_of report ''status'' = Some (JStr ''PASS'')"
  shows "\<exists>line. conclude report marker = Inr (False, line, 0)"
proof -
  have "map_of report ''deployment'' \<noteq> None" "map_of report ''target'' \<noteq> None"
    "map_of report ''backend'' \<noteq> None"
    by (rule labels [OF assms(1)], simp)+
  then obtain d t b where l: "map_of report ''deployment'' = Some d" "map_of report ''target'' = Some t"
    "map_of report ''backend'' = Some b"
    by (simp only: not_None_eq) (elim exE)
  from first_failed_report [OF assms(1)] obtain rows where
    f: "first_failed report = Inr (List.find failed_row rows)"
    and s: "map_of report ''status'' =
      Some (JStr (if List.find failed_row rows = None then ''PASS'' else ''FAIL''))"
    by (elim exE conjE)
  from s assms(2) have "List.find failed_row rows = None" by (simp split: if_splits)
  with f l show ?thesis by (simp add: conclude_def getitem_def)
qed

end

section \<open>The pre-link plan\<close>

lemma row_status_check_row [simp]: "row_status (check_row i c r a s d) = Some (JStr s)"
  by (simp add: row_status_def check_row_def)

lemma make_check_row: "make_check i c r a d = Inr row \<Longrightarrow> \<exists>s. row = check_row i c r a s d"
  by (auto simp: make_check_def bindE_eq_Inr)

text \<open>The rows that \<open>make_check\<close> builds.\<close>

definition check_like :: "json \<Rightarrow> bool" where
  "check_like row \<longleftrightarrow> (\<exists>i c r a s d. row = check_row i c r a s d)"

lemma check_like_row [simp]: "check_like (check_row i c r a s d)"
  unfolding check_like_def by (intro exI) (rule refl)

lemma check_like_status: "check_like row \<Longrightarrow> row_status row \<noteq> None"
  by (auto simp: check_like_def)

lemma make_check_like: "make_check i c r a d = Inr row \<Longrightarrow> check_like row"
  by (auto dest: make_check_row)

lemma status_of_failed:
  "\<forall>row \<in> set rows. row_status row \<noteq> None \<Longrightarrow>
     status_of rows = (if list_ex failed_row rows then ''FAIL'' else ''PASS'')"
proof -
  assume "\<forall>row \<in> set rows. row_status row \<noteq> None"
  then have "(case row of JObj d \<Rightarrow> dict_get d ''status'' = JStr ''FAIL'' | _ \<Rightarrow> False) = failed_row row"
    if "row \<in> set rows" for row
    by (cases row) (simp_all add: failed_row_def row_status_def dict_get_def split: option.splits)
  then have "list_ex (\<lambda>row. case row of JObj d \<Rightarrow> dict_get d ''status'' = JStr ''FAIL'' | _ \<Rightarrow> False) rows
      = list_ex failed_row rows"
    by (rule list_ex_cong [OF refl])
  then show ?thesis by (simp only: status_of_def)
qed

lemma local_checks_rows:
  "local_checks config r es = Inr rows \<Longrightarrow> \<forall>row \<in> set rows. check_like row"
  by (auto simp: local_checks_def Let_def bindE_eq_Inr dest!: make_check_like)

lemma remote_checks_rows:
  assumes "remote_checks config r = Inr x"
  shows "\<forall>row \<in> set (snd x). check_like row"
proof -
  have one: "remote_check config remote e = Inr row \<Longrightarrow> check_like row" for remote e row
    by (auto simp: remote_check_def Let_def resource_reject_def split: prod.splits option.splits if_splits
        dest: make_check_like)
  from assms obtain remote' where "list_all2 (\<lambda>e row. remote_check config remote' e = Inr row)
      REMOTE_CONFIG_KEYS (snd x)"
    by (auto simp: remote_checks_def bindE_eq_Inr mapE_eq_Inr resource_reject_def split: option.splits)
  then show ?thesis by (induction rule: list_all2_induct) (auto dest: one)
qed

lemma worker_checks_rows:
  "worker_checks a b c = Inr rows \<Longrightarrow> \<forall>row \<in> set rows. check_like row"
  by (auto simp: worker_checks_def bindE_eq_Inr dest!: make_check_like)

lemma prelink_plan_report:
  assumes "build_prelink_plan p config target sync = Inr report"
  shows "\<exists>rows. map_of report ''checks'' = Some (JArr rows) \<and> (\<forall>row \<in> set rows. check_like row) \<and>
    map_of report ''status'' = Some (JStr (status_of rows))"
    and "k \<in> {''deployment'', ''target'', ''backend''} \<Longrightarrow> map_of report k \<noteq> None"
proof -
  from assms obtain c ls remote ws ram row f and wb :: "json \<times> json \<times> json" and
      budgets :: "json \<times> json" where
    rows: "local_checks config (c_resources c) (c_endpoints c) = Inr ls"
      "remote_checks config (c_resources c) = Inr remote"
      "worker_checks (fst wb) (fst (snd wb)) (snd (snd wb)) = Inr ws"
      "make_check ''known_prelink_ram_slices'' ''E_RESOURCE_RAM_BUDGET'' ram (snd budgets)
         ''known stack, heap, and application reservations must fit the RAM budget'' = Inr row"
    and report: "report = plan_document config sync c f (ls @ snd remote @ ws @ [row])"
    unfolding build_prelink_plan_def Let_def case_prod_beta bindE_eq_Inr sum.inject
    by (elim exE conjE) (rule that, (assumption | rule sym)+)
  have "\<forall>row \<in> set (ls @ snd remote @ ws @ [row]). check_like row"
    using local_checks_rows [OF rows(1)] remote_checks_rows [OF rows(2)]
      worker_checks_rows [OF rows(3)] make_check_like [OF rows(4)] by auto
  then show "\<exists>rows. map_of report ''checks'' = Some (JArr rows) \<and>
      (\<forall>row \<in> set rows. check_like row) \<and> map_of report ''status'' = Some (JStr (status_of rows))"
    by (simp add: report plan_document_def)
  show "k \<in> {''deployment'', ''target'', ''backend''} \<Longrightarrow> map_of report k \<noteq> None"
    by (auto simp: report plan_document_def)
qed

interpretation plan_report: check_report
  "\<lambda>(p, config, target, sync). build_prelink_plan p config target sync"
proof
  fix i report k
  assume b: "(case i of (p, config, target, sync) \<Rightarrow> build_prelink_plan p config target sync) = Inr report"
  obtain p config target sync where i: "i = (p, config, target, sync)" by (cases i)
  from b i have r: "build_prelink_plan p config target sync = Inr report" by simp
  from prelink_plan_report(1) [OF r] obtain rows where "map_of report ''checks'' = Some (JArr rows)"
    and like: "\<forall>row \<in> set rows. check_like row" and "map_of report ''status'' = Some (JStr (status_of rows))"
    by (elim exE conjE)
  moreover have "\<forall>row \<in> set rows. row_status row \<noteq> None" using like check_like_status by blast
  ultimately show "\<exists>rows. map_of report ''checks'' = Some (JArr rows) \<and> (\<forall>row \<in> set rows. row_status row \<noteq> None) \<and>
      map_of report ''status'' = Some (JStr (if list_ex failed_row rows then ''FAIL'' else ''PASS''))"
    unfolding status_of_failed [OF \<open>\<forall>row \<in> set rows. row_status row \<noteq> None\<close>] by (intro exI conjI)
  show "k \<in> {''deployment'', ''target'', ''backend''} \<Longrightarrow> map_of report k \<noteq> None"
    by (rule prelink_plan_report(2) [OF r])
qed

section \<open>The post-link report\<close>

lemma failing_rows:
  assumes "failing rows = Inr failed"
  shows "(\<forall>row \<in> set rows. row_status row \<noteq> None) \<and> (failed \<noteq> [] \<longleftrightarrow> list_ex failed_row rows)"
proof -
  let ?f = "\<lambda>item. bindE (subscript item ''status'') (\<lambda>s. Inr (s = JStr ''FAIL'', item))"
  from assms obtain ps where ps: "list_all2 (\<lambda>item p. ?f item = Inr p) rows ps"
    "failed = map snd (filter fst ps)"
    by (auto simp: failing_def bindE_eq_Inr mapE_eq_Inr)
  have "?f item = Inr p \<Longrightarrow> row_status item \<noteq> None \<and> fst p = failed_row item" for item p
    by (auto simp: bindE_eq_Inr subscript_eq_Inr row_status_def failed_row_def)
  with ps(1) have "list_all2 (\<lambda>item p. row_status item \<noteq> None \<and> fst p = failed_row item) rows ps"
    by (rule list_all2_mono)
  then have "(\<forall>row \<in> set rows. row_status row \<noteq> None) \<and> list_ex fst ps = list_ex failed_row rows"
    by (induction rows ps rule: list_all2_induct) auto
  then show ?thesis unfolding ps(2) by (auto simp: filter_empty_conv list_ex_iff)
qed

lemma postlink_report_rows:
  assumes "build_postlink_report env plan linked runtime = Inr report"
  obtains rows failed target backend deployment planned budgets where "failing rows = Inr failed"
    "report = report_document plan target backend deployment planned budgets linked runtime failed rows"
  using assms
  unfolding build_postlink_report_def Let_def resource_reject_def if_raise_eq_Inr bindE_eq_Inr
    sum.inject
  by (elim exE conjE) (rule that, assumption, rule sym)

interpretation link_report: check_report
  "\<lambda>(env, plan, linked, runtime). build_postlink_report env plan linked runtime"
proof
  fix i report k
  assume b: "(case i of (env, plan, linked, runtime) \<Rightarrow>
    build_postlink_report env plan linked runtime) = Inr report"
  obtain env plan linked runtime where i: "i = (env, plan, linked, runtime)" by (cases i)
  from b i have "build_postlink_report env plan linked runtime = Inr report" by simp
  then obtain rows failed target backend deployment planned budgets where f: "failing rows = Inr failed"
    and report: "report =
      report_document plan target backend deployment planned budgets linked runtime failed rows"
    by (rule postlink_report_rows)
  from failing_rows [OF f] show "\<exists>rows. map_of report ''checks'' = Some (JArr rows) \<and>
      (\<forall>row \<in> set rows. row_status row \<noteq> None) \<and>
      map_of report ''status'' = Some (JStr (if list_ex failed_row rows then ''FAIL'' else ''PASS''))"
    by (simp add: report report_document_def)
  show "k \<in> {''deployment'', ''target'', ''backend''} \<Longrightarrow> map_of report k \<noteq> None"
    by (auto simp: report report_document_def)
qed

end
