(* ===== verification/Elf_Image.thy ===== *)
theory Elf_Image
  imports Elf_Sections
begin

text \<open>
  A writer of ELF images: file header, section name table, section header table. Reading a written
  image gives the sections back, for both classes and both byte orders.
\<close>

section \<open>The writer\<close>

definition name_bytes :: "string \<Rightarrow> bytes" where
  "name_bytes s = map (\<lambda>c. word_of_nat (ord c)) s"

definition name_table :: "elf_section list \<Rightarrow> bytes" where
  "name_table secs = concat (map (\<lambda>s. name_bytes (sec_name s) @ [0]) secs)"

text \<open>The section that holds the names comes last; its size is the size of the table.\<close>

definition with_names :: "elf_section list \<Rightarrow> elf_section list" where
  "with_names secs =
     (let nm = ''.shstrtab'';
          n = length (name_table secs) + Suc (length nm)
      in secs @ [\<lparr>sec_name = nm, sec_address = 0, sec_size = n, sec_type = 3, sec_flags = 0\<rparr>])"

definition word_size :: "bool \<Rightarrow> nat" where "word_size wide = (if wide then 8 else 4)"
definition ehdr :: "bool \<Rightarrow> nat list" where "ehdr wide = (if wide then ehdr64 else ehdr32)"
definition shdr :: "bool \<Rightarrow> nat list" where "shdr wide = (if wide then shdr64 else shdr32)"

definition section_fields :: "bool \<Rightarrow> elf_section list \<Rightarrow> nat \<Rightarrow> nat list" where
  "section_fields wide all i =
     (let s = all ! i
      in [length (name_table (take i all)), sec_type s, sec_flags s, sec_address s,
          if Suc i = length all then sum_list (ehdr wide) else 0, sec_size s, 0, 0, 0, 0])"

definition ident :: "bool \<Rightarrow> bool \<Rightarrow> bytes" where
  "ident wide little =
     elf_magic @ [if wide then 2 else 1, if little then 1 else 2] @ replicate 10 0"

definition header_fields :: "bool \<Rightarrow> elf_section list \<Rightarrow> nat list" where
  "header_fields wide all =
     [2, 0, 1, 0, 0, sum_list (ehdr wide) + length (name_table all), 0, sum_list (ehdr wide), 0, 0,
      sum_list (shdr wide), length all, length all - 1]"

definition section_table :: "bool \<Rightarrow> bool \<Rightarrow> elf_section list \<Rightarrow> bytes" where
  "section_table wide little all =
     concat (map (\<lambda>i. pack little (shdr wide) (section_fields wide all i)) [0..<length all])"

definition elf_image :: "bool \<Rightarrow> bool \<Rightarrow> elf_section list \<Rightarrow> bytes" where
  "elf_image wide little secs =
     (let all = with_names secs
      in ident wide little @ pack little (tl (ehdr wide)) (header_fields wide all)
         @ name_table all @ section_table wide little all)"

section \<open>Well-formed images\<close>

definition name_ok :: "string \<Rightarrow> bool" where
  "name_ok s \<longleftrightarrow> (\<forall>c \<in> set s. 0 < ord c \<and> ord c < 128)"

definition section_ok :: "bool \<Rightarrow> elf_section \<Rightarrow> bool" where
  "section_ok wide s \<longleftrightarrow>
     name_ok (sec_name s) \<and> sec_type s < 256 ^ 4 \<and> sec_flags s < 256 ^ word_size wide \<and>
     sec_address s < 256 ^ word_size wide \<and> sec_size s < 256 ^ word_size wide"

definition image_ok :: "bool \<Rightarrow> elf_section list \<Rightarrow> bool" where
  "image_ok wide secs \<longleftrightarrow>
     list_all (section_ok wide) secs \<and> length secs < 65535 \<and>
     length (name_table secs) + 100 < 256 ^ 4"

text \<open>The decoder of names is the identity on ASCII.\<close>

definition decodes_ascii :: "(bytes \<Rightarrow> string) \<Rightarrow> bool" where
  "decodes_ascii dec \<longleftrightarrow> (\<forall>s. name_ok s \<longrightarrow> dec (name_bytes s) = s)"

section \<open>Reading the image\<close>

lemma concat_blocks:
  assumes "i < n" and "\<And>j. j < n \<Longrightarrow> length (f j) = k"
  shows "\<exists>post. concat (map f [0..<n]) = concat (map f [0..<i]) @ f i @ post \<and>
    length (concat (map f [0..<i])) = i * k"
proof -
  have "[0..<n] = [0..<i] @ i # [Suc i..<n]"
    using assms(1) upt_add_eq_append [of 0 i "n - i"] by (simp add: upt_conv_Cons)
  moreover have "length (concat (map f [0..<i])) = i * k"
    using assms by (induction i) simp_all
  ultimately show ?thesis by (intro exI [of _ "concat (map f [Suc i..<n])"]) simp
qed

lemma name_table_simps [simp]:
  "name_table [] = []"
  "name_table (xs @ ys) = name_table xs @ name_table ys"
  "name_table (x # ys) = name_bytes (sec_name x) @ 0 # name_table ys"
  by (simp_all add: name_table_def)

lemma name_bytes_nonzero:
  assumes "name_ok s"
  shows "\<forall>b \<in> set (name_bytes s). b \<noteq> 0"
proof
  fix b assume "b \<in> set (name_bytes s)"
  then obtain c where c: "c \<in> set s" "b = word_of_nat (ord c)" by (auto simp: name_bytes_def)
  then have "0 < ord c" "ord c < 2 ^ 8" using assms by (auto simp: name_ok_def)
  then have "unat b = ord c" unfolding c(2) by (simp add: unat_of_nat take_bit_nat_eq_self)
  with \<open>0 < ord c\<close> show "b \<noteq> 0" by auto
qed

lemma section_name_table:
  assumes "decodes_ascii dec" and "i < length all" and "name_ok (sec_name (all ! i))"
  shows "section_name dec (name_table all) (length (name_table (take i all))) = sec_name (all ! i)"
proof -
  let ?n = "sec_name (all ! i)"
  have "name_table all = name_table (take i all) @ name_table (all ! i # drop (Suc i) all)"
    using assms(2) by (metis id_take_nth_drop name_table_simps(2))
  then have "drop (length (name_table (take i all))) (name_table all) =
      name_bytes ?n @ 0 # name_table (drop (Suc i) all)"
    by simp
  moreover have "takeWhile (\<lambda>b. b \<noteq> 0) (name_bytes ?n @ 0 # rest) = name_bytes ?n" for rest
    using name_bytes_nonzero [OF assms(3)] by (subst takeWhile_append2) auto
  ultimately show ?thesis using assms by (simp add: section_name_def decodes_ascii_def)
qed

lemma with_names_ok:
  assumes "image_ok wide secs" and "s \<in> set (with_names secs)"
  shows "section_ok wide s"
proof -
  have "length (name_table secs) + 10 < 256 ^ word_size wide"
    using assms(1) by (simp add: image_ok_def word_size_def)
  with assms show ?thesis
    by (auto simp: with_names_def Let_def image_ok_def section_ok_def name_ok_def list_all_iff)
qed

lemma name_table_prefix: "length (name_table (take i all)) \<le> length (name_table all)"
  by (metis append_take_drop_id le_add1 length_append name_table_simps(2))

lemma length_with_names: "length (with_names secs) = Suc (length secs)"
  by (simp add: with_names_def Let_def)

lemma length_name_table_with_names:
  "length (name_table (with_names secs)) = length (name_table secs) + 10"
  by (simp add: with_names_def Let_def name_bytes_def)

lemma fits_section_fields:
  assumes "image_ok wide secs" and "i < length (with_names secs)"
  shows "fits (shdr wide) (section_fields wide (with_names secs) i)"
proof -
  let ?all = "with_names secs"
  have "section_ok wide (?all ! i)" using with_names_ok [OF assms(1)] assms(2) by simp
  moreover have "length (name_table (take i ?all)) < 256 ^ 4"
    using name_table_prefix [of i ?all] assms(1) length_name_table_with_names [of secs]
    by (simp add: image_ok_def)
  ultimately show ?thesis
    by (auto simp: fits_def section_fields_def Let_def shdr_def shdr32_def shdr64_def section_ok_def
        word_size_def ehdr_def ehdr32_def ehdr64_def)
qed

lemma fits_header_fields:
  assumes "image_ok wide secs"
  shows "fits (tl (ehdr wide)) (header_fields wide (with_names secs))"
  using assms length_name_table_with_names [of secs]
  by (auto simp: fits_def header_fields_def ehdr_def ehdr32_def ehdr64_def shdr_def shdr32_def
      shdr64_def length_with_names image_ok_def)

lemma unpack_header:
  assumes "fits ns vs" and "length idt = n"
  shows "unpack_from little (n # ns) (idt @ pack little ns vs @ rest) 0 =
    Inr (uint_val little idt # vs)"
proof -
  have "length ns = length vs" using assms(1) by (simp add: fits_def list_all2_lengthD)
  then show ?thesis using assms unpack_pack [OF assms(1), of little rest]
    by (simp add: unpack_from_def length_pack)
qed

lemma elf_image_sections:
  assumes "image_ok wide secs" and "i < length (with_names secs)"
  shows "unpack_from little (shdr wide) (elf_image wide little secs)
      (sum_list (ehdr wide) + length (name_table (with_names secs)) + i * sum_list (shdr wide)) =
    Inr (section_fields wide (with_names secs) i)"
proof -
  let ?all = "with_names secs"
  let ?f = "\<lambda>i. pack little (shdr wide) (section_fields wide ?all i)"
  let ?pre = "ident wide little @ pack little (tl (ehdr wide)) (header_fields wide ?all) @ name_table ?all"
  have len: "length (?f j) = sum_list (shdr wide)" for j
    by (rule length_pack) (simp add: shdr_def shdr32_def shdr64_def section_fields_def Let_def)
  obtain post where post: "section_table wide little ?all = concat (map ?f [0..<i]) @ ?f i @ post"
      "length (concat (map ?f [0..<i])) = i * sum_list (shdr wide)"
    unfolding section_table_def using concat_blocks [OF assms(2), of ?f] len by blast
  have "length (pack little (tl (ehdr wide)) (header_fields wide ?all)) = sum_list (tl (ehdr wide))"
    by (rule length_pack) (simp add: ehdr_def ehdr32_def ehdr64_def header_fields_def)
  then have pre: "length ?pre = sum_list (ehdr wide) + length (name_table ?all)"
    by (simp add: ident_def elf_magic_def ehdr_def ehdr32_def ehdr64_def)
  show ?thesis
  proof (rule unpack_from_pack)
    show "fits (shdr wide) (section_fields wide ?all i)" by (rule fits_section_fields [OF assms])
    show "elf_image wide little secs = (?pre @ concat (map ?f [0..<i])) @ ?f i @ post"
      by (simp add: elf_image_def Let_def post(1))
    show "sum_list (ehdr wide) + length (name_table ?all) + i * sum_list (shdr wide) =
        length (?pre @ concat (map ?f [0..<i]))"
      unfolding length_append pre [unfolded length_append] post(2) by simp
  qed
qed

lemma elf_image_header:
  assumes "image_ok wide secs"
  shows "unpack_from little (ehdr wide) (elf_image wide little secs) 0 =
    Inr (uint_val little (ident wide little) # header_fields wide (with_names secs))"
proof -
  have e: "ehdr wide = 16 # tl (ehdr wide)" by (simp add: ehdr_def ehdr32_def ehdr64_def)
  show ?thesis
    unfolding elf_image_def Let_def
    by (subst e) (rule unpack_header [OF fits_header_fields [OF assms]],
        simp add: ident_def elf_magic_def)
qed

lemma elf_image_names:
  "take (length (name_table (with_names secs))) (drop (sum_list (ehdr wide)) (elf_image wide little secs)) =
     name_table (with_names secs)"
proof -
  let ?all = "with_names secs"
  have "length (pack little (tl (ehdr wide)) (header_fields wide ?all)) = sum_list (tl (ehdr wide))"
    by (rule length_pack) (simp add: ehdr_def ehdr32_def ehdr64_def header_fields_def)
  then have "length (ident wide little @ pack little (tl (ehdr wide)) (header_fields wide ?all)) =
      sum_list (ehdr wide)"
    by (simp add: ident_def elf_magic_def ehdr_def ehdr32_def ehdr64_def)
  then show ?thesis
    unfolding elf_image_def Let_def append_assoc [symmetric]
    by (metis append_assoc append_eq_conv_conj)
qed

lemma read_section_fields:
  assumes "decodes_ascii dec" and "image_ok wide secs" and "i < length (with_names secs)"
  shows "read_section dec (name_table (with_names secs)) (section_fields wide (with_names secs) i) =
    with_names secs ! i"
proof -
  have "name_ok (sec_name (with_names secs ! i))"
    using with_names_ok [OF assms(2)] assms(3) by (simp add: section_ok_def)
  from section_name_table [OF assms(1,3) this] show ?thesis
    by (simp add: read_section_def section_fields_def Let_def)
qed

lemma parse_elf_image:
  assumes "decodes_ascii dec" and "image_ok wide secs"
  shows "parse_elf_data dec path (elf_image wide little secs) = Inr (with_names secs)"
proof -
  let ?all = "with_names secs" and ?img = "elf_image wide little secs"
  let ?n = "length secs"
  have n: "length ?all = Suc ?n" by (rule length_with_names)
  have idt: "take 4 ?img = elf_magic" "\<not> length ?img < 6" "?img ! 4 = (if wide then 2 else 1)"
    "?img ! 5 = (if little then 1 else 2)"
    by (simp_all add: elf_image_def ident_def elf_magic_def Let_def nth_append)
  have fmt: "(if ?img ! 4 = 1 then ehdr32 else ehdr64) = ehdr wide"
    "(if ?img ! 4 = 1 then shdr32 else shdr64) = shdr wide" "(?img ! 5 = 1) = little"
    by (simp_all add: idt ehdr_def shdr_def)
  have raw: "mapE (\<lambda>i. unpack_from little (shdr wide) ?img
      (sum_list (ehdr wide) + length (name_table ?all) + i * sum_list (shdr wide))) [0..<Suc ?n] =
    Inr (map (section_fields wide ?all) [0..<Suc ?n])"
    by (intro mapE_pure elf_image_sections [OF assms(2)]) (auto simp: n)
  have last: "map (section_fields wide ?all) [0..<Suc ?n] ! ?n = section_fields wide ?all ?n"
    by (simp del: upt_Suc)
  have names: "section_fields wide ?all ?n ! 4 = sum_list (ehdr wide)"
    "section_fields wide ?all ?n ! 5 = length (name_table ?all)"
    by (simp_all add: section_fields_def Let_def n length_name_table_with_names)
       (simp add: with_names_def Let_def)
  have res: "map (read_section dec (name_table ?all)) (map (section_fields wide ?all) [0..<Suc ?n]) = ?all"
    using read_section_fields [OF assms] n
    by (intro nth_equalityI) (simp_all del: upt_Suc)
  have hdr: "header_fields wide ?all ! 5 = sum_list (ehdr wide) + length (name_table ?all)"
    "header_fields wide ?all ! 10 = sum_list (shdr wide)" "header_fields wide ?all ! 11 = Suc ?n"
    "header_fields wide ?all ! 12 = ?n"
    by (simp_all add: header_fields_def n)
  have valid: "?img ! 5 \<in> {1, 2} \<and> ?img ! 4 \<in> {1, 2}" by (simp add: idt)
  show ?thesis
    unfolding parse_elf_data_def Let_def fmt elf_image_header [OF assms(2)] bindE_simps
    using idt(1,2) valid
    by (simp add: hdr raw last names elf_image_names res del: upt_Suc map_map)
qed

section \<open>Properties\<close>

text \<open>
  Property C4. The ELF reader recovers every section of a written image - name, address, size, type
  and flags - in the order of the section table, for 32-bit and 64-bit images in both byte orders.
  The name decoder is any function that is the identity on ASCII.
\<close>

theorem elf_roundtrip:
  assumes "decodes_ascii dec" and "image_ok wide secs"
  shows "parse_elf_data dec path (elf_image wide little secs) = Inr (with_names secs)"
  by (rule parse_elf_image [OF assms])

definition ascii_dec :: "bytes \<Rightarrow> string" where
  "ascii_dec bs = map (\<lambda>b. char_of (unat b)) bs"

lemma ascii_dec_ok: "decodes_ascii ascii_dec"
proof -
  have "char_of (unat (word_of_nat (ord c) :: 8 word)) = c" for c
    by (simp add: unat_of_nat take_bit_nat_eq_self of_char_eq_iff)
  then show ?thesis by (simp add: decodes_ascii_def ascii_dec_def name_bytes_def map_idI)
qed

theorem elf_roundtrip_witness:
  "\<exists>names. parse_elf_data ascii_dec ''zephyr.elf'' (elf_image False True
     [\<lparr>sec_name = ''text'', sec_address = 4096, sec_size = 512, sec_type = 1, sec_flags = 6\<rparr>]) =
   Inr [\<lparr>sec_name = ''text'', sec_address = 4096, sec_size = 512, sec_type = 1, sec_flags = 6\<rparr>, names]"
proof -
  let ?s = "\<lparr>sec_name = ''text'', sec_address = 4096, sec_size = 512, sec_type = 1, sec_flags = 6\<rparr>"
  have "image_ok False [?s]"
    by (simp add: image_ok_def section_ok_def name_ok_def word_size_def name_bytes_def)
  from elf_roundtrip [OF ascii_dec_ok this] show ?thesis by (simp add: with_names_def Let_def)
qed

section \<open>Exceptions of the reader\<close>

lemma le_val_less: "le_val bs < 256 ^ length bs"
proof (induction bs)
  case (Cons b bs)
  have "unat b < 256" using unsigned_less [of b] by simp
  with Cons.IH show ?case by simp
qed simp

lemma unpack_nth:
  "i < length ns \<Longrightarrow> unpack little ns bs ! i < 256 ^ (ns ! i)"
proof (induction little ns bs arbitrary: i rule: unpack.induct)
  case (2 little n ns bs)
  have "uint_val little (take n bs) < 256 ^ length (take n bs)"
    using le_val_less [of "take n bs"] le_val_less [of "rev (take n bs)"] by (simp add: uint_val_def)
  also have "\<dots> \<le> 256 ^ n" by (rule power_increasing) simp_all
  finally have "uint_val little (take n bs) < 256 ^ n" .
  with 2 show ?case by (cases i) simp_all
qed simp

text \<open>The offsets of a 32-bit section table are small.\<close>

lemma table_offset32:
  assumes "unpack_from little ehdr32 data 0 = Inr header" and "index < header ! 12"
  shows "header ! 6 + index * header ! 11 < 2 ^ 63"
proof -
  have h: "header = unpack little ehdr32 data" using assms(1) by (simp add: unpack_from_def split: if_splits)
  have "header ! 6 < 2 ^ 32" "header ! 11 < 2 ^ 16" "header ! 12 < 2 ^ 16"
    using unpack_nth [of 6 ehdr32 little data] unpack_nth [of 11 ehdr32 little data] unpack_nth [of 12 ehdr32 little data]
    unfolding h by (simp_all add: ehdr32_def)
  moreover from this assms(2) have "index * header ! 11 \<le> 2 ^ 16 * 2 ^ 16" by (intro mult_le_mono) simp_all
  ultimately show ?thesis by simp
qed

text \<open>
  Property C18. On every byte string the reader returns a section list or raises one of four exceptions:
  \<open>ResourceError\<close> with \<open>E_RESOURCE_ARTIFACT\<close> (not an ELF file, an unsupported format, no section table),
  \<open>IndexError\<close> (the file ends within the first six bytes), \<open>struct.error\<close> (a truncated header or section
  table), or, on a 64-bit file only, \<open>OverflowError\<close> (an entry of the section table that starts at \<open>2\<^sup>6\<^sup>3\<close> or later).
\<close>

theorem elf_reader_errors:
  assumes "parse_elf_data dec path data = Inl e"
  shows "(\<exists>m. e = ResourceError ''E_RESOURCE_ARTIFACT'' m) \<or> e = IndexError \<and> length data < 6 \<or>
    e = StructError \<or> e = OverflowError \<and> data ! 4 = 2"
proof -
  let ?P = "\<lambda>e. (\<exists>m. e = ResourceError ''E_RESOURCE_ARTIFACT'' m) \<or> e = IndexError \<and> length data < 6 \<or>
    e = StructError \<or> e = OverflowError \<and> data ! 4 = 2"
  have u: "raises_only ?P (unpack_from l f data off)" if "data ! 4 = 2 \<or> off < 2 ^ 63" for l f off
    using that by (auto simp: unpack_from_def)
  have r: "raises_only ?P (resource_reject ''E_RESOURCE_ARTIFACT'' m)" for m
    by (simp add: resource_reject_def)
  have "raises_only ?P (parse_elf_data dec path data)"
    unfolding parse_elf_data_def Let_def
    by (intro raises_only_if raises_only_bindE raises_only_mapE u r raises_only_simps)
       (auto dest: table_offset32 split: if_splits)
  from raises_onlyD [OF this assms] show ?thesis .
qed

text \<open>A 64-bit header whose section table starts at \<open>2\<^sup>6\<^sup>3\<close>.\<close>

definition far_table :: bytes where
  "far_table = elf_magic @ [2, 1] @ replicate 10 0 @ pack True (tl ehdr64) [0, 0, 0, 0, 0, 2 ^ 63, 0, 0, 0, 0, 0, 1, 0]"

theorem elf_reader_errors_witness:
  "parse_elf_data ascii_dec ''f'' far_table = Inl OverflowError"
proof -
  let ?vs = "[0, 0, 0, 0, 0, 2 ^ 63, 0, 0, 0, 0, 0, 1, 0] :: nat list"
  have header: "unpack_from True ehdr64 far_table 0 = Inr (uint_val True (elf_magic @ [2, 1] @ replicate 10 0) # ?vs)"
    using unpack_header [where n = 16 and idt = "elf_magic @ [2, 1] @ replicate 10 0" and ns = "tl ehdr64" and vs = ?vs
      and little = True and rest = "[]"]
    by (simp add: far_table_def ehdr64_def elf_magic_def fits_def)
  have "length far_table = 64" by (simp add: far_table_def elf_magic_def length_pack ehdr64_def)
  then have "unpack_from True shdr64 far_table (2 ^ 63) = Inl OverflowError" by (simp add: unpack_from_def shdr64_def)
  with header have "parse_elf_data ascii_dec ''f'' far_table = Inl OverflowError"
    by (simp add: parse_elf_data_def) (simp add: far_table_def elf_magic_def)
  from elf_reader_errors [OF this] this show ?thesis by blast
qed

end
