(* ===== verification/Py_Scan.thy ===== *)
theory Py_Scan
  imports Py_Regex Py_Json
begin

text \<open>
  What the greedy matcher reports on texts made of names, separators and numbers, as the firmware
  prints them: a class repeated before a separator outside the class takes the whole run, and a
  scan passes over text without the separator. The printed form of a list of fields is shown to be
  read back by \<open>findall\<close>.
\<close>

section \<open>Greedy runs\<close>

definition stops :: "cls \<Rightarrow> string \<Rightarrow> bool" where
  "stops k s \<longleftrightarrow> s = [] \<or> \<not> in_cls k (hd s)"

lemma run_Star_greedy:
  assumes "list_all (in_cls k) u" and "stops k v"
  shows "run m (Star (Set k)) (p, u @ v, g) =
    map (\<lambda>i. (rev (take i u) @ p, drop i u @ v, g)) (rev [0..<Suc (length u)])"
  using assms(1)
proof (induction u arbitrary: p)
  case Nil
  with assms(2) show ?case by (cases v) (auto simp: stops_def)
next
  case (Cons c u)
  have "[0..<Suc (length (c # u))] = 0 # map Suc [0..<Suc (length u)]"
    by (metis length_Cons map_Suc_upt upt_conv_Cons zero_less_Suc)
  with Cons show ?case by (simp add: rev_map comp_def del: upt_Suc)
qed

lemma run_Star_first:
  assumes "list_all (in_cls k) u" and "stops k v"
  shows "run m (Star (Set k)) (p, u @ v, g) = (rev u @ p, v, g) #
    map (\<lambda>i. (rev (take i u) @ p, drop i u @ v, g)) (rev [0..<length u])"
  using run_Star_greedy [OF assms] by simp

text \<open>Backtracking into a run gives nothing when what follows needs a character outside the class.\<close>

definition needs :: "bool \<Rightarrow> rx \<Rightarrow> char \<Rightarrow> bool" where
  "needs m r c \<longleftrightarrow> (\<forall>p d s g. d \<noteq> c \<longrightarrow> run m r (p, d # s, g) = [])"

lemma needs_Lit: "needs m (Lit (c # t)) c"
  by (simp add: needs_def startswith_def)

lemma needs_Seq: "needs m q c \<Longrightarrow> needs m (Seq q r) c"
  by (simp add: needs_def)

lemma concat_first: "(\<And>x. x \<in> set xs \<Longrightarrow> f x = []) \<Longrightarrow> concat (map f (x0 # xs)) = f x0"
  by simp

lemma run_Star_then:
  assumes "list_all (in_cls k) u" and "needs m r c" and "\<not> in_cls k c"
  shows "run m (Seq (Star (Set k)) r) (p, u @ c # s, g) = run m r (rev u @ p, c # s, g)"
proof -
  have stop: "stops k (c # s)" using assms(3) by (simp add: stops_def)
  have "run m r (rev (take i u) @ p, drop i u @ c # s, g) = []" if "i < length u" for i
  proof -
    from that have "drop i u = u ! i # drop (Suc i) u" by (simp add: Cons_nth_drop_Suc)
    moreover from that assms(1,3) have "u ! i \<noteq> c" by (auto simp: list_all_length)
    ultimately show ?thesis using assms(2) by (simp add: needs_def)
  qed
  then show ?thesis
    by (subst run.simps, subst run_Star_first [OF assms(1) stop], subst concat_first) auto
qed

text \<open>A name or a number in a group, followed by a separator.\<close>

lemma run_Grp_Seq:
  "run m (Seq (Grp n q) r) (p, s, g) =
     concat (map (\<lambda>(p', s', g'). run m r (p', s', (n, take (length s - length s') s) # g'))
       (run m q (p, s, g)))"
  by (simp add: case_prod_unfold comp_def)

lemma run_Grp_Ident_then:
  assumes "ident_ok a b u" and "needs m r c" and "\<not> in_cls b c"
  shows "run m (Seq (Grp n (Seq (Set a) (Star (Set b)))) r) (p, u @ c # s, g) =
    run m r (rev u @ p, c # s, (n, u) # g)"
proof -
  from assms(1) obtain d w where u: "u = d # w" "in_cls a d" "list_all (in_cls b) w"
    by (auto simp: ident_ok_iff)
  have stop: "stops b (c # s)" using assms(3) by (simp add: stops_def)
  have no: "run m r (rev (take i w) @ d # p, drop i w @ c # s, g') = []" if "i < length w" for i g'
  proof -
    from that have "drop i w = w ! i # drop (Suc i) w" by (simp add: Cons_nth_drop_Suc)
    moreover from that u(3) assms(3) have "w ! i \<noteq> c" by (auto simp: list_all_length)
    ultimately show ?thesis using assms(2) by (simp add: needs_def)
  qed
  have "run m (Seq (Set a) (Star (Set b))) (p, u @ c # s, g) = (rev w @ d # p, c # s, g) #
      map (\<lambda>i. (rev (take i w) @ d # p, drop i w @ c # s, g)) (rev [0..<length w])"
    using u(1,2) run_Star_first [OF u(3) stop] by simp
  then show ?thesis
    unfolding run_Grp_Seq by (simp only:, subst concat_first) (auto simp: u(1) no)
qed

lemma run_Grp_Plus_then:
  assumes "list_all (in_cls k) u" and "u \<noteq> []" and "needs m r c" and "\<not> in_cls k c"
  shows "run m (Seq (Grp n (Plus (Set k))) r) (p, u @ c # s, g) = run m r (rev u @ p, c # s, (n, u) # g)"
  unfolding Plus_def
  by (rule run_Grp_Ident_then) (use assms in \<open>auto simp: ident_ok_iff neq_Nil_conv\<close>)

lemma run_Grp_Plus_last:
  assumes "list_all (in_cls k) u" and "u \<noteq> []" and "stops k v"
  shows "\<exists>rest. run m (Grp n (Plus (Set k))) (p, u @ v, g) = (rev u @ p, v, (n, u) # g) # rest"
proof -
  from assms(1,2) obtain d w where u: "u = d # w" "in_cls k d" "list_all (in_cls k) w"
    by (cases u) auto
  then show ?thesis
    using run_Star_first [OF u(3) assms(3), of m "d # p" g] by (simp add: Plus_def)
qed

lemma run_Lit_then [simp]:
  "run m (Seq (Lit t) r) (p, t @ s, g) = run m r (rev t @ p, s, g)"
  by (simp add: startswith_def)

section \<open>Scanning\<close>

lemma run_shrinks: "(p', s', g') \<in> set (run m r (p, s, g)) \<Longrightarrow> length s' \<le> length s"
proof (induction r arbitrary: p s g p' s' g')
  case (Set k)
  then show ?case unfolding run_Set by auto
next
  case (Lit t)
  then show ?case unfolding run_Lit by auto
next
  case (Seq q r)
  from Seq.prems obtain p1 s1 g1 where "(p1, s1, g1) \<in> set (run m q (p, s, g))"
    "(p', s', g') \<in> set (run m r (p1, s1, g1))" unfolding run_Seq by blast
  with Seq.IH show ?case by (meson order_trans)
next
  case (Star r)
  from Star.prems show ?case
  proof (induction "length s" arbitrary: p s g rule: less_induct)
    case less
    show ?case
    proof (cases "(p', s', g') = (p, s, g)")
      case False
      with less.prems obtain p1 s1 g1 where "length s1 < length s"
        "(p', s', g') \<in> set (run m (Star r) (p1, s1, g1))"
        by (subst (asm) run.simps(6)) (auto split: if_splits simp del: run.simps)
      with less.hyps show ?thesis by fastforce
    qed simp
  qed
next
  case (Lazy r)
  from Lazy.prems show ?case
  proof (induction "length s" arbitrary: p s g rule: less_induct)
    case less
    show ?case
    proof (cases "(p', s', g') = (p, s, g)")
      case False
      with less.prems obtain p1 s1 g1 where "length s1 < length s"
        "(p', s', g') \<in> set (run m (Lazy r) (p1, s1, g1))"
        by (subst (asm) run.simps(7)) (auto split: if_splits simp del: run.simps)
      with less.hyps show ?thesis by fastforce
    qed simp
  qed
next
  case (Grp n r)
  then show ?case unfolding run_Grp by blast
qed (auto split: if_splits)

lemma search_here: "run m r (p, s, []) = st # more \<Longrightarrow> rx_search_at m r p s = Some (s, st)"
  by (cases s) simp_all

text \<open>A pattern that consumes text; the scan of \<open>findall\<close> then goes on behind every match.\<close>

definition consumes :: "rx \<Rightarrow> bool" where
  "consumes r \<longleftrightarrow>
     (\<forall>m p s g p' s' g'. (p', s', g') \<in> set (run m r (p, s, g)) \<longrightarrow> length s' < length s)"

lemma consumes_Lit:
  assumes "t \<noteq> []"
  shows "consumes (Seq (Lit t) r)"
proof -
  have "length s' < length s" if "(p', s', g') \<in> set (run m (Seq (Lit t) r) (p, s, g))" for m p s g p' s' g'
  proof -
    from that obtain p1 s1 g1 where "(p1, s1, g1) \<in> set (run m (Lit t) (p, s, g))"
      and x: "(p', s', g') \<in> set (run m r (p1, s1, g1))"
      unfolding run_Seq by blast
    then have "s = t @ s1" unfolding run_Lit by blast
    with run_shrinks [OF x] assms show ?thesis by (cases t) simp_all
  qed
  then show ?thesis unfolding consumes_def by blast
qed

lemma rx_search_at_run:
  "rx_search_at m r p s = Some (t, st) \<Longrightarrow> \<exists>u q. s = u @ t \<and> st \<in> set (run m r (q, t, []))"
proof (induction s arbitrary: p)
  case Nil
  then show ?case by (auto split: list.splits) (metis list.set_intros(1))
next
  case (Cons c s)
  show ?case
  proof (cases "run m r (p, c # s, [])")
    case Nil
    with Cons obtain u q where "s = u @ t" "st \<in> set (run m r (q, t, []))" by fastforce
    then show ?thesis by (metis append_Cons)
  next
    case (Cons st' rest)
    with Cons.prems have "t = c # s" "st = st'" by simp_all
    with Cons have "c # s = [] @ t \<and> st \<in> set (run m r (p, t, []))" by simp
    then show ?thesis by blast
  qed
qed

lemma search_consumes:
  assumes "consumes r" and "rx_search_at m r p s = Some (t, p', s', g)"
  shows "length s' < length s"
proof -
  from rx_search_at_run [OF assms(2)] obtain u q where u: "s = u @ t" "(p', s', g) \<in> set (run m r (q, t, []))"
    by blast
  from u(2) assms(1) have "length s' < length t" unfolding consumes_def by blast
  with u(1) show ?thesis by simp
qed

lemma findall_step:
  assumes "consumes r"
  shows "findall_from m r p s =
     (case rx_search_at m r p s of
        None \<Rightarrow> [] | Some (_, p', s', g) \<Rightarrow> g # findall_from m r p' s')"
  by (subst findall_from.simps) (auto split: option.splits dest: search_consumes [OF assms])

lemma findall_search_eq:
  assumes "consumes r" and "rx_search_at m r p s = rx_search_at m r q t"
  shows "findall_from m r p s = findall_from m r q t"
  by (simp only: findall_step [OF assms(1), of m p s] findall_step [OF assms(1), of m q t] assms(2))

section \<open>Fields\<close>

text \<open>\<open>([A-Za-z_][A-Za-z0-9_]*)=([k]+)\<close> for a class of value characters.\<close>

definition FIELD_OF :: "cls \<Rightarrow> rx" where
  "FIELD_OF k = Seqs [Grp 1 (Seq (Set symbol_start) (Star (Set symbol_char))), Lit ''='',
                      Grp 2 (Plus (Set k))]"

definition is_symbol :: "string \<Rightarrow> bool" where
  "is_symbol s \<longleftrightarrow> ident_ok symbol_start symbol_char s"

text \<open>A printed line is a list of words and fields between blanks.\<close>

datatype token = Word string | Field string string

fun token_text :: "token \<Rightarrow> string" where
  "token_text (Word w) = w"
| "token_text (Field k v) = k @ ''='' @ v"

fun token_ok :: "cls \<Rightarrow> token \<Rightarrow> bool" where
  "token_ok k (Word w) \<longleftrightarrow> CHR '' '' \<notin> set w \<and>
     (\<forall>x y. w = x @ CHR ''='' # y \<longrightarrow> y = [] \<or> \<not> in_cls k (hd y))"
| "token_ok k (Field n v) \<longleftrightarrow> is_symbol n \<and> list_all (in_cls k) v \<and> v \<noteq> []"

fun token_caps :: "token \<Rightarrow> caps list" where
  "token_caps (Word w) = []"
| "token_caps (Field n v) = [[(2, v), (1, n)]]"

definition ends :: "string \<Rightarrow> bool" where
  "ends s \<longleftrightarrow> s = [] \<or> hd s = CHR '' ''"

lemma symbol_chars:
  "\<not> in_cls symbol_char CHR ''=''" "\<not> in_cls symbol_start CHR ''=''"
  "\<not> in_cls symbol_char CHR '' ''" "\<not> in_cls symbol_start CHR '' ''"
  by (simp_all add: in_cls_def symbol_char_def symbol_start_def)

lemma run_FIELD:
  assumes "is_symbol n" and "list_all (in_cls k) v" and "v \<noteq> []" and "stops k rest"
  shows "\<exists>more. run m (FIELD_OF k) (p, n @ CHR ''='' # v @ rest, []) =
    (rev v @ CHR ''='' # rev n @ p, rest, [(2, v), (1, n)]) # more"
proof -
  have "needs m (Seq (Lit ''='') (Grp 2 (Plus (Set k)))) CHR ''=''"
    by (rule needs_Seq [OF needs_Lit])
  from run_Grp_Ident_then [OF assms(1) [unfolded is_symbol_def] this symbol_chars(1)]
  have "run m (FIELD_OF k) (p, n @ CHR ''='' # v @ rest, []) =
      run m (Seq (Lit ''='') (Grp 2 (Plus (Set k)))) (rev n @ p, CHR ''='' # v @ rest, [(1, n)])"
    by (simp only: FIELD_OF_def Seqs.simps)
  with run_Grp_Plus_last [OF assms(2-4), of m 2 "CHR ''='' # rev n @ p" "[(1, n)]"] show ?thesis
    by (simp add: startswith_def)
qed

text \<open>A field needs an equals sign before the next blank with a value character behind it.\<close>

lemma run_FIELD_needs:
  assumes "run m (FIELD_OF k) (p, s, g) \<noteq> []"
  shows "\<exists>u c r. s = u @ CHR ''='' # c # r \<and> CHR '' '' \<notin> set u \<and> in_cls k c"
proof -
  from assms obtain x where "x \<in> set (run m (FIELD_OF k) (p, s, g))"
    by (cases "run m (FIELD_OF k) (p, s, g)") auto
  then have "x \<in> set (run m (Seq (Grp 1 (Ident symbol_start symbol_char))
      (Seq (Lit ''='') (Grp 2 (Plus (Set k))))) (p, s, g))"
    by (simp only: FIELD_OF_def Seqs.simps Ident_def)
  then obtain p1 s1 g1 where
    x: "(p1, s1, g1) \<in> set (run m (Grp 1 (Ident symbol_start symbol_char)) (p, s, g))"
      "x \<in> set (run m (Seq (Lit ''='') (Grp 2 (Plus (Set k)))) (p1, s1, g1))"
    unfolding run_Seq [of x m "Grp 1 (Ident symbol_start symbol_char)"] by blast
  from x(1) obtain u where u: "s = u @ s1" "ident_ok symbol_start symbol_char u"
    unfolding run_Grp run_Ident by blast
  obtain p2 s2 g2 where x2: "x = (p2, s2, g2)" by (cases x rule: prod_cases3) auto
  from x(2) obtain c r where "s1 = CHR ''='' # c # r" "in_cls k c"
    unfolding x2 run_Seq run_Grp run_Lit Plus_def run_Set by auto
  with u(1) ident_ok_notin [OF symbol_chars(4,3) u(2)] show ?thesis by blast
qed

lemma FIELD_not_in_word:
  assumes "token_ok k (Word (x @ w))" and "ends rest" and "\<not> in_cls k CHR '' ''"
  shows "run m (FIELD_OF k) (p, w @ rest, []) = []"
proof (rule ccontr)
  assume "run m (FIELD_OF k) (p, w @ rest, []) \<noteq> []"
  from run_FIELD_needs [OF this] obtain u c r where
    s: "w @ rest = u @ CHR ''='' # c # r" "CHR '' '' \<notin> set u" "in_cls k c" by blast
  show False
  proof (cases "length u < length w")
    case True
    then have "\<exists>y. w = u @ CHR ''='' # y \<and> y @ rest = c # r"
      using s(1) by (auto simp: append_eq_append_conv2 Cons_eq_append_conv append_eq_Cons_conv)
    then obtain y where y: "w = u @ CHR ''='' # y" "y @ rest = c # r" by blast
    then have "x @ w = (x @ u) @ CHR ''='' # y" by simp
    moreover from assms(1) have "\<forall>v y. x @ w = v @ CHR ''='' # y \<longrightarrow> y = [] \<or> \<not> in_cls k (hd y)" by simp
    ultimately have "y = [] \<or> \<not> in_cls k (hd y)" by blast
    with y(2) s(3) assms(2,3) show False by (cases y) (auto simp: ends_def)
  next
    case False
    then obtain z where "rest = z @ CHR ''='' # c # r" "u = w @ z"
      using s(1) by (auto simp: append_eq_append_conv2)
    with s(2) assms(2) show False by (cases z) (auto simp: ends_def)
  qed
qed

lemma search_past_word:
  assumes "token_ok k (Word (x @ w))" and "\<not> in_cls k CHR '' ''"
  shows "rx_search_at m (FIELD_OF k) p (w @ CHR '' '' # s) =
    rx_search_at m (FIELD_OF k) (CHR '' '' # rev w @ p) s"
  using assms(1)
proof (induction w arbitrary: x p)
  case Nil
  with FIELD_not_in_word [of k x "[]" "CHR '' '' # s" m p] assms(2) show ?case
    by (simp add: ends_def)
next
  case (Cons c w)
  have "run m (FIELD_OF k) (p, (c # w) @ CHR '' '' # s, []) = []"
    by (rule FIELD_not_in_word [OF Cons.prems _ assms(2)]) (simp add: ends_def)
  with Cons.IH [of "x @ [c]" "c # p"] Cons.prems show ?case by simp
qed

lemma search_in_word:
  assumes "token_ok k (Word (x @ w))" and "\<not> in_cls k CHR '' ''"
  shows "rx_search_at m (FIELD_OF k) p w = None"
  using assms(1)
proof (induction w arbitrary: x p)
  case Nil
  with FIELD_not_in_word [of k x "[]" "[]" m p] assms(2) show ?case by (simp add: ends_def)
next
  case (Cons c w)
  have "run m (FIELD_OF k) (p, (c # w) @ [], []) = []"
    by (rule FIELD_not_in_word [OF Cons.prems _ assms(2)]) (simp add: ends_def)
  with Cons.IH [of "x @ [c]" "c # p"] Cons.prems show ?case by simp
qed

lemma search_field:
  assumes "token_ok k (Field n v)" and "stops k rest"
  shows "\<exists>p'. rx_search_at m (FIELD_OF k) p (n @ CHR ''='' # v @ rest) =
    Some (n @ CHR ''='' # v @ rest, p', rest, [(2, v), (1, n)])"
proof -
  obtain more where "run m (FIELD_OF k) (p, n @ CHR ''='' # v @ rest, []) =
      (rev v @ CHR ''='' # rev n @ p, rest, [(2, v), (1, n)]) # more"
    using run_FIELD [of n k v rest m p] assms by auto
  from search_here [OF this] show ?thesis by blast
qed

text \<open>\<open>findall\<close> reads the fields of a printed line back, in order.\<close>

lemma consumes_FIELD: "consumes (FIELD_OF k)"
proof -
  have "length s' < length s" if "(p', s', g') \<in> set (run m (FIELD_OF k) (p, s, g))" for m p s g p' s' g'
  proof -
    have "(p', s', g') \<in> set (run m (Seq (Grp 1 (Ident symbol_start symbol_char))
        (Seq (Lit ''='') (Grp 2 (Ident k k)))) (p, s, g))"
      using that by (simp only: FIELD_OF_def Seqs.simps Ident_def Plus_def)
    then show ?thesis unfolding run_Seq run_Grp run_Ident run_Lit by auto
  qed
  then show ?thesis unfolding consumes_def by blast
qed

text \<open>\<open>findall\<close> reads the fields of a printed line back, in order.\<close>

lemma findall_tokens:
  assumes "list_all (token_ok k) ts" and "\<not> in_cls k CHR '' ''"
  shows "findall_from m (FIELD_OF k) p (join '' '' (map token_text ts)) = concat (map token_caps ts)"
  using assms(1)
proof (induction ts arbitrary: p)
  case Nil
  have "rx_search_at m (FIELD_OF k) p [] = None" by (rule search_in_word [of k "[]" "[]"]) (simp_all add: assms(2))
  then show ?case by (subst findall_step [OF consumes_FIELD]) simp
next
  case (Cons t ts)
  define rest where "rest = (if ts = [] then [] else CHR '' '' # join '' '' (map token_text ts))"
  have line: "join '' '' (map token_text (t # ts)) = token_text t @ rest"
    by (cases ts) (simp_all add: rest_def)
  have rest: "findall_from m (FIELD_OF k) q rest = concat (map token_caps ts)" for q
  proof (cases "ts = []")
    case True
    then show ?thesis using Cons.IH [of q] by (simp add: rest_def)
  next
    case False
    have "rx_search_at m (FIELD_OF k) q rest =
        rx_search_at m (FIELD_OF k) (CHR '' '' # q) (join '' '' (map token_text ts))"
      using search_past_word [of k "[]" "[]" m q] assms(2) False by (simp add: rest_def)
    from findall_search_eq [OF consumes_FIELD this] Cons show ?thesis by simp
  qed
  show ?case
  proof (cases t)
    case (Word w)
    with Cons.prems have w: "token_ok k (Word ([] @ w))" by simp
    show ?thesis
    proof (cases "ts = []")
      case True
      then show ?thesis using search_in_word [OF w assms(2), of m p] Word
        by (subst findall_step [OF consumes_FIELD]) simp
    next
      case False
      then have "rx_search_at m (FIELD_OF k) p (w @ rest) =
          rx_search_at m (FIELD_OF k) (rev w @ p) rest"
        using search_past_word [OF w assms(2), of m p] search_past_word [of k "[]" "[]" m "rev w @ p"]
          assms(2) by (simp add: rest_def)
      from findall_search_eq [OF consumes_FIELD this] line rest Word show ?thesis by simp
    qed
  next
    case (Field n v)
    have "stops k rest" using assms(2) by (simp add: rest_def stops_def)
    with Cons.prems Field search_field [of k n v rest m p] obtain p' where
      "rx_search_at m (FIELD_OF k) p (n @ CHR ''='' # v @ rest) =
         Some (n @ CHR ''='' # v @ rest, p', rest, [(2, v), (1, n)])" by auto
    with line rest Field show ?thesis by (subst findall_step [OF consumes_FIELD]) simp
  qed
qed

corollary findall_fields:
  assumes "list_all (token_ok k) ts" and "\<not> in_cls k CHR '' ''"
  shows "findall m (FIELD_OF k) (join '' '' (map token_text ts)) = concat (map token_caps ts)"
  using findall_tokens [OF assms] by (simp add: findall_def)

end
