(* ===== verification/Control_Metrics.thy ===== *)
theory Control_Metrics
  imports Py_Scan Kconfig
begin

text \<open>
  \<open>src/tools/check_static_control_metrics.py\<close>, with the line the firmware prints for it
  (\<open>src/samples/static_control/src/main.c\<close>): \<open>parse_metrics\<close>, \<open>check_metrics\<close> and \<open>main\<close>. The tool is
  shown to read the firmware's lines back, and to pass exactly the logs without ROS allocations
  whose middleware counter never decreases and grows by at most the bound between two samples.
\<close>

section \<open>The tool\<close>

definition metrics_reject :: "string \<Rightarrow> 'a res" where
  "metrics_reject message = Inl (MetricsError message)"

definition METRIC :: rx where
  "METRIC = FIELD_OF digit_cls"

text \<open>\<open>int(value)\<close> on a group of decimal digits, where it cannot fail.\<close>

definition dec_int :: "string \<Rightarrow> int" where
  "dec_int s = (case py_int 10 s of Some i \<Rightarrow> i | None \<Rightarrow> 0)"

definition REQUIRED_METRICS :: "string list" where
  "REQUIRED_METRICS = [''ros_steady_alloc_calls'', ''middleware_steady_alloc_calls'']"

definition metrics_values :: "string \<Rightarrow> (string \<times> int) list" where
  "metrics_values line =
     foldl (\<lambda>d g. dict_set (group_of g 1) (dec_int (group_of g 2)) d) [] (findall False METRIC line)"

definition metrics_record :: "string \<Rightarrow> (string \<times> int) list res" where
  "metrics_record line =
     (let vals = metrics_values line in
      bindE (forE (\<lambda>required.
         if map_of vals required = None then metrics_reject (''metrics marker is missing '' @ required)
         else Inr ()) REQUIRED_METRICS) (\<lambda>_.
      Inr vals))"

definition parse_metrics :: "string \<Rightarrow> (string \<times> int) list list res" where
  "parse_metrics text =
     mapE metrics_record (filter (contains ''STATIC_CONTROL_METRICS'') (splitlines text))"

record metrics_result =
  mr_samples :: int
  mr_maximum_delta :: int
  mr_final_calls :: int

definition check_metrics :: "(string \<times> int) list list \<Rightarrow> int \<Rightarrow> int \<Rightarrow> metrics_result res" where
  "check_metrics records minimum_samples maximum_middleware_delta =
     (if int (length records) < minimum_samples
      then metrics_reject (''expected at least '' @ show_int minimum_samples
        @ '' metrics samples, found '' @ show_int (int (length records)))
      else
     bindE (anyE (\<lambda>r. bindE (dict_item r ''ros_steady_alloc_calls'') (\<lambda>v. Inr (v \<noteq> 0))) records)
       (\<lambda>allocates.
     if allocates then metrics_reject ''ROS steady-state allocation attempts must remain zero'' else
     bindE (mapE (\<lambda>r. dict_item r ''middleware_steady_alloc_calls'') records) (\<lambda>middleware.
     let deltas = map (\<lambda>(earlier, later). later - earlier) (zip middleware (drop 1 middleware)) in
     if list_ex (\<lambda>delta. delta < 0) deltas
     then metrics_reject ''middleware allocation counter decreased between samples'' else
     bindE (case middleware of [] \<Rightarrow> Inl IndexError | first # _ \<Rightarrow> Inr first) (\<lambda>first.
     let maximum_observed = max_default first deltas in
     if maximum_middleware_delta < maximum_observed
     then metrics_reject (''middleware allocation delta exceeds bound: observed=''
       @ show_int maximum_observed @ '' allowed='' @ show_int maximum_middleware_delta)
     else Inr \<lparr>mr_samples = int (length records), mr_maximum_delta = maximum_observed,
            mr_final_calls = last middleware\<rparr>))))"

record metrics_args =
  ma_log :: string
  ma_minimum :: int
  ma_maximum :: int

definition metrics_run :: "rworld \<Rightarrow> metrics_args \<Rightarrow> metrics_result res" where
  "metrics_run w args =
     (if ma_minimum args < 1 \<or> ma_maximum args < 0
      then metrics_reject ''metric bounds must be non-negative and require at least one sample''
      else
      case open_file w (ma_log args) of
        Inl err \<Rightarrow> metrics_reject (''cannot read '' @ ma_log args @ '': '' @ err)
      | Inr f \<Rightarrow>
          bindE (parse_metrics (lossy_text f)) (\<lambda>records.
          check_metrics records (ma_minimum args) (ma_maximum args)))"

text \<open>Standard output, standard error and the exit status, or an exception that is not caught.\<close>

definition metrics_main :: "rworld \<Rightarrow> metrics_args \<Rightarrow> string \<times> string \<times> int res" where
  "metrics_main w args =
     (case metrics_run w args of
        Inl (MetricsError message) \<Rightarrow> ([], ''E_STATIC_CONTROL_METRICS: '' @ message @ nl, Inr 2)
      | Inl e \<Rightarrow> ([], [], Inl e)
      | Inr result \<Rightarrow>
          (''ROS2_ZEPHYR_STATIC_CONTROL_METRICS_PASS samples='' @ show_int (mr_samples result)
           @ '' max_middleware_delta='' @ show_int (mr_maximum_delta result)
           @ '' final_middleware_calls='' @ show_int (mr_final_calls result) @ nl, [], Inr 0))"

section \<open>The firmware's report\<close>

text \<open>
  The report that the firmware prints every second. The counts of allocator calls are the
  differences to the counts at the end of the preparation.
\<close>

record firmware_metrics =
  fm_accepted :: nat
  fm_rejected :: nat
  fm_ros_calls :: nat
  fm_middleware_calls :: nat
  fm_ros_high_water :: nat
  fm_middleware_high_water :: nat
  fm_max_lateness_us :: nat
  fm_skipped :: nat
  fm_stack_unused :: "nat option"

definition firmware_fields :: "firmware_metrics \<Rightarrow> (string \<times> nat) list" where
  "firmware_fields m =
     [(''accepted'', fm_accepted m), (''rejected'', fm_rejected m),
      (''ros_steady_alloc_calls'', fm_ros_calls m),
      (''middleware_steady_alloc_calls'', fm_middleware_calls m),
      (''ros_high_water'', fm_ros_high_water m),
      (''middleware_high_water'', fm_middleware_high_water m),
      (''max_lateness_us'', fm_max_lateness_us m), (''skipped'', fm_skipped m)]"

definition firmware_tokens :: "firmware_metrics \<Rightarrow> token list" where
  "firmware_tokens m =
     Word ''STATIC_CONTROL_METRICS'' # map (\<lambda>(k, v). Field k (show_nat v)) (firmware_fields m)
     @ (case fm_stack_unused m of
          None \<Rightarrow> [Word ''control_stack_unused=unavailable'']
        | Some n \<Rightarrow> [Word ''control_stack_unused=measured'', Field ''unused_bytes'' (show_nat n)])"

definition print_metrics :: "firmware_metrics \<Rightarrow> string" where
  "print_metrics m = join '' '' (map token_text (firmware_tokens m)) @ nl"

section \<open>Reading the report\<close>

definition printed_fields :: "firmware_metrics \<Rightarrow> (string \<times> nat) list" where
  "printed_fields m = firmware_fields m
     @ (case fm_stack_unused m of None \<Rightarrow> [] | Some n \<Rightarrow> [(''unused_bytes'', n)])"

definition reported :: "firmware_metrics \<Rightarrow> (string \<times> int) list" where
  "reported m = map (apsnd int) (printed_fields m)"

lemma show_nat_in_digits: "list_all (in_cls digit_cls) (show_nat n)"
  using show_nat_digits [of _ n] by (auto simp: list_all_iff in_cls_def digit_cls_def in_range_def)

lemma dec_int_show_nat [simp]: "dec_int (show_nat n) = int n"
proof -
  have "py_int 10 (show_int (int n)) = Some (int n)" by (rule py_int_show_int) simp
  then show ?thesis by (simp add: dec_int_def show_int_def)
qed

lemma word_ok:
  "CHR '' '' \<notin> set w \<Longrightarrow> CHR ''='' \<notin> set w \<Longrightarrow> token_ok k (Word w)"
  by auto

lemma assignment_ok:
  assumes "CHR '' '' \<notin> set (a @ v)" and "CHR ''='' \<notin> set (a @ v)" and "v \<noteq> []" "\<not> in_cls k (hd v)"
  shows "token_ok k (Word (a @ CHR ''='' # v))"
proof -
  have "y = [] \<or> \<not> in_cls k (hd y)" if "a @ CHR ''='' # v = x @ CHR ''='' # y" for x y
  proof -
    from that have "v = y \<or> CHR ''='' \<in> set (a @ v)"
      by (auto simp: append_eq_append_conv2 Cons_eq_append_conv append_eq_Cons_conv)
    with assms show ?thesis by auto
  qed
  with assms show ?thesis by auto
qed

lemma firmware_tokens_ok: "list_all (token_ok digit_cls) (firmware_tokens m)"
proof -
  have w: "token_ok digit_cls (Word ''STATIC_CONTROL_METRICS'')"
    "token_ok digit_cls (Word ''control_stack_unused=unavailable'')"
    "token_ok digit_cls (Word ''control_stack_unused=measured'')"
    using assignment_ok [of "''control_stack_unused''" "''unavailable''" digit_cls]
      assignment_ok [of "''control_stack_unused''" "''measured''" digit_cls]
    by (auto simp: in_cls_def digit_cls_def intro!: word_ok simp del: token_ok.simps)
  have "token_ok digit_cls (Field k (show_nat n))" if "is_symbol k" for k n
    using that show_nat_in_digits by simp
  moreover have "list_all (is_symbol \<circ> fst) (firmware_fields m)" "is_symbol ''unused_bytes''"
    by (simp_all add: firmware_fields_def is_symbol_def ident_ok_def in_cls_def symbol_start_def symbol_char_def)
  ultimately show ?thesis
    using w by (simp add: firmware_tokens_def list_all_iff case_prod_unfold split: option.split
        del: token_ok.simps)
qed

lemma group_of_pair [simp]:
  "group_of [(2, v), (Suc 0, k)] (Suc 0) = k" "group_of [(2, v), (Suc 0, k)] 2 = v"
  by (simp_all add: group_of_def)

lemma firmware_caps:
  "concat (map token_caps (firmware_tokens m)) =
     map (\<lambda>kv. [(2, show_nat (snd kv)), (1, fst kv)]) (printed_fields m)"
  by (simp add: firmware_tokens_def printed_fields_def firmware_fields_def split: option.split)

lemma printed_fields_distinct: "wf_dict (printed_fields m)"
  by (simp add: printed_fields_def firmware_fields_def split: option.split)

lemma metrics_values_print:
  "metrics_values (join '' '' (map token_text (firmware_tokens m))) = reported m"
proof -
  have blank: "\<not> in_cls digit_cls CHR '' ''" by (simp add: in_cls_def digit_cls_def)
  show ?thesis
    using foldl_dict_set [of "[]" "printed_fields m" int] printed_fields_distinct [of m]
    by (simp add: metrics_values_def METRIC_def findall_fields [OF firmware_tokens_ok blank] firmware_caps
        foldl_map reported_def)
qed

lemma token_no_break:
  assumes "t \<in> set (firmware_tokens m)" and "c \<in> set (token_text t)"
  shows "\<not> is_linebreak c"
proof -
  have digits: "c \<in> set (show_nat n) \<Longrightarrow> \<not> is_linebreak c" for n
    by (drule show_nat_digits) (auto simp: is_linebreak_def in_range_def)
  have "\<forall>t \<in> set (firmware_tokens m). \<forall>c \<in> set (token_text t).
      (\<exists>n. c \<in> set (show_nat n)) \<or> \<not> is_linebreak c"
    by (simp add: firmware_tokens_def firmware_fields_def is_linebreak_def in_range_def split: option.split)
       blast
  with assms digits show ?thesis by blast
qed

lemma set_join: "set (join sep xs) \<subseteq> set sep \<union> \<Union> (set ` set xs)"
  by (induction sep xs rule: join.induct) auto

lemma firmware_line_no_break:
  "\<forall>c \<in> set (join '' '' (map token_text (firmware_tokens m))). \<not> is_linebreak c"
  using set_join [of "'' ''" "map token_text (firmware_tokens m)"] token_no_break
  by (fastforce simp: is_linebreak_def in_range_def)

lemma firmware_line_marked:
  "contains ''STATIC_CONTROL_METRICS'' (join '' '' (map token_text (firmware_tokens m)))"
proof -
  obtain rest where "join '' '' (map token_text (firmware_tokens m)) = ''STATIC_CONTROL_METRICS'' @ rest"
    by (simp add: firmware_tokens_def firmware_fields_def)
  then show ?thesis unfolding contains_iff by (metis append_Nil)
qed

text \<open>
  A log of the firmware: its reports between other lines, such as those of the start and of the status, which do not
  mention the marker of the reports.
\<close>

datatype firmware_line = Plain string | Report firmware_metrics

fun line_text :: "firmware_line \<Rightarrow> string" where
  "line_text (Plain l) = l @ nl"
| "line_text (Report m) = print_metrics m"

fun plain_ok :: "firmware_line \<Rightarrow> bool" where
  "plain_ok (Plain l) \<longleftrightarrow> (\<forall>c \<in> set l. \<not> is_linebreak c) \<and> \<not> contains ''STATIC_CONTROL_METRICS'' l"
| "plain_ok (Report m) \<longleftrightarrow> True"

fun reports_of :: "firmware_line list \<Rightarrow> firmware_metrics list" where
  "reports_of [] = []"
| "reports_of (Plain l # ls) = reports_of ls"
| "reports_of (Report m # ls) = m # reports_of ls"

lemma parse_firmware_log:
  assumes "list_all plain_ok ls"
  shows "parse_metrics (concat (map line_text ls)) = Inr (map reported (reports_of ls))"
proof -
  let ?report = "\<lambda>m. join '' '' (map token_text (firmware_tokens m))"
  let ?line = "\<lambda>l. case l of Plain t \<Rightarrow> t | Report m \<Rightarrow> ?report m"
  have shown: "line_text l = ?line l @ nl" for l by (cases l) (simp_all add: print_metrics_def)
  have "\<forall>c \<in> set (?line l). \<not> is_linebreak c" if "plain_ok l" for l
    using that firmware_line_no_break by (cases l) simp_all
  with assms have "\<forall>l \<in> set (map ?line ls). \<forall>c \<in> set l. \<not> is_linebreak c" by (auto simp: list_all_iff)
  then have lines: "splitlines (concat (map line_text ls)) = map ?line ls"
    using splitlines_lines [of "map ?line ls"] by (simp add: shown [abs_def] comp_def)
  have read_back: "metrics_record (?report m) = Inr (reported m)" for m
    by (simp add: metrics_record_def metrics_values_print Let_def REQUIRED_METRICS_def)
       (simp add: reported_def printed_fields_def firmware_fields_def)
  have "mapE metrics_record (filter (contains ''STATIC_CONTROL_METRICS'') (map ?line ls)) = Inr (map reported (reports_of ls))"
    using assms by (induction ls rule: reports_of.induct) (simp_all add: read_back firmware_line_marked)
  then show ?thesis by (simp add: parse_metrics_def lines)
qed

section \<open>What passes\<close>

text \<open>
  The contract on the sampled counters: enough samples, no ROS allocation, and a middleware counter
  that grows by 0 to \<open>bound\<close> from sample to sample. A single sample has no predecessor; the tool
  then holds the counter itself against the bound.
\<close>

definition steady :: "int \<Rightarrow> int \<Rightarrow> (int \<times> int) list \<Rightarrow> bool" where
  "steady minimum bound samples \<longleftrightarrow>
     minimum \<le> int (length samples) \<and> samples \<noteq> [] \<and> (\<forall>s \<in> set samples. fst s = 0) \<and>
     successively (\<lambda>s t. snd s \<le> snd t \<and> snd t - snd s \<le> bound) samples \<and>
     (length samples = 1 \<longrightarrow> snd (hd samples) \<le> bound)"

definition sample :: "(string \<times> int) list \<Rightarrow> int \<times> int" where
  "sample r = (the (map_of r ''ros_steady_alloc_calls''), the (map_of r ''middleware_steady_alloc_calls''))"

definition complete_record :: "(string \<times> int) list \<Rightarrow> bool" where
  "complete_record r \<longleftrightarrow> (\<forall>k \<in> set REQUIRED_METRICS. map_of r k \<noteq> None)"

lemma parse_metrics_complete:
  "parse_metrics text = Inr records \<Longrightarrow> list_all complete_record records"
proof -
  have "metrics_record line = Inr r \<Longrightarrow> complete_record r" for line r
    by (auto simp: metrics_record_def Let_def bindE_eq_Inr forE_eq_Inr metrics_reject_def
        complete_record_def split: if_splits)
  then show "parse_metrics text = Inr records \<Longrightarrow> ?thesis"
    unfolding parse_metrics_def mapE_eq_Inr by (auto simp: list_all2_conv_all_nth list_all_length)
qed

lemma list_all_deltas:
  "list_all P (map (\<lambda>(a, b). b - a) (zip ms (drop 1 ms))) \<longleftrightarrow> successively (\<lambda>a b. P (b - a)) ms"
  for ms :: "int list"
proof (induction ms)
  case (Cons m ms)
  then show ?case by (cases ms) auto
qed simp

lemma max_default_le:
  "max_default d xs \<le> b \<longleftrightarrow> (if xs = [] then d \<le> b else list_all (\<lambda>x. x \<le> b) xs)"
  by (cases xs) (auto simp: max_default_def foldl_max list_all_iff)

lemma check_metrics_eval:
  assumes "list_all complete_record records"
  shows "check_metrics records minimum bound =
    (let middleware = map (snd \<circ> sample) records;
         deltas = map (\<lambda>(earlier, later). later - earlier) (zip middleware (drop 1 middleware))
     in if int (length records) < minimum
        then metrics_reject (''expected at least '' @ show_int minimum
          @ '' metrics samples, found '' @ show_int (int (length records)))
        else if \<exists>r \<in> set records. fst (sample r) \<noteq> 0
        then metrics_reject ''ROS steady-state allocation attempts must remain zero''
        else if list_ex (\<lambda>delta. delta < 0) deltas
        then metrics_reject ''middleware allocation counter decreased between samples''
        else if records = [] then Inl IndexError
        else if bound < max_default (hd middleware) deltas
        then metrics_reject (''middleware allocation delta exceeds bound: observed=''
          @ show_int (max_default (hd middleware) deltas) @ '' allowed='' @ show_int bound)
        else Inr \<lparr>mr_samples = int (length records), mr_maximum_delta = max_default (hd middleware) deltas,
               mr_final_calls = last middleware\<rparr>)"
proof -
  have items: "dict_item r ''ros_steady_alloc_calls'' = Inr (fst (sample r))"
    "dict_item r ''middleware_steady_alloc_calls'' = Inr (snd (sample r))" if "r \<in> set records" for r
    using assms that by (auto simp: list_all_iff complete_record_def REQUIRED_METRICS_def sample_def)
  have ros: "anyE (\<lambda>r. bindE (dict_item r ''ros_steady_alloc_calls'') (\<lambda>v. Inr (v \<noteq> 0))) records =
      Inr (list_ex (\<lambda>r. fst (sample r) \<noteq> 0) records)"
    by (rule anyE_pure) (simp add: items)
  have mw: "mapE (\<lambda>r. dict_item r ''middleware_steady_alloc_calls'') records =
      Inr (map (snd \<circ> sample) records)"
    by (rule mapE_pure) (simp add: items)
  show ?thesis
    unfolding check_metrics_def ros mw bindE_simps Let_def list_ex_iff
    by (cases records) simp_all
qed

lemma check_metrics_steady:
  assumes "list_all complete_record records"
  shows "(\<exists>r. check_metrics records minimum bound = Inr r) \<longleftrightarrow> steady minimum bound (map sample records)"
proof -
  let ?mw = "map (snd \<circ> sample) records"
  let ?deltas = "map (\<lambda>(earlier, later). later - earlier) (zip ?mw (drop 1 ?mw))"
  have neg: "list_ex (\<lambda>d. d < 0) xs \<longleftrightarrow> \<not> list_all (\<lambda>d. 0 \<le> d) xs" for xs :: "int list"
    by (induction xs) auto
  have single: "?deltas = [] \<longleftrightarrow> length records \<le> 1" by (cases records) auto
  have "(\<exists>r. check_metrics records minimum bound = Inr r) \<longleftrightarrow>
      minimum \<le> int (length records) \<and> (\<forall>r \<in> set records. fst (sample r) = 0) \<and>
      list_all (\<lambda>d. 0 \<le> d) ?deltas \<and> records \<noteq> [] \<and> max_default (hd ?mw) ?deltas \<le> bound"
    unfolding check_metrics_eval [OF assms] Let_def metrics_reject_def neg by auto
  also have "\<dots> \<longleftrightarrow> minimum \<le> int (length records) \<and> (\<forall>r \<in> set records. fst (sample r) = 0) \<and>
      records \<noteq> [] \<and> list_all (\<lambda>d. 0 \<le> d \<and> d \<le> bound) ?deltas \<and> (length records = 1 \<longrightarrow> hd ?mw \<le> bound)"
    unfolding max_default_le single by (cases records) (auto simp: list_all_iff)
  also have "\<dots> \<longleftrightarrow> steady minimum bound (map sample records)"
    unfolding list_all_deltas steady_def successively_map
    by (cases records) (auto simp: comp_def)
  finally show ?thesis .
qed

section \<open>Properties\<close>

lemma metrics_run_errors:
  assumes "metrics_run w args = Inl e"
  shows "\<exists>m. e = MetricsError m"
proof -
  have parse: "raises_only (\<lambda>e. \<exists>m. e = MetricsError m) (parse_metrics t)" for t
    unfolding parse_metrics_def metrics_record_def Let_def metrics_reject_def
    by (intro raises_only_mapE raises_only_bindE raises_only_forE raises_only_if) simp_all
  have check: "raises_only (\<lambda>e. \<exists>m. e = MetricsError m) (check_metrics records minimum bound)"
    if "list_all complete_record records" "1 \<le> minimum" for records minimum bound
    unfolding check_metrics_eval [OF that(1)] Let_def metrics_reject_def
    using that(2) by (auto intro!: raises_only_if)
  have "raises_only (\<lambda>e. \<exists>m. e = MetricsError m) (metrics_run w args)"
    unfolding metrics_run_def metrics_reject_def
    by (auto intro!: raises_only_if raises_only_bindE parse check parse_metrics_complete split: sum.split)
  then show ?thesis using assms by simp
qed

lemma metrics_main_status:
  "snd (snd (metrics_main w args)) = Inr (if \<exists>r. metrics_run w args = Inr r then 0 else 2)"
proof (cases "metrics_run w args")
  case (Inl e)
  with metrics_run_errors [OF Inl] show ?thesis by (auto simp: metrics_main_def)
qed (simp add: metrics_main_def)

text \<open>
  Property C21. On a log of the firmware, its reports among any lines that do not mention the marker, and with
  sensible bounds, the tool exits with 0 exactly when the reported counters are steady, and with 2 otherwise:
  what the firmware prints is what the tool decides on.
\<close>

theorem metrics_main_firmware:
  assumes "1 \<le> ma_minimum args" and "0 \<le> ma_maximum args" and "w (ma_log args) = Regular f"
    and "list_all plain_ok ls" and "lossy_text f = concat (map line_text ls)"
  shows "snd (snd (metrics_main w args)) =
    Inr (if steady (ma_minimum args) (ma_maximum args)
              (map (\<lambda>m. (int (fm_ros_calls m), int (fm_middleware_calls m))) (reports_of ls)) then 0 else 2)"
proof -
  have parsed: "parse_metrics (lossy_text f) = Inr (map reported (reports_of ls))"
    using parse_firmware_log [OF assms(4)] assms(5) by simp
  have "sample (reported m) = (int (fm_ros_calls m), int (fm_middleware_calls m))" for m
    by (simp add: sample_def reported_def printed_fields_def firmware_fields_def)
  moreover have "metrics_run w args = check_metrics (map reported (reports_of ls)) (ma_minimum args) (ma_maximum args)"
    using assms(1-3) parsed by (simp add: metrics_run_def open_file_def)
  ultimately show ?thesis
    unfolding metrics_main_status using check_metrics_steady [OF parse_metrics_complete [OF parsed]]
    by (simp add: comp_def)
qed

definition example_metrics :: "nat \<Rightarrow> firmware_metrics" where
  "example_metrics calls =
     \<lparr>fm_accepted = 1, fm_rejected = 0, fm_ros_calls = 0, fm_middleware_calls = calls,
      fm_ros_high_water = 100, fm_middleware_high_water = 2000, fm_max_lateness_us = 0,
      fm_skipped = 0, fm_stack_unused = Some 900\<rparr>"

definition example_log :: "firmware_line list" where
  "example_log =
     [Plain ''STATIC_CONTROL_START board=native_sim period_ms=10 expiry_ms=250 deadline_ms=10'',
      Plain ''STATIC_CONTROL_READY ros_alloc_calls=7 middleware_alloc_calls=90'',
      Plain ''STATIC_CONTROL_STATUS status=0 sequence=0 cycles=1 skipped=0'',
      Report (example_metrics 34), Report (example_metrics 50), Report (example_metrics 68)]"

theorem metrics_main_firmware_witness:
  "snd (snd (metrics_main (\<lambda>_. Regular (text_file (concat (map line_text example_log))))
     \<lparr>ma_log = ''log'', ma_minimum = 2, ma_maximum = 32\<rparr>)) = Inr 0"
proof -
  have shown: "lossy_text (text_file (concat (map line_text example_log))) = concat (map line_text example_log)"
    by (simp add: text_file_def)
  have ok: "list_all plain_ok example_log" by code_simp
  from metrics_main_firmware [OF _ _ _ ok shown, of "\<lparr>ma_log = ''log'', ma_minimum = 2, ma_maximum = 32\<rparr>"
      "\<lambda>_. Regular (text_file (concat (map line_text example_log)))"]
  show ?thesis by (simp add: steady_def example_log_def example_metrics_def)
qed

text \<open>
  When the tool passes a log, any log, every sample has zero ROS allocations and
  between any two samples the middleware counter grew by at most the bound for each step.
\<close>

lemma metrics_growth_bounded:
  assumes "metrics_main w args = (out, err, Inr 0)"
  shows "\<exists>f records. w (ma_log args) = Regular f \<and> parse_metrics (lossy_text f) = Inr records \<and>
    1 \<le> ma_minimum args \<and> ma_minimum args \<le> int (length records) \<and>
    (\<forall>r \<in> set records. fst (sample r) = 0) \<and>
    (\<forall>i j. i \<le> j \<longrightarrow> j < length records \<longrightarrow> snd (sample (records ! i)) \<le> snd (sample (records ! j)) \<and>
       snd (sample (records ! j)) - snd (sample (records ! i)) \<le> int (j - i) * ma_maximum args)"
proof -
  have "\<exists>r. metrics_run w args = Inr r"
    using metrics_main_status [of w args] assms by (auto split: if_splits)
  then obtain r where r: "metrics_run w args = Inr r" ..
  then obtain f records where f: "1 \<le> ma_minimum args" "w (ma_log args) = Regular f"
    "parse_metrics (lossy_text f) = Inr records"
    "check_metrics records (ma_minimum args) (ma_maximum args) = Inr r"
    by (auto simp: metrics_run_def metrics_reject_def open_file_def bindE_eq_Inr
        split: if_splits sum.splits node.splits)
  then have s: "steady (ma_minimum args) (ma_maximum args) (map sample records)"
    using check_metrics_steady [OF parse_metrics_complete [OF f(3)]] by blast
  have step: "snd (sample (records ! k)) \<le> snd (sample (records ! Suc k)) \<and>
      snd (sample (records ! Suc k)) - snd (sample (records ! k)) \<le> ma_maximum args"
    if "Suc k < length records" for k
    using s that by (simp add: steady_def successively_conv_nth)
  have "snd (sample (records ! i)) \<le> snd (sample (records ! (i + d))) \<and>
      snd (sample (records ! (i + d))) - snd (sample (records ! i)) \<le> int d * ma_maximum args"
    if "i + d < length records" for i d
    using that
  proof (induction d)
    case (Suc d)
    with step [of "i + d"] show ?case by (simp add: algebra_simps)
  qed simp
  then have "snd (sample (records ! i)) \<le> snd (sample (records ! j)) \<and>
      snd (sample (records ! j)) - snd (sample (records ! i)) \<le> int (j - i) * ma_maximum args"
    if "i \<le> j" "j < length records" for i j
    using that by (metis le_add_diff_inverse)
  with f s show ?thesis
    by (intro exI [of _ f] exI [of _ records]) (auto simp: steady_def)
qed

end
