(* ===== verification/Control_Timing.thy ===== *)
theory Control_Timing
  imports Control_Metrics
begin

text \<open>
  \<open>src/tools/check_static_control_timing.py\<close>: the pattern of a timing record, \<open>final_record\<close> and
  \<open>main\<close>, with the line the firmware prints (\<open>src/samples/static_control/src/main.c\<close>). The tool is
  shown to read the firmware's records back from a log that also has other lines, and its exit
  status is characterised by the regression gates.
\<close>

section \<open>The tool\<close>

definition FIELDS :: "string list" where
  "FIELDS =
     [''samples'', ''release_p50_us'', ''release_p95_us'', ''release_p99_us'', ''release_max_us'',
      ''completion_p50_us'', ''completion_p95_us'', ''completion_p99_us'', ''completion_max_us'']"

text \<open>\<open>field=(\\d+)\<close> for every field, with blanks between; the groups count from \<open>n\<close>.\<close>

fun field_pattern :: "nat \<Rightarrow> string list \<Rightarrow> rx" where
  "field_pattern n [] = Eps"
| "field_pattern n [f] = Seq (Lit (f @ ''='')) (Grp n (Plus (Set digit_cls)))"
| "field_pattern n (f # f' # fs) =
     Seq (Lit (f @ ''='')) (Seq (Grp n (Plus (Set digit_cls)))
       (Seq (Lit '' '') (field_pattern (Suc n) (f' # fs))))"

definition TIMING_MARKER :: string where
  "TIMING_MARKER = ''STATIC_CONTROL_TIMING ''"

definition PATTERN :: rx where
  "PATTERN = Seq (Lit TIMING_MARKER) (field_pattern 1 FIELDS)"

definition TIMING_GATES :: "string list" where
  "TIMING_GATES = [''release_p99_us'', ''release_max_us'', ''completion_p99_us'', ''completion_max_us'']"

text \<open>\<open>xs[i]\<close> for an integer index, with the negative indices of Python.\<close>

definition py_index :: "'a list \<Rightarrow> int \<Rightarrow> 'a res" where
  "py_index xs i =
     (let n = int (length xs); j = (if i < 0 then i + n else i)
      in if 0 \<le> j \<and> j < n then Inr (xs ! nat j) else Inl IndexError)"

definition timing_record :: "caps \<Rightarrow> (string \<times> int) list" where
  "timing_record g =
     zip FIELDS (map (\<lambda>i. dec_int (group_of g i)) [1..<Suc (length FIELDS)])"

definition check_percentiles :: "string \<Rightarrow> (string \<times> int) list \<Rightarrow> string \<Rightarrow> unit res" where
  "check_percentiles path r name =
     bindE (dict_item r (name @ ''_p50_us'')) (\<lambda>p50.
     bindE (dict_item r (name @ ''_p95_us'')) (\<lambda>p95.
     bindE (if p50 \<le> p95
            then bindE (dict_item r (name @ ''_p99_us'')) (\<lambda>p99. Inr (p95 \<le> p99)) else Inr False) (\<lambda>ordered.
     if \<not> ordered then Inl (ValueError (path @ '': invalid '' @ name @ '' percentile order''))
     else Inr ())))"

definition final_record :: "rworld \<Rightarrow> string \<Rightarrow> int \<Rightarrow> (string \<times> int) list res" where
  "final_record w path minimum_records =
     (case open_file w path of
        Inl err \<Rightarrow> Inl (OSError err)
      | Inr f \<Rightarrow>
          let found = findall False PATTERN (lossy_text f) in
          if int (length found) < minimum_records
          then Inl (ValueError (path @ '': only '' @ show_int (int (length found))
            @ '' timing records; need '' @ show_int minimum_records))
          else
          let records = map timing_record found in
          bindE (anyE (\<lambda>(record, next_record).
            bindE (dict_item next_record ''samples'') (\<lambda>b.
            bindE (dict_item record ''samples'') (\<lambda>a. Inr (b \<le> a)))) (zip records (drop 1 records)))
            (\<lambda>stuck.
          if stuck then Inl (ValueError (path @ '': sample count did not increase'')) else
          bindE (py_index records (minimum_records - 1)) (\<lambda>record.
          bindE (dict_item record ''samples'') (\<lambda>samples.
          bindE (if samples < 50 * minimum_records then Inr True
                 else bindE (dict_item record ''release_max_us'') (\<lambda>m. Inr (m = 0))) (\<lambda>useless.
          if useless
          then Inl (ValueError (path @ '': cycle counter did not produce useful release measurements''))
          else
          bindE (forE (check_percentiles path record) [''release'', ''completion'']) (\<lambda>_.
          Inr record))))))"

definition gate_text :: "(string \<times> int) list \<Rightarrow> (string \<times> int) list \<Rightarrow> string \<Rightarrow> string res" where
  "gate_text posix native field =
     bindE (dict_item posix field) (\<lambda>p.
     bindE (dict_item native field) (\<lambda>n.
     Inr (field @ ''='' @ show_int p @ ''/'' @ show_int n)))"

definition check_gate ::
  "int \<Rightarrow> int \<Rightarrow> (string \<times> int) list \<Rightarrow> (string \<times> int) list \<Rightarrow> string \<Rightarrow> unit res" where
  "check_gate index maximum_regression_us posix native field =
     bindE (dict_item native field) (\<lambda>n.
     bindE (dict_item posix field) (\<lambda>p.
     if p + maximum_regression_us < n
     then Inl (ValueError (''run '' @ show_int index @ '': '' @ field @ '' grew from '' @ show_int p
       @ '' to '' @ show_int n @ '' us''))
     else Inr ()))"

record timing_args =
  ta_posix :: "string list"
  ta_native :: "string list"
  ta_minimum :: int
  ta_regression :: int

definition timing_run :: "rworld \<Rightarrow> timing_args \<Rightarrow> int \<Rightarrow> string \<times> string \<Rightarrow> string res" where
  "timing_run w args index paths =
     bindE (final_record w (fst paths) (ta_minimum args)) (\<lambda>posix.
     bindE (final_record w (snd paths) (ta_minimum args)) (\<lambda>native.
     bindE (forE (check_gate index (ta_regression args) posix native) TIMING_GATES) (\<lambda>_.
     bindE (dict_item posix ''samples'') (\<lambda>ps.
     bindE (dict_item native ''samples'') (\<lambda>ns.
     bindE (mapE (gate_text posix native) TIMING_GATES) (\<lambda>gates.
     Inr (''STATIC_CONTROL_TIMING_PASS run='' @ show_int index @ '' posix_samples='' @ show_int ps
       @ '' native_samples='' @ show_int ns @ '' '' @ join '' '' gates)))))))"

text \<open>The lines printed so far and the exception that ended the loop, if any.\<close>

fun timing_runs :: "rworld \<Rightarrow> timing_args \<Rightarrow> int \<Rightarrow> (string \<times> string) list \<Rightarrow> string list \<times> unit res" where
  "timing_runs w args index [] = ([], Inr ())"
| "timing_runs w args index (paths # rest) =
     (case timing_run w args index paths of
        Inl e \<Rightarrow> ([], Inl e)
      | Inr line \<Rightarrow> apfst (Cons line) (timing_runs w args (index + 1) rest))"

text \<open>The lines on standard output, the message on standard error and the exit status.\<close>

definition timing_main :: "rworld \<Rightarrow> timing_args \<Rightarrow> string list \<times> string \<times> int res" where
  "timing_main w args =
     (if length (ta_posix args) \<noteq> length (ta_native args) \<or> ta_minimum args < 1
      then ([], ''provide equal, nonzero counts of matched runs'', Inr 2)
      else
      case timing_runs w args 1 (zip (ta_posix args) (ta_native args)) of
        (out, Inl (OSError err)) \<Rightarrow> (out, ''STATIC_CONTROL_TIMING_ERROR '' @ err @ nl, Inr 1)
      | (out, Inl (ValueError err)) \<Rightarrow> (out, ''STATIC_CONTROL_TIMING_ERROR '' @ err @ nl, Inr 1)
      | (out, Inl e) \<Rightarrow> (out, [], Inl e)
      | (out, Inr _) \<Rightarrow> (out, [], Inr 0))"

section \<open>The firmware's record\<close>

record timing_report =
  tr_samples :: nat
  tr_release_p50 :: nat
  tr_release_p95 :: nat
  tr_release_p99 :: nat
  tr_release_max :: nat
  tr_completion_p50 :: nat
  tr_completion_p95 :: nat
  tr_completion_p99 :: nat
  tr_completion_max :: nat

definition timing_values :: "timing_report \<Rightarrow> nat list" where
  "timing_values t =
     [tr_samples t, tr_release_p50 t, tr_release_p95 t, tr_release_p99 t, tr_release_max t,
      tr_completion_p50 t, tr_completion_p95 t, tr_completion_p99 t, tr_completion_max t]"

definition print_timing :: "timing_report \<Rightarrow> string" where
  "print_timing t =
     TIMING_MARKER @ join '' '' (map (\<lambda>(f, v). f @ ''='' @ show_nat v) (zip FIELDS (timing_values t))) @ nl"

section \<open>Reading the record\<close>

lemma run_field_pattern:
  assumes "length vs = length fs" and "fs \<noteq> []" and "stops digit_cls rest"
  shows "\<exists>p' more. run m (field_pattern n fs)
      (p, join '' '' (map (\<lambda>(f, v). f @ ''='' @ show_nat v) (zip fs vs)) @ rest, g) =
    (p', rest, rev (zip [n..<n + length fs] (map show_nat vs)) @ g) # more"
  using assms(1,2)
proof (induction n fs arbitrary: vs p g rule: field_pattern.induct)
  case (2 n f)
  then obtain v where v: "vs = [v]" by (auto simp: length_Suc_conv)
  have "run m (field_pattern n [f]) (p, f @ ''='' @ show_nat v @ rest, g) =
      run m (Grp n (Plus (Set digit_cls))) (rev (f @ ''='') @ p, show_nat v @ rest, g)"
    using run_Lit_then [of m "f @ ''=''"] by (simp only: field_pattern.simps append_assoc)
  with run_Grp_Plus_last [OF show_nat_in_digits show_nat_not_Nil assms(3)] v show ?case
    by (fastforce simp: upt_conv_Cons)
next
  case (3 n f f' fs)
  then obtain v vs' where v: "vs = v # vs'" "length vs' = length (f' # fs)" by (cases vs) auto
  let ?more = "join '' '' (map (\<lambda>(f, v). f @ ''='' @ show_nat v) (zip (f' # fs) vs'))"
  from v(2) have line: "join '' '' (map (\<lambda>(f, v). f @ ''='' @ show_nat v) (zip (f # f' # fs) vs)) =
      (f @ ''='') @ show_nat v @ CHR '' '' # ?more"
    by (cases vs') (auto simp: v(1))
  let ?r = "Seq (Lit '' '') (field_pattern (Suc n) (f' # fs))"
  have needs: "needs m ?r CHR '' ''" by (rule needs_Seq [OF needs_Lit])
  have blank: "\<not> in_cls digit_cls CHR '' ''" by (simp add: in_cls_def digit_cls_def)
  have "run m (field_pattern n (f # f' # fs)) (p, ((f @ ''='') @ show_nat v @ CHR '' '' # ?more) @ rest, g) =
      run m (Seq (Grp n (Plus (Set digit_cls))) ?r)
        (rev (f @ ''='') @ p, show_nat v @ CHR '' '' # ?more @ rest, g)"
    using run_Lit_then [of m "f @ ''=''"] by (simp only: field_pattern.simps append_assoc append_Cons)
  also have "\<dots> = run m ?r (rev (show_nat v) @ rev (f @ ''='') @ p, CHR '' '' # ?more @ rest,
      (n, show_nat v) # g)"
    by (rule run_Grp_Plus_then [OF show_nat_in_digits show_nat_not_Nil needs blank])
  also have "\<dots> = run m (field_pattern (Suc n) (f' # fs))
      (CHR '' '' # rev (show_nat v) @ rev (f @ ''='') @ p, ?more @ rest, (n, show_nat v) # g)"
    using run_Lit_then [of m "'' ''"] by (simp only: append_Cons append_Nil rev.simps)
  finally have run: "run m (field_pattern n (f # f' # fs))
      (p, ((f @ ''='') @ show_nat v @ CHR '' '' # ?more) @ rest, g) = \<dots>" .
  have "[n..<n + length (f # f' # fs)] = n # [Suc n..<Suc n + length (f' # fs)]"
    by (subst upt_conv_Cons) simp_all
  then have groups: "rev (zip [n..<n + length (f # f' # fs)] (map show_nat vs)) @ g =
      rev (zip [Suc n..<Suc n + length (f' # fs)] (map show_nat vs')) @ (n, show_nat v) # g"
    by (simp only: v(1) list.map zip_Cons_Cons rev.simps append_assoc append_Cons append_Nil)
  show ?case
    unfolding line run groups by (rule 3(1) [OF v(2)]) simp
qed simp

text \<open>A log has timing records between lines that do not mention the marker.\<close>

datatype log_line = Other string | Timing timing_report

fun print_line :: "log_line \<Rightarrow> string" where
  "print_line (Other l) = l @ nl"
| "print_line (Timing t) = print_timing t"

fun line_ok :: "log_line \<Rightarrow> bool" where
  "line_ok (Other l) \<longleftrightarrow> CHR 0x0A \<notin> set l \<and> \<not> contains TIMING_MARKER l"
| "line_ok (Timing t) \<longleftrightarrow> True"

fun line_reports :: "log_line \<Rightarrow> timing_report list" where
  "line_reports (Other l) = []"
| "line_reports (Timing t) = [t]"

definition timing_caps :: "timing_report \<Rightarrow> caps" where
  "timing_caps t = rev (zip [1..<10] (map show_nat (timing_values t)))"

lemma consumes_PATTERN: "consumes PATTERN"
  unfolding PATTERN_def by (rule consumes_Lit) (simp add: TIMING_MARKER_def)

lemma length_timing: "length (timing_values t) = length FIELDS" "length FIELDS = 9"
  by (simp_all add: timing_values_def FIELDS_def)

lemma search_timing:
  "\<exists>p'. rx_search_at False PATTERN p (print_timing t @ s) = Some (print_timing t @ s, p', nl @ s, timing_caps t)"
proof -
  let ?fields = "join '' '' (map (\<lambda>(f, v). f @ ''='' @ show_nat v) (zip FIELDS (timing_values t)))"
  have "stops digit_cls (nl @ s)" by (simp add: stops_def nl_def in_cls_def digit_cls_def)
  moreover have "FIELDS \<noteq> []" by (simp add: FIELDS_def)
  ultimately obtain p' more where
    "run False (field_pattern 1 FIELDS) (rev TIMING_MARKER @ p, ?fields @ nl @ s, []) =
      (p', nl @ s, timing_caps t) # more"
    using run_field_pattern [OF length_timing(1) [of t], where m = False and n = 1 and rest = "nl @ s"
      and p = "rev TIMING_MARKER @ p" and g = "[]"]
    by (auto simp: length_timing timing_caps_def)
  then have "run False PATTERN (p, TIMING_MARKER @ ?fields @ nl @ s, []) = (p', nl @ s, timing_caps t) # more"
    unfolding PATTERN_def run_Lit_then by simp
  from search_here [OF this] show ?thesis by (simp add: print_timing_def)
qed

lemma startswith_before_newline:
  assumes "startswith (y @ nl @ s) t" and "CHR 0x0A \<notin> set t"
  shows "startswith y t"
proof -
  from assms(1) obtain r where r: "y @ nl @ s = t @ r" by (auto simp: startswith_iff)
  have "length t \<le> length y"
  proof (rule ccontr)
    assume less: "\<not> length t \<le> length y"
    then have "t ! length y = (y @ nl @ s) ! length y" unfolding r by (simp add: nth_append)
    also have "\<dots> = CHR 0x0A" by (simp add: nl_def)
    finally show False using less assms(2) by (metis not_le nth_mem)
  qed
  with r show ?thesis by (auto simp: append_eq_append_conv2 startswith_iff)
qed

lemma search_other:
  assumes "CHR 0x0A \<notin> set l" and "\<not> contains TIMING_MARKER l"
  shows "rx_search_at m PATTERN p (l @ nl @ s) = rx_search_at m PATTERN (rev (l @ nl) @ p) s"
  using assms
proof (induction l arbitrary: p)
  case Nil
  have "run m PATTERN (p, nl @ s, []) = []"
    by (simp add: PATTERN_def startswith_def TIMING_MARKER_def nl_def)
  then show ?case by (simp add: nl_def)
next
  case (Cons c l)
  have "\<not> startswith ((c # l) @ nl @ s) TIMING_MARKER"
    using Cons.prems startswith_before_newline [of "c # l" s TIMING_MARKER]
    by (auto simp: TIMING_MARKER_def simp del: append_Cons)
  then have "run m PATTERN (p, (c # l) @ nl @ s, []) = []" by (simp add: PATTERN_def)
  with Cons show ?case by simp
qed

lemma findall_log:
  assumes "list_all line_ok ls"
  shows "findall_from False PATTERN p (concat (map print_line ls)) =
    map timing_caps (concat (map line_reports ls))"
  using assms
proof (induction ls arbitrary: p)
  case Nil
  have "rx_search_at False PATTERN p [] = None"
    by (simp add: PATTERN_def startswith_def TIMING_MARKER_def)
  then show ?case by (subst findall_step [OF consumes_PATTERN]) simp
next
  case (Cons l ls)
  let ?s = "concat (map print_line ls)"
  show ?case
  proof (cases l)
    case (Other t)
    with Cons.prems have "rx_search_at False PATTERN p (t @ nl @ ?s) = rx_search_at False PATTERN (rev (t @ nl) @ p) ?s"
      by (intro search_other) simp_all
    from findall_search_eq [OF consumes_PATTERN this] Cons Other show ?thesis by simp
  next
    case (Timing t)
    have blank: "findall_from False PATTERN q (nl @ ?s) = findall_from False PATTERN (rev nl @ q) ?s" for q
      using findall_search_eq [OF consumes_PATTERN search_other [of "[]" False q ?s]]
      by (simp add: TIMING_MARKER_def)
    from search_timing [of p t ?s] obtain p' where
      "rx_search_at False PATTERN p (print_timing t @ ?s) = Some (print_timing t @ ?s, p', nl @ ?s, timing_caps t)"
      by blast
    then have "findall_from False PATTERN p (print_timing t @ ?s) =
        timing_caps t # findall_from False PATTERN p' (nl @ ?s)"
      by (subst findall_step [OF consumes_PATTERN]) simp
    with blank Cons Timing show ?thesis by simp
  qed
qed

definition timing_dict :: "timing_report \<Rightarrow> (string \<times> int) list" where
  "timing_dict t = zip FIELDS (map int (timing_values t))"

lemma timing_record_caps: "timing_record (timing_caps t) = timing_dict t"
proof -
  have "map (\<lambda>i. dec_int (group_of (timing_caps t) i)) [1..<Suc (length FIELDS)] = map int (timing_values t)"
    by (simp add: length_timing timing_caps_def timing_values_def group_of_def upt_rec)
  then show ?thesis by (simp add: timing_record_def timing_dict_def)
qed

lemma records_of_log:
  assumes "list_all line_ok ls"
  shows "map timing_record (findall False PATTERN (concat (map print_line ls))) =
    map timing_dict (concat (map line_reports ls))"
  using findall_log [OF assms] by (simp add: findall_def timing_record_caps comp_def)

section \<open>What passes\<close>

definition tfield :: "(string \<times> int) list \<Rightarrow> string \<Rightarrow> int" where
  "tfield r f = the (map_of r f)"

definition has_fields :: "(string \<times> int) list \<Rightarrow> bool" where
  "has_fields r \<longleftrightarrow> map fst r = FIELDS"

definition ordered_percentiles :: "(string \<times> int) list \<Rightarrow> bool" where
  "ordered_percentiles r \<longleftrightarrow>
     tfield r ''release_p50_us'' \<le> tfield r ''release_p95_us'' \<and>
     tfield r ''release_p95_us'' \<le> tfield r ''release_p99_us'' \<and>
     tfield r ''completion_p50_us'' \<le> tfield r ''completion_p95_us'' \<and>
     tfield r ''completion_p95_us'' \<le> tfield r ''completion_p99_us''"

text \<open>
  The record that a run is judged by: there are enough records, the sample counts increase, and
  the last required record has enough samples, a running cycle counter and ordered percentiles.
\<close>

definition judged_by :: "int \<Rightarrow> (string \<times> int) list list \<Rightarrow> (string \<times> int) list \<Rightarrow> bool" where
  "judged_by k records r \<longleftrightarrow>
     k \<le> int (length records) \<and>
     successively (\<lambda>a b. tfield a ''samples'' < tfield b ''samples'') records \<and>
     r = records ! nat (k - 1) \<and> 50 * k \<le> tfield r ''samples'' \<and> tfield r ''release_max_us'' \<noteq> 0 \<and>
     ordered_percentiles r"

lemma has_fields_record [simp]: "has_fields (timing_record g)" "has_fields (timing_dict t)"
  by (simp_all add: has_fields_def timing_record_def timing_dict_def length_timing)

lemma has_fields_item:
  assumes "has_fields r" and "f \<in> set FIELDS"
  shows "dict_item r f = Inr (tfield r f)"
proof -
  from assms have "f \<in> dom (map_of r)" by (simp add: has_fields_def dom_map_of_conv_image_fst flip: set_map)
  then show ?thesis by (auto simp: tfield_def)
qed

lemma FIELDS_members:
  "''samples'' \<in> set FIELDS" "''release_max_us'' \<in> set FIELDS"
  "name \<in> set [''release'', ''completion''] \<Longrightarrow>
     name @ ''_p50_us'' \<in> set FIELDS \<and> name @ ''_p95_us'' \<in> set FIELDS \<and> name @ ''_p99_us'' \<in> set FIELDS"
  "set TIMING_GATES \<subseteq> set FIELDS"
  by (auto simp: FIELDS_def TIMING_GATES_def)

lemma check_percentiles_ok:
  assumes "has_fields r"
  shows "forE (check_percentiles path r) [''release'', ''completion''] = Inr () \<longleftrightarrow> ordered_percentiles r"
proof -
  have "check_percentiles path r name = Inr () \<longleftrightarrow>
      tfield r (name @ ''_p50_us'') \<le> tfield r (name @ ''_p95_us'') \<and>
      tfield r (name @ ''_p95_us'') \<le> tfield r (name @ ''_p99_us'')"
    if "name \<in> set [''release'', ''completion'']" for name
    using FIELDS_members(3) [OF that] by (simp add: check_percentiles_def has_fields_item [OF assms])
  then show ?thesis unfolding forE_eq_Inr by (simp add: ordered_percentiles_def)
qed

lemma adjacent_zip:
  "list_ex (\<lambda>(a, b). P a b) (zip xs (drop 1 xs)) \<longleftrightarrow> \<not> successively (\<lambda>a b. \<not> P a b) xs"
proof (induction xs)
  case (Cons x xs)
  then show ?case by (cases xs) auto
qed simp

lemma bindE_unit_Inr: "bindE m (\<lambda>_. Inr x) = Inr y \<longleftrightarrow> m = Inr () \<and> x = y"
  by (cases m) auto

lemma final_record_iff:
  assumes "1 \<le> k"
  shows "final_record w path k = Inr r \<longleftrightarrow>
    (\<exists>f. w path = Regular f \<and> judged_by k (map timing_record (findall False PATTERN (lossy_text f))) r)"
proof (cases "w path")
  case (Regular f)
  define records where "records = map timing_record (findall False PATTERN (lossy_text f))"
  have fields: "has_fields x" if "x \<in> set records" for x using that by (auto simp: records_def)
  have stuck: "anyE (\<lambda>(a, b). bindE (dict_item b ''samples'') (\<lambda>m.
        bindE (dict_item a ''samples'') (\<lambda>n. Inr (m \<le> n)))) (zip records (drop 1 records)) =
      Inr (\<not> successively (\<lambda>a b. tfield a ''samples'' < tfield b ''samples'') records)"
  proof -
    have item: "dict_item a ''samples'' = Inr (tfield a ''samples'')"
      "dict_item b ''samples'' = Inr (tfield b ''samples'')"
      if "(a, b) \<in> set (zip records (drop 1 records))" for a b
      using set_zip_leftD [OF that] in_set_dropD [OF set_zip_rightD [OF that]]
      by (simp_all add: has_fields_item fields FIELDS_members)
    have "anyE (\<lambda>(a, b). bindE (dict_item b ''samples'') (\<lambda>m.
        bindE (dict_item a ''samples'') (\<lambda>n. Inr (m \<le> n)))) (zip records (drop 1 records)) =
      Inr (list_ex (\<lambda>(a, b). tfield b ''samples'' \<le> tfield a ''samples'') (zip records (drop 1 records)))"
      by (rule anyE_pure) (clarsimp simp only: prod.case item bindE_simps)
    then show ?thesis unfolding adjacent_zip by (simp add: not_le)
  qed
  have last: "py_index records (k - 1) = Inr (records ! nat (k - 1))" "has_fields (records ! nat (k - 1))"
    if "k \<le> int (length records)"
    using that assms by (auto simp: py_index_def Let_def intro!: fields nth_mem)
  have "final_record w path k = Inr r \<longleftrightarrow> judged_by k records r"
  proof (cases "k \<le> int (length records)")
    case False
    then show ?thesis
      using Regular by (simp add: final_record_def open_file_def judged_by_def records_def Let_def)
  next
    case True
    let ?r = "records ! nat (k - 1)"
    let ?check = "forE (check_percentiles path ?r) [''release'', ''completion'']"
    note item = has_fields_item [OF last(2) [OF True]]
    have count: "\<not> int (length (findall False PATTERN (lossy_text f))) < k"
      using True by (simp add: records_def)
    have "final_record w path k =
        (if \<not> successively (\<lambda>a b. tfield a ''samples'' < tfield b ''samples'') records
         then Inl (ValueError (path @ '': sample count did not increase''))
         else bindE (if tfield ?r ''samples'' < 50 * k then Inr True else Inr (tfield ?r ''release_max_us'' = 0))
           (\<lambda>useless. if useless
             then Inl (ValueError (path @ '': cycle counter did not produce useful release measurements''))
             else bindE ?check (\<lambda>_. Inr ?r)))"
      unfolding final_record_def open_file_def Regular node.case sum.case Let_def records_def [symmetric] stuck
        bindE_simps if_not_P [OF count] last(1) [OF True] item [OF FIELDS_members(1)] item [OF FIELDS_members(2)]
      by (rule refl)
    moreover have "bindE ?check (\<lambda>_. Inr ?r) = Inr r \<longleftrightarrow> ordered_percentiles ?r \<and> r = ?r"
      unfolding bindE_unit_Inr check_percentiles_ok [OF last(2) [OF True]] by blast
    ultimately have "final_record w path k = Inr r \<longleftrightarrow>
        successively (\<lambda>a b. tfield a ''samples'' < tfield b ''samples'') records \<and>
        \<not> tfield ?r ''samples'' < 50 * k \<and> tfield ?r ''release_max_us'' \<noteq> 0 \<and> ordered_percentiles ?r \<and> r = ?r"
      by (simp del: forE.simps)
    with True show ?thesis unfolding judged_by_def not_less by blast
  qed
  with Regular show ?thesis by (simp add: records_def)
qed (simp_all add: final_record_def open_file_def)

text \<open>The gates of a matched pair of runs.\<close>

definition records_of :: "rfile \<Rightarrow> (string \<times> int) list list" where
  "records_of f = map timing_record (findall False PATTERN (lossy_text f))"

definition matched :: "rworld \<Rightarrow> timing_args \<Rightarrow> string \<times> string \<Rightarrow> bool" where
  "matched w args paths \<longleftrightarrow>
     (\<exists>f g p n. w (fst paths) = Regular f \<and> w (snd paths) = Regular g \<and>
        judged_by (ta_minimum args) (records_of f) p \<and> judged_by (ta_minimum args) (records_of g) n \<and>
        (\<forall>field \<in> set TIMING_GATES. tfield n field \<le> tfield p field + ta_regression args))"

lemma judged_has_fields: "1 \<le> k \<Longrightarrow> judged_by k (records_of f) r \<Longrightarrow> has_fields r"
proof -
  assume k: "1 \<le> k" and j: "judged_by k (records_of f) r"
  then have "nat (k - 1) < length (records_of f)" by (auto simp: judged_by_def)
  then have "r \<in> set (records_of f)" using j by (simp add: judged_by_def)
  then show "has_fields r" by (auto simp: records_of_def)
qed

lemma check_gate_ok:
  assumes "has_fields p" and "has_fields n"
  shows "forE (check_gate i d p n) TIMING_GATES = Inr () \<longleftrightarrow>
    (\<forall>field \<in> set TIMING_GATES. tfield n field \<le> tfield p field + d)"
proof -
  have "check_gate i d p n field = Inr () \<longleftrightarrow> tfield n field \<le> tfield p field + d"
    if "field \<in> set TIMING_GATES" for field
  proof -
    from that FIELDS_members(4) have "field \<in> set FIELDS" by blast
    then show ?thesis
      by (simp add: check_gate_def has_fields_item [OF assms(1)] has_fields_item [OF assms(2)] not_less)
  qed
  then show ?thesis unfolding forE_eq_Inr by blast
qed

lemma gate_text_ok:
  assumes "has_fields p" and "has_fields n"
  shows "\<exists>texts. mapE (gate_text p n) TIMING_GATES = Inr texts"
proof -
  have "gate_text p n field = Inr (field @ ''='' @ show_int (tfield p field) @ ''/'' @ show_int (tfield n field))"
    if "field \<in> set TIMING_GATES" for field
  proof -
    from that FIELDS_members(4) have "field \<in> set FIELDS" by blast
    then show ?thesis by (simp add: gate_text_def has_fields_item [OF assms(1)] has_fields_item [OF assms(2)])
  qed
  then have "mapE (gate_text p n) TIMING_GATES =
      Inr (map (\<lambda>field. field @ ''='' @ show_int (tfield p field) @ ''/'' @ show_int (tfield n field)) TIMING_GATES)"
    by (rule mapE_pure)
  then show ?thesis by blast
qed

lemma timing_run_ok:
  assumes "1 \<le> ta_minimum args"
  shows "(\<exists>line. timing_run w args i paths = Inr line) \<longleftrightarrow> matched w args paths"
proof
  assume "\<exists>line. timing_run w args i paths = Inr line"
  then obtain p n where r: "final_record w (fst paths) (ta_minimum args) = Inr p"
    "final_record w (snd paths) (ta_minimum args) = Inr n"
    "forE (check_gate i (ta_regression args) p n) TIMING_GATES = Inr ()"
    unfolding timing_run_def bindE_eq_Inr by (elim exE conjE) (rule that, assumption, assumption, simp)
  from r(1,2) obtain f g where f: "w (fst paths) = Regular f" "judged_by (ta_minimum args) (records_of f) p"
    and g: "w (snd paths) = Regular g" "judged_by (ta_minimum args) (records_of g) n"
    unfolding final_record_iff [OF assms] records_of_def by blast
  from r(3) check_gate_ok [OF judged_has_fields [OF assms f(2)] judged_has_fields [OF assms g(2)]] f g
  show "matched w args paths" unfolding matched_def by blast
next
  assume "matched w args paths"
  then obtain f g p n where f: "w (fst paths) = Regular f" "judged_by (ta_minimum args) (records_of f) p"
    and g: "w (snd paths) = Regular g" "judged_by (ta_minimum args) (records_of g) n"
    and gates: "\<forall>field \<in> set TIMING_GATES. tfield n field \<le> tfield p field + ta_regression args"
    unfolding matched_def by blast
  note p = judged_has_fields [OF assms f(2)] and n = judged_has_fields [OF assms g(2)]
  have "final_record w (fst paths) (ta_minimum args) = Inr p" "final_record w (snd paths) (ta_minimum args) = Inr n"
    unfolding final_record_iff [OF assms] using f g by (auto simp: records_of_def)
  moreover have "forE (check_gate i (ta_regression args) p n) TIMING_GATES = Inr ()"
    using check_gate_ok [OF p n] gates by blast
  moreover obtain texts where "mapE (gate_text p n) TIMING_GATES = Inr texts"
    using gate_text_ok [OF p n] by blast
  ultimately show "\<exists>line. timing_run w args i paths = Inr line"
    unfolding timing_run_def
    by (simp only: bindE_simps has_fields_item [OF p FIELDS_members(1)] has_fields_item [OF n FIELDS_members(1)]) blast
qed

lemma timing_runs_ok:
  assumes "1 \<le> ta_minimum args"
  shows "snd (timing_runs w args i pairs) = Inr () \<longleftrightarrow> (\<forall>paths \<in> set pairs. matched w args paths)"
proof (induction pairs arbitrary: i)
  case (Cons paths pairs)
  show ?case
  proof (cases "timing_run w args i paths")
    case (Inl e)
    with timing_run_ok [OF assms, of w i paths] show ?thesis by simp
  next
    case (Inr line)
    with timing_run_ok [OF assms, of w i paths] Cons [of "i + 1"] show ?thesis by simp
  qed
qed simp

section \<open>Properties\<close>

text \<open>
  Property C22. The comparison exits with 0 exactly when the two lists of logs have the same length,
  a record is required, and for every pair both logs have enough useful, increasing records and no
  gate of the native run exceeds the POSIX run by more than the allowed regression.
\<close>

theorem timing_main_pass:
  "snd (snd (timing_main w args)) = Inr 0 \<longleftrightarrow>
     length (ta_posix args) = length (ta_native args) \<and> 1 \<le> ta_minimum args \<and>
     (\<forall>paths \<in> set (zip (ta_posix args) (ta_native args)). matched w args paths)"
proof (cases "length (ta_posix args) \<noteq> length (ta_native args) \<or> ta_minimum args < 1")
  case False
  obtain out r where run: "timing_runs w args 1 (zip (ta_posix args) (ta_native args)) = (out, r)"
    by (cases "timing_runs w args 1 (zip (ta_posix args) (ta_native args))")
  have "snd (snd (timing_main w args)) = Inr 0 \<longleftrightarrow> r = Inr ()"
    using False run by (auto simp: timing_main_def split: sum.split pyexn.split)
  with run timing_runs_ok [of args w 1 "zip (ta_posix args) (ta_native args)"] False show ?thesis by simp
qed (auto simp: timing_main_def)

lemma records_of_print:
  "list_all line_ok ls \<Longrightarrow> records_of (text_file (concat (map print_line ls))) =
     map timing_dict (concat (map line_reports ls))"
  using records_of_log by (simp add: records_of_def text_file_def)

lemma tfield_dict:
  "tfield (timing_dict t) ''samples'' = int (tr_samples t)"
  "tfield (timing_dict t) ''release_p50_us'' = int (tr_release_p50 t)"
  "tfield (timing_dict t) ''release_p95_us'' = int (tr_release_p95 t)"
  "tfield (timing_dict t) ''release_p99_us'' = int (tr_release_p99 t)"
  "tfield (timing_dict t) ''release_max_us'' = int (tr_release_max t)"
  "tfield (timing_dict t) ''completion_p50_us'' = int (tr_completion_p50 t)"
  "tfield (timing_dict t) ''completion_p95_us'' = int (tr_completion_p95 t)"
  "tfield (timing_dict t) ''completion_p99_us'' = int (tr_completion_p99 t)"
  "tfield (timing_dict t) ''completion_max_us'' = int (tr_completion_max t)"
  by (simp_all add: tfield_def timing_dict_def timing_values_def FIELDS_def)

definition example_report :: "nat \<Rightarrow> timing_report" where
  "example_report d =
     \<lparr>tr_samples = 100, tr_release_p50 = 100, tr_release_p95 = 200, tr_release_p99 = 300 + d,
      tr_release_max = 400 + d, tr_completion_p50 = 0, tr_completion_p95 = 0, tr_completion_p99 = 0,
      tr_completion_max = d\<rparr>"

definition example_runs :: rworld where
  "example_runs path = Regular (text_file (concat (map print_line
     [Other ''booting'', Timing (example_report (if path = ''native'' then 500 else 0))])))"

theorem timing_main_pass_witness:
  "snd (snd (timing_main example_runs \<lparr>ta_posix = [''posix''], ta_native = [''native''], ta_minimum = 1,
     ta_regression = 1000\<rparr>)) = Inr 0"
proof -
  let ?args = "\<lparr>ta_posix = [''posix''], ta_native = [''native''], ta_minimum = 1, ta_regression = 1000\<rparr>"
  let ?f = "\<lambda>d. text_file (concat (map print_line [Other ''booting'', Timing (example_report d)]))"
  have records: "records_of (?f d) = [timing_dict (example_report d)]" for d
    by (subst records_of_print) (simp_all add: TIMING_MARKER_def startswith_def)
  have "judged_by 1 (records_of (?f d)) (timing_dict (example_report d))" for d
    unfolding records by (simp add: judged_by_def ordered_percentiles_def tfield_dict example_report_def)
  moreover have "\<forall>field \<in> set TIMING_GATES.
      tfield (timing_dict (example_report 500)) field \<le> tfield (timing_dict (example_report 0)) field + 1000"
    by (simp add: TIMING_GATES_def tfield_dict example_report_def)
  moreover have "example_runs ''posix'' = Regular (?f 0)" "example_runs ''native'' = Regular (?f 500)"
    by (simp_all add: example_runs_def)
  ultimately have "matched example_runs ?args (''posix'', ''native'')"
    unfolding matched_def fst_conv snd_conv timing_args.simps by blast
  then show ?thesis unfolding timing_main_pass by simp
qed

end
