(* ===== verification/Control_Probe.thy ===== *)
theory Control_Probe
  imports Control_Timing "HOL-Library.Word"
begin

text \<open>
  The timing probe of the firmware (\<open>src/samples/static_control/src/control.c\<close>) on 32-bit words:
  the histograms, \<open>timing_record\<close>, \<open>timing_percentile\<close> and \<open>static_control_timing_read\<close>. As long as
  \<open>samples * 99 + 99\<close> does not wrap, the probe's percentiles are ordered, so that the order check of
  \<open>check_static_control_timing.py\<close> cannot fail on its reports; from 43383508 samples on it can.
\<close>

section \<open>The probe\<close>

type_synonym u32 = "32 word"

definition BUCKET_US :: u32 where "BUCKET_US = 100"
definition BUCKET_COUNT :: nat where "BUCKET_COUNT = 102"

record probe =
  pr_samples :: u32
  pr_release_hist :: "u32 list"
  pr_completion_hist :: "u32 list"
  pr_release_max :: u32
  pr_completion_max :: u32

text \<open>\<open>memset(&timing, 0, sizeof(timing))\<close> in \<open>static_control_start\<close>.\<close>

definition probe_zero :: probe where
  "probe_zero =
     \<lparr>pr_samples = 0, pr_release_hist = replicate BUCKET_COUNT 0,
      pr_completion_hist = replicate BUCKET_COUNT 0, pr_release_max = 0, pr_completion_max = 0\<rparr>"

definition bucket_of :: "u32 \<Rightarrow> nat" where
  "bucket_of us = min (unat (us div BUCKET_US)) (BUCKET_COUNT - 1)"

definition bump :: "u32 list \<Rightarrow> nat \<Rightarrow> u32 list" where
  "bump hist bucket = hist[bucket := hist ! bucket + 1]"

text \<open>
  \<open>us_of\<close> is Zephyr's \<open>k_cyc_to_us_floor64\<close>. The cycle differences wrap; the microseconds are
  saturated at 32 bits, the completion is counted from the deadline of 10 ms.
\<close>

definition saturate :: "nat \<Rightarrow> u32" where
  "saturate n = of_nat (min n (2 ^ 32 - 1))"

definition probe_record :: "(u32 \<Rightarrow> nat) \<Rightarrow> u32 \<Rightarrow> u32 \<Rightarrow> u32 \<Rightarrow> probe \<Rightarrow> probe" where
  "probe_record us_of release_cycles start_cycles completion_cycles p =
     (let release_us = saturate (us_of (start_cycles - release_cycles));
          completion_us = us_of (completion_cycles - release_cycles);
          completion_late_us = saturate (if 10000 < completion_us then completion_us - 10000 else 0)
      in \<lparr>pr_samples = pr_samples p + 1,
          pr_release_hist = bump (pr_release_hist p) (bucket_of release_us),
          pr_completion_hist = bump (pr_completion_hist p) (bucket_of completion_late_us),
          pr_release_max = max (pr_release_max p) release_us,
          pr_completion_max = max (pr_completion_max p) completion_late_us\<rparr>)"

text \<open>The loop over the buckets: the number of the first bucket that reaches the rank.\<close>

fun percentile_bucket :: "u32 \<Rightarrow> u32 \<Rightarrow> nat \<Rightarrow> u32 list \<Rightarrow> nat option" where
  "percentile_bucket rank cumulative bucket [] = None"
| "percentile_bucket rank cumulative bucket (h # hist) =
     (let c = cumulative + h in
      if rank \<le> c then Some bucket else percentile_bucket rank c (Suc bucket) hist)"

definition timing_percentile :: "u32 list \<Rightarrow> u32 \<Rightarrow> u32 \<Rightarrow> u32" where
  "timing_percentile hist samples percentile =
     (if samples = 0 then 0
      else case percentile_bucket ((samples * percentile + 99) div 100) 0 0 hist of
             Some bucket \<Rightarrow> (of_nat bucket + 1) * BUCKET_US
           | None \<Rightarrow> of_nat BUCKET_COUNT * BUCKET_US)"

definition timing_read :: "probe \<Rightarrow> timing_report" where
  "timing_read p =
     (let pct = (\<lambda>hist n. unat (timing_percentile (hist p) (pr_samples p) n)) in
      \<lparr>tr_samples = unat (pr_samples p),
       tr_release_p50 = pct pr_release_hist 50, tr_release_p95 = pct pr_release_hist 95,
       tr_release_p99 = pct pr_release_hist 99, tr_release_max = unat (pr_release_max p),
       tr_completion_p50 = pct pr_completion_hist 50, tr_completion_p95 = pct pr_completion_hist 95,
       tr_completion_p99 = pct pr_completion_hist 99, tr_completion_max = unat (pr_completion_max p)\<rparr>)"

section \<open>Percentiles\<close>

lemma unat_plus32: "unat (a + b) = unat a + unat b" if "unat a + unat b < 2 ^ 32" for a b :: u32
  using that by (simp add: unat_word_ariths)

lemma unat_of_nat32: "n < 2 ^ 32 \<Longrightarrow> unat (of_nat n :: u32) = n"
  by (simp add: unat_of_nat)

lemma percentile_bucket_bounds:
  "percentile_bucket rank c b hist = Some k \<Longrightarrow> b \<le> k \<and> k < b + length hist"
  by (induction rank c b hist rule: percentile_bucket.induct) (fastforce simp: Let_def split: if_splits)+

text \<open>A smaller rank is reached no later.\<close>

lemma percentile_bucket_mono:
  assumes "r \<le> r'" and "percentile_bucket r' c b hist = Some k'"
  shows "\<exists>k \<le> k'. percentile_bucket r c b hist = Some k"
  using assms(2)
proof (induction hist arbitrary: c b)
  case (Cons h hist)
  show ?case
  proof (cases "r \<le> c + h")
    case True
    with percentile_bucket_bounds [OF Cons.prems] show ?thesis by auto
  next
    case False
    with assms(1) have "\<not> r' \<le> c + h" by auto
    with False Cons show ?thesis by (simp add: Let_def)
  qed
qed simp

lemma percentile_value:
  assumes "length hist = BUCKET_COUNT" and "samples \<noteq> 0"
  shows "unat (timing_percentile hist samples n) =
    (case percentile_bucket ((samples * n + 99) div 100) 0 0 hist of
       Some k \<Rightarrow> (k + 1) * 100 | None \<Rightarrow> 10200)"
proof (cases "percentile_bucket ((samples * n + 99) div 100) 0 0 hist")
  case None
  with assms(2) show ?thesis by (simp add: timing_percentile_def BUCKET_COUNT_def BUCKET_US_def)
next
  case (Some k)
  then have "k < 102" using percentile_bucket_bounds assms(1) by (fastforce simp: BUCKET_COUNT_def)
  then have "unat ((of_nat k + 1) * 100 :: u32) = (k + 1) * 100"
    using unat_of_nat32 [of "(k + 1) * 100"] by (simp add: algebra_simps)
  with Some assms(2) show ?thesis by (simp add: timing_percentile_def BUCKET_US_def)
qed

lemma rank_mono:
  fixes s :: u32
  assumes "unat s * n' + 99 < 2 ^ 32" and "n \<le> n'"
  shows "(s * of_nat n + 99) div 100 \<le> (s * of_nat n' + 99) div (100 :: u32)"
proof -
  have w: "unat (s * of_nat k + 99) = unat s * k + 99" if "k \<le> n'" for k
  proof -
    have "unat s * k \<le> unat s * n'" using that by simp
    then have "unat s * k + 99 < 2 ^ 32" using assms(1) by linarith
    moreover have "s * of_nat k + 99 = of_nat (unat s * k + 99)" by simp
    ultimately show ?thesis using unat_of_nat32 [of "unat s * k + 99"] by simp
  qed
  have "unat s * n + 99 \<le> unat s * n' + 99" using assms(2) by simp
  then show ?thesis
    unfolding word_le_nat_alt unat_div w [OF assms(2)] w [OF le_refl] by (simp add: div_le_mono)
qed

lemma percentile_mono:
  assumes "length hist = BUCKET_COUNT" and "unat s * n' + 99 < 2 ^ 32" and "n \<le> n'"
  shows "unat (timing_percentile hist s (of_nat n)) \<le> unat (timing_percentile hist s (of_nat n'))"
proof (cases "s = 0")
  case True
  then show ?thesis by (simp add: timing_percentile_def)
next
  case False
  note mono = percentile_bucket_mono [OF rank_mono [OF assms(2,3)], of 0 0 hist]
  have bound: "percentile_bucket r 0 0 hist = Some k \<Longrightarrow> k < 102" for r k
    using percentile_bucket_bounds [of r 0 0 hist k] assms(1) by (simp add: BUCKET_COUNT_def)
  show ?thesis
    unfolding percentile_value [OF assms(1) False] using mono bound
    by (fastforce split: option.split)
qed

section \<open>Reachable probes\<close>

text \<open>The states of the probe after \<open>n\<close> recorded cycles, whatever the cycle counter reads.\<close>

inductive recorded :: "(u32 \<Rightarrow> nat) \<Rightarrow> nat \<Rightarrow> probe \<Rightarrow> bool" for us_of where
  none: "recorded us_of 0 probe_zero"
| one: "recorded us_of n p \<Longrightarrow> recorded us_of (Suc n) (probe_record us_of release start completion p)"

inductive_cases recorded_0E: "recorded us_of 0 p"
inductive_cases recorded_SucE: "recorded us_of (Suc n) p"

definition total :: "u32 list \<Rightarrow> nat" where
  "total hist = sum_list (map unat hist)"

lemma total_bump:
  assumes "b < length hist" and "total hist < 2 ^ 32 - 1"
  shows "total (bump hist b) = Suc (total hist)"
proof -
  have split: "hist = take b hist @ hist ! b # drop (Suc b) hist"
    using assms(1) by (rule id_take_nth_drop)
  then have "unat (hist ! b) \<le> total hist"
    by (metis le_add1 le_add2 list.simps(9) map_append order_trans sum_list.Cons sum_list_append total_def)
  then have "unat (hist ! b) + unat (1 :: u32) < 2 ^ 32" using assms(2) by simp
  then have "unat (hist ! b + 1) = Suc (unat (hist ! b))" by (subst unat_plus32) simp_all
  moreover have "bump hist b = take b hist @ (hist ! b + 1) # drop (Suc b) hist"
    using assms(1) by (simp add: bump_def upd_conv_take_nth_drop)
  moreover have "total hist = total (take b hist) + unat (hist ! b) + total (drop (Suc b) hist)"
    by (subst split) (simp add: total_def)
  ultimately show ?thesis by (simp add: total_def)
qed

lemma bucket_of_less: "bucket_of us < BUCKET_COUNT"
  by (simp add: bucket_of_def BUCKET_COUNT_def)

lemma recorded_invariant:
  assumes "recorded us_of n p" and "n < 2 ^ 32"
  shows "unat (pr_samples p) = n \<and>
    length (pr_release_hist p) = BUCKET_COUNT \<and> total (pr_release_hist p) = n \<and>
    length (pr_completion_hist p) = BUCKET_COUNT \<and> total (pr_completion_hist p) = n"
  using assms
proof (induction rule: recorded.induct)
  case none
  then show ?case by (simp add: probe_zero_def total_def sum_list_replicate)
next
  case (one n p release start completion)
  then have IH: "unat (pr_samples p) = n" "length (pr_release_hist p) = BUCKET_COUNT"
    "total (pr_release_hist p) = n" "length (pr_completion_hist p) = BUCKET_COUNT"
    "total (pr_completion_hist p) = n" by simp_all
  have "unat (pr_samples p + 1) = Suc n"
    using IH(1) one.prems by (subst unat_plus32) simp_all
  moreover have "total (bump (pr_release_hist p) b) = Suc n" "total (bump (pr_completion_hist p) b) = Suc n"
    if "b < BUCKET_COUNT" for b
    using that IH one.prems by (simp_all add: total_bump)
  ultimately show ?case
    using IH bucket_of_less by (simp add: probe_record_def Let_def bump_def)
qed

text \<open>The scan stops at the first bucket whose cumulative count reaches the rank.\<close>

lemma percentile_bucket_rank:
  assumes "unat c + total hist < 2 ^ 32" and "unat c < unat rank" and "unat rank \<le> unat c + total hist"
  shows "\<exists>k < length hist. percentile_bucket rank c b hist = Some (b + k) \<and>
    unat c + total (take k hist) < unat rank \<and> unat rank \<le> unat c + total (take (Suc k) hist)"
  using assms
proof (induction hist arbitrary: c b)
  case Nil
  then show ?case by (simp add: total_def)
next
  case (Cons h hist)
  have sum: "unat (c + h) = unat c + unat h"
    using Cons.prems(1) by (intro unat_plus32) (simp add: total_def)
  show ?case
  proof (cases "rank \<le> c + h")
    case True
    with Cons.prems sum show ?thesis
      by (intro exI [of _ 0]) (simp add: total_def word_le_nat_alt)
  next
    case False
    then have "unat (c + h) < unat rank" by (simp add: word_le_nat_alt)
    with Cons.IH [of "c + h" "Suc b"] Cons.prems sum obtain k where "k < length hist"
      "percentile_bucket rank (c + h) (Suc b) hist = Some (Suc b + k)"
      "unat (c + h) + total (take k hist) < unat rank"
      "unat rank \<le> unat (c + h) + total (take (Suc k) hist)"
      by (auto simp: total_def)
    with False sum show ?thesis
      by (intro exI [of _ "Suc k"]) (simp add: total_def Let_def)
  qed
qed

section \<open>What the histograms count\<close>

text \<open>The probe after a list of cycles, each a release, a start and a completion as the cycle counter read them.\<close>

type_synonym cycle = "u32 \<times> u32 \<times> u32"

definition probe_run :: "(u32 \<Rightarrow> nat) \<Rightarrow> cycle list \<Rightarrow> probe" where
  "probe_run us_of cycles =
     fold (\<lambda>(release, start, completion). probe_record us_of release start completion) cycles probe_zero"

lemma probe_run_recorded: "recorded us_of (length cycles) (probe_run us_of cycles)"
  by (induction cycles rule: rev_induct) (auto simp: probe_run_def intro: recorded.intros)

lemma probe_run_samples: "pr_samples (probe_run us_of cycles) = of_nat (length cycles)"
  by (induction cycles rule: rev_induct) (auto simp: probe_run_def probe_zero_def probe_record_def Let_def)

definition release_latency :: "(u32 \<Rightarrow> nat) \<Rightarrow> cycle \<Rightarrow> nat" where
  "release_latency us_of = (\<lambda>(release, start, completion). min (us_of (start - release)) (2 ^ 32 - 1))"

definition completion_latency :: "(u32 \<Rightarrow> nat) \<Rightarrow> cycle \<Rightarrow> nat" where
  "completion_latency us_of = (\<lambda>(release, start, completion). min (us_of (completion - release) - 10000) (2 ^ 32 - 1))"

definition nat_bucket :: "nat \<Rightarrow> nat" where
  "nat_bucket v = min (v div 100) 101"

lemma nat_bucket_less: "nat_bucket v < 102"
  by (simp add: nat_bucket_def)

lemma nat_bucket_mono: "v \<le> v' \<Longrightarrow> nat_bucket v \<le> nat_bucket v'"
  by (auto simp: nat_bucket_def min_def dest: div_le_mono [of _ _ 100])

lemma nat_bucket_edge: "(nat_bucket v + 1) * 100 = (if 10100 \<le> v then 10200 else (v div 100 + 1) * 100)"
  by (auto simp: nat_bucket_def min_def)

lemma bucket_of_saturate: "bucket_of (saturate n) = nat_bucket (min n (2 ^ 32 - 1))"
proof -
  have "unat (saturate n) = min n (2 ^ 32 - 1)" unfolding saturate_def by (rule unat_of_nat32) simp
  then show ?thesis by (simp add: bucket_of_def nat_bucket_def BUCKET_US_def BUCKET_COUNT_def unat_div)
qed

text \<open>A histogram that counts a list of latencies by their buckets.\<close>

definition hist_counts :: "u32 list \<Rightarrow> nat list \<Rightarrow> bool" where
  "hist_counts hist vs \<longleftrightarrow> length hist = BUCKET_COUNT \<and>
     (\<forall>k < BUCKET_COUNT. unat (hist ! k) = length (filter (\<lambda>v. nat_bucket v = k) vs))"

lemma hist_counts_bump:
  assumes "hist_counts hist vs" and "length vs < 2 ^ 32 - 1"
  shows "hist_counts (bump hist (nat_bucket v)) (vs @ [v])"
proof -
  have "unat (hist ! nat_bucket v) \<le> length vs"
    using assms(1) nat_bucket_less [of v] by (simp add: hist_counts_def BUCKET_COUNT_def)
  then have "unat (hist ! nat_bucket v + 1) = Suc (unat (hist ! nat_bucket v))"
    using assms(2) by (subst unat_plus32) simp_all
  with assms(1) nat_bucket_less [of v] show ?thesis
    by (auto simp: hist_counts_def bump_def nth_list_update BUCKET_COUNT_def)
qed

lemma probe_run_counts:
  assumes "length cycles < 2 ^ 32"
  shows "hist_counts (pr_release_hist (probe_run us_of cycles)) (map (release_latency us_of) cycles)"
    and "hist_counts (pr_completion_hist (probe_run us_of cycles)) (map (completion_latency us_of) cycles)"
proof (atomize (full), use assms in \<open>induction cycles rule: rev_induct\<close>)
  case Nil
  then show ?case by (simp add: probe_run_def probe_zero_def hist_counts_def)
next
  case (snoc c cycles)
  obtain release start completion where c: "c = (release, start, completion)" by (cases c)
  have "(if 10000 < n then n - 10000 else 0) = n - 10000" for n :: nat by simp
  then have "probe_run us_of (cycles @ [c]) =
      (let p = probe_run us_of cycles in
       \<lparr>pr_samples = pr_samples p + 1,
        pr_release_hist = bump (pr_release_hist p) (nat_bucket (release_latency us_of c)),
        pr_completion_hist = bump (pr_completion_hist p) (nat_bucket (completion_latency us_of c)),
        pr_release_max = max (pr_release_max p) (saturate (us_of (start - release))),
        pr_completion_max = max (pr_completion_max p) (saturate (us_of (completion - release) - 10000))\<rparr>)"
    by (simp only: probe_run_def fold_append comp_def fold.simps id_apply c case_prod_conv probe_record_def Let_def
        bucket_of_saturate release_latency_def completion_latency_def)
  with snoc show ?case by (simp add: Let_def hist_counts_bump)
qed

lemma filter_less_Suc:
  "length (filter (\<lambda>v. f v < Suc k) vs) = length (filter (\<lambda>v. f v < k) vs) + length (filter (\<lambda>v. f v = k) vs)"
  for f :: "'a \<Rightarrow> nat"
  by (induction vs) auto

lemma hist_counts_total:
  assumes "hist_counts hist vs" and "k \<le> BUCKET_COUNT"
  shows "total (take k hist) = length (filter (\<lambda>v. nat_bucket v < k) vs)"
  using assms(2)
proof (induction k)
  case (Suc k)
  with assms(1) show ?case
    by (simp add: total_def hist_counts_def take_Suc_conv_app_nth filter_less_Suc)
qed (simp add: total_def)

text \<open>In a sorted list the elements of a downward closed predicate come first.\<close>

lemma sorted_filter_nth:
  assumes "sorted xs" and "\<And>x y. x \<le> y \<Longrightarrow> P y \<Longrightarrow> P x" and "i < length xs"
  shows "P (xs ! i) \<longleftrightarrow> i < length (filter P xs)"
  using assms(1,3)
proof (induction xs arbitrary: i)
  case (Cons x xs)
  show ?case
  proof (cases "P x")
    case True
    with Cons show ?thesis by (cases i) simp_all
  next
    case False
    with Cons.prems assms(2) have "\<forall>y \<in> set (x # xs). \<not> P y" by auto
    then have "filter P (x # xs) = []" "\<not> P ((x # xs) ! i)" using Cons.prems(2) by (simp_all only: filter_False nth_mem not_False_eq_True)
    then show ?thesis by simp
  qed
qed simp

lemma nat_bucket_at_rank:
  assumes "length (filter (\<lambda>v. nat_bucket v < k) vs) < rank" and "rank \<le> length (filter (\<lambda>v. nat_bucket v < Suc k) vs)"
  shows "nat_bucket (sort vs ! (rank - 1)) = k"
proof -
  have "rank - 1 < length vs" using assms length_filter_le [of "\<lambda>v. nat_bucket v < Suc k" vs] by linarith
  then have "nat_bucket (sort vs ! (rank - 1)) < m \<longleftrightarrow> rank - 1 < length (filter (\<lambda>v. nat_bucket v < m) vs)" for m
    using sorted_filter_nth [of "sort vs" "\<lambda>v. nat_bucket v < m" "rank - 1"] nat_bucket_mono
    by (simp add: filter_sort) (meson le_less_trans)
  from this [of k] this [of "Suc k"] assms show ?thesis by linarith
qed

text \<open>A percentile of a histogram is the upper edge of the bucket of the latency at the rank the words compute.\<close>

lemma counted_percentile:
  assumes counts: "hist_counts hist vs" and "0 < length vs" and n: "length vs < 2 ^ 32" and "0 < pct" and "pct \<le> 100"
  defines "rank \<equiv> (length vs * pct + 99) mod 2 ^ 32 div 100"
  shows "unat (timing_percentile hist (of_nat (length vs)) (of_nat pct)) =
    (if rank = 0 then 100 else (nat_bucket (sort vs ! (rank - 1)) + 1) * 100)"
proof -
  let ?rank = "(of_nat (length vs) * of_nat pct + 99) div 100 :: u32"
  have len: "length hist = BUCKET_COUNT" using counts by (simp add: hist_counts_def)
  have nz: "(of_nat (length vs) :: u32) \<noteq> 0" using unat_of_nat32 [OF n] assms(2) by (metis less_irrefl unat_0)
  have "unat (of_nat (length vs * pct + 99) :: u32) = (length vs * pct + 99) mod 2 ^ 32" by (simp only: unat_of_nat) simp
  then have rank: "unat ?rank = rank" by (simp add: unat_div rank_def)
  show ?thesis
  proof (cases "rank = 0")
    case True
    then have "?rank = 0" using rank by (simp add: unat_eq_0)
    moreover have "hist \<noteq> []" using len by (auto simp: BUCKET_COUNT_def)
    ultimately have "percentile_bucket ?rank 0 0 hist = Some 0" by (cases hist) (simp_all add: Let_def)
    with True show ?thesis by (simp add: percentile_value [OF len nz])
  next
    case False
    have total: "total hist = length vs"
      using hist_counts_total [OF counts, of BUCKET_COUNT] len nat_bucket_less by (simp add: BUCKET_COUNT_def)
    have "length vs * pct \<le> length vs * 100" using assms(5) by simp
    moreover have "(length vs * pct + 99) mod 2 ^ 32 \<le> length vs * pct + 99" by (rule mod_less_eq_dividend)
    ultimately have "rank \<le> length vs" unfolding rank_def by linarith
    with False total n obtain k where k: "k < BUCKET_COUNT" "percentile_bucket ?rank 0 0 hist = Some k"
      "total (take k hist) < rank" "rank \<le> total (take (Suc k) hist)"
      using percentile_bucket_rank [of 0 hist ?rank 0] len unfolding rank by auto
    then have "nat_bucket (sort vs ! (rank - 1)) = k"
      using hist_counts_total [OF counts] by (intro nat_bucket_at_rank) simp_all
    with k False show ?thesis by (simp add: percentile_value [OF len nz])
  qed
qed

text \<open>A probe that has recorded the same release latency of 550 us in every cycle.\<close>

definition const_probe :: "nat \<Rightarrow> probe" where
  "const_probe n =
     \<lparr>pr_samples = of_nat n, pr_release_hist = [0, 0, 0, 0, 0, of_nat n] @ replicate 96 0,
      pr_completion_hist = of_nat n # replicate 101 0,
      pr_release_max = (if n = 0 then 0 else 550), pr_completion_max = 0\<rparr>"

lemma const_probe_recorded: "recorded (\<lambda>_. 550) n (const_probe n)"
proof (induction n)
  case 0
  have "replicate 102 (0 :: u32) = [0, 0, 0, 0, 0, 0] @ replicate 96 0" "replicate 102 (0 :: u32) = 0 # replicate 101 0"
    by (simp_all add: numeral_eq_Suc)
  then have "const_probe 0 = probe_zero" by (simp add: const_probe_def probe_zero_def BUCKET_COUNT_def)
  then show ?case using recorded.none [of "\<lambda>_. 550"] by simp
next
  case (Suc n)
  have "saturate 550 = 550" "saturate 0 = 0" by (simp_all add: saturate_def)
  moreover have "bucket_of 550 = 5" "bucket_of 0 = 0"
    by (simp_all add: bucket_of_def BUCKET_US_def BUCKET_COUNT_def unat_div)
  moreover have "bump ([0, 0, 0, 0, 0, w] @ r) 5 = [0, 0, 0, 0, 0, w + 1] @ r" "bump (w # r) 0 = (w + 1) # r" for w r
    by (simp_all add: bump_def numeral_eq_Suc)
  ultimately have "probe_record (\<lambda>_. 550) 0 0 0 (const_probe n) = const_probe (Suc n)"
    by (simp add: probe_record_def const_probe_def Let_def add.commute)
  with recorded.one [OF Suc.IH, of 0 0 0] show ?case by simp
qed

lemma const_probe_percentile:
  assumes "0 < n" "n < 2 ^ 32"
  shows "timing_percentile (pr_release_hist (const_probe n)) (of_nat n) pct =
    (let rank = (of_nat n * pct + 99) div 100 in
     if rank = 0 then 100 else if rank \<le> of_nat n then 600 else 10200)"
proof -
  have "(of_nat n :: u32) \<noteq> 0" using unat_of_nat32 [OF assms(2)] assms(1) by (metis less_irrefl unat_0)
  moreover have "percentile_bucket rank c b (replicate k 0) = None" if "\<not> rank \<le> c" for rank c b k
    using that by (induction k arbitrary: b) simp_all
  ultimately show ?thesis
    by (simp add: timing_percentile_def const_probe_def BUCKET_US_def BUCKET_COUNT_def Let_def)
qed

section \<open>Properties\<close>

text \<open>
  Property C23. After fewer than \<open>2 ^ 32\<close> recorded cycles, a percentile of the probe is read off the sorted
  latencies that were recorded, for the releases and for the completions alike: the upper edge of the bucket of 100 us
  of the one at the computed rank, and 10200 for everything from 10100 us on. The rank is the nearest rank, the least
  one that covers the percentage, as long as \<open>samples * percentile + 99\<close> does not wrap; where it wraps to rank 0 the
  answer is the edge of the first bucket, whatever was recorded.
\<close>

theorem percentile_nearest_rank:
  assumes "cycles \<noteq> []" and "length cycles < 2 ^ 32" and "0 < pct" and "pct \<le> 100"
    and "p = probe_run us_of cycles"
    and "releases = sort (map (\<lambda>(release, start, completion). min (us_of (start - release)) (2 ^ 32 - 1)) cycles)"
    and "completions = sort (map (\<lambda>(release, start, completion). min (us_of (completion - release) - 10000) (2 ^ 32 - 1)) cycles)"
    and "rank = (length cycles * pct + 99) mod 2 ^ 32 div 100"
  shows "unat (timing_percentile (pr_release_hist p) (pr_samples p) (of_nat pct)) =
      (if rank = 0 then 100 else if 10100 \<le> releases ! (rank - 1) then 10200 else (releases ! (rank - 1) div 100 + 1) * 100) \<and>
    unat (timing_percentile (pr_completion_hist p) (pr_samples p) (of_nat pct)) =
      (if rank = 0 then 100 else if 10100 \<le> completions ! (rank - 1) then 10200 else (completions ! (rank - 1) div 100 + 1) * 100) \<and>
    (length cycles * pct + 99 < 2 ^ 32 \<longrightarrow> rank = (LEAST k. length cycles * pct \<le> 100 * k))"
proof (intro conjI impI)
  have samples: "pr_samples p = of_nat (length cycles)" by (simp add: assms(5) probe_run_samples)
  note hist = probe_run_counts [OF assms(2), of us_of, folded assms(5)]
  show "unat (timing_percentile (pr_release_hist p) (pr_samples p) (of_nat pct)) =
      (if rank = 0 then 100 else if 10100 \<le> releases ! (rank - 1) then 10200 else (releases ! (rank - 1) div 100 + 1) * 100)"
    using counted_percentile [OF hist(1) _ _ assms(3,4)]
    by (simp only: samples assms(1,2,6,8) release_latency_def length_map length_greater_0_conv nat_bucket_edge simp_thms
        map_is_Nil_conv)
  show "unat (timing_percentile (pr_completion_hist p) (pr_samples p) (of_nat pct)) =
      (if rank = 0 then 100 else if 10100 \<le> completions ! (rank - 1) then 10200 else (completions ! (rank - 1) div 100 + 1) * 100)"
    using counted_percentile [OF hist(2) _ _ assms(3,4)]
    by (simp only: samples assms(1,2,7,8) completion_latency_def length_map length_greater_0_conv nat_bucket_edge simp_thms
        map_is_Nil_conv)
  assume "length cycles * pct + 99 < 2 ^ 32"
  then have "rank = (length cycles * pct + 99) div 100" by (simp add: assms(8))
  then show "rank = (LEAST k. length cycles * pct \<le> 100 * k)"
    by (intro Least_equality [symmetric]) linarith+
qed

text \<open>Four cycles, one across the wrap of the cycle counter and one past the last bucket, at one microsecond a cycle.\<close>

theorem percentile_nearest_rank_witness:
  "let p = probe_run unat [(0, 250, 10300), (-100, 450, 900), (7, 8, 9), (1000, 90000, 99000)] in
   unat (timing_percentile (pr_release_hist p) (pr_samples p) (of_nat 50)) = 300 \<and>
   unat (timing_percentile (pr_completion_hist p) (pr_samples p) (of_nat 99)) = 10200"
proof -
  let ?cycles = "[(0, 250, 10300), (-100, 450, 900), (7, 8, 9), (1000, 90000, 99000)] :: cycle list"
  let ?p = "probe_run unat ?cycles"
  have "unat (timing_percentile (pr_release_hist ?p) (pr_samples ?p) (of_nat 50)) = 300"
    using percentile_nearest_rank [of ?cycles 50 ?p unat, OF _ _ _ _ refl refl refl refl] by simp
  moreover have "unat (timing_percentile (pr_completion_hist ?p) (pr_samples ?p) (of_nat 99)) = 10200"
    using percentile_nearest_rank [of ?cycles 99 ?p unat, OF _ _ _ _ refl refl refl refl] by simp
  ultimately show ?thesis by (simp add: Let_def)
qed

text \<open>
  Property C24. While \<open>samples * 99 + 99\<close> does not wrap, the report of a reachable probe has ordered
  percentiles: the order check of the comparison tool passes every such report.
\<close>

theorem probe_report_ordered:
  assumes "recorded us_of n p" and "n * 99 + 99 < 2 ^ 32"
  shows "ordered_percentiles (timing_dict (timing_read p))"
proof -
  have "n < 2 ^ 32" using assms(2) by linarith
  note inv = recorded_invariant [OF assms(1) this]
  have "unat (timing_percentile h (pr_samples p) 50) \<le> unat (timing_percentile h (pr_samples p) 95)"
    "unat (timing_percentile h (pr_samples p) 95) \<le> unat (timing_percentile h (pr_samples p) 99)"
    if "length h = BUCKET_COUNT" for h
    using percentile_mono [OF that, of "pr_samples p" 95 50] percentile_mono [OF that, of "pr_samples p" 99 95]
      inv assms(2) by simp_all
  with inv show ?thesis
    unfolding ordered_percentiles_def tfield_dict timing_read_def Let_def timing_report.simps of_nat_le_iff
    by blast
qed

theorem probe_report_ordered_witness: "ordered_percentiles (timing_dict (timing_read (const_probe 1000)))"
  using probe_report_ordered [OF const_probe_recorded [of 1000]] by simp

text \<open>
  The bound is sharp: after 43383508 recorded cycles, five days at 10 ms, the rank of
  the 99th percentile wraps to 0, the report says \<open>p99 < p95\<close>, and the comparison tool refuses a
  log whose latency never changed.
\<close>

lemma probe_percentiles_wrap:
  "\<exists>p. recorded (\<lambda>_. 550) 43383508 p \<and> tr_release_p95 (timing_read p) = 600 \<and>
     tr_release_p99 (timing_read p) = 100 \<and> \<not> ordered_percentiles (timing_dict (timing_read p))"
proof -
  let ?p = "const_probe 43383508"
  have s: "pr_samples ?p = of_nat 43383508" by (simp add: const_probe_def)
  have "timing_percentile (pr_release_hist ?p) (of_nat 43383508) 95 = 600"
    "timing_percentile (pr_release_hist ?p) (of_nat 43383508) 99 = 100"
    by (subst const_probe_percentile; simp add: Let_def)+
  then have "tr_release_p95 (timing_read ?p) = 600" "tr_release_p99 (timing_read ?p) = 100"
    unfolding timing_read_def Let_def s by simp_all
  then show ?thesis
    by (intro exI [of _ ?p] conjI const_probe_recorded) (simp_all add: ordered_percentiles_def tfield_dict)
qed

end
