(* ===== verification/Source_Pins.thy ===== *)
theory Source_Pins
  imports Py_Json
begin

text \<open>
  \<open>src/verify_sources.py\<close>: the check that every checkout of a vcstool manifest is at its pinned
  commit. The loaded YAML document and the output of \<open>git\<close> are parameters. YAML mappings have string
  keys here, as vcstool manifests do.
\<close>

section \<open>The tool\<close>

text \<open>\<open>run path arguments\<close> is the output of \<open>git -C path arguments\<close>, or the exception.\<close>

type_synonym git_runner = "string \<Rightarrow> string list \<Rightarrow> string res"

definition git :: "git_runner \<Rightarrow> string \<Rightarrow> string list \<Rightarrow> string res" where
  "git runner path args = bindE (runner path args) (\<lambda>out. Inr (strip out))"

definition expected_is :: "json \<Rightarrow> string \<Rightarrow> bool" where
  "expected_is expected actual \<longleftrightarrow> expected = JStr actual"

text \<open>One repository: the line for standard error, if it is not at its commit.\<close>

definition check_repository :: "git_runner \<Rightarrow> string \<Rightarrow> string \<times> json \<Rightarrow> string option res" where
  "check_repository runner source_root repository =
     (let checkout = path_join source_root (fst repository) in
      bindE (subscript (snd repository) ''version'') (\<lambda>expected.
      case git runner checkout [''rev-parse'', ''HEAD''] of
        Inl (OSError _) \<Rightarrow> Inr (Some (''missing checkout: '' @ checkout))
      | Inl CalledProcessError \<Rightarrow> Inr (Some (''missing checkout: '' @ checkout))
      | Inl e \<Rightarrow> Inl e
      | Inr actual \<Rightarrow>
          Inr (if expected_is expected actual then None
               else Some (''revision mismatch: '' @ checkout @ '': expected '' @ str_json expected
                 @ '', found '' @ actual))))"

fun check_repositories ::
  "git_runner \<Rightarrow> string \<Rightarrow> (string \<times> json) list \<Rightarrow> string list \<times> bool res" where
  "check_repositories runner source_root [] = ([], Inr False)"
| "check_repositories runner source_root (repository # rest) =
     (case check_repository runner source_root repository of
        Inl e \<Rightarrow> ([], Inl e)
      | Inr None \<Rightarrow> check_repositories runner source_root rest
      | Inr (Some line) \<Rightarrow>
          (case check_repositories runner source_root rest of
             (lines, Inl e) \<Rightarrow> (line # lines, Inl e)
           | (lines, Inr _) \<Rightarrow> (line # lines, Inr True)))"

definition repositories_of :: "json \<Rightarrow> (string \<times> json) list res" where
  "repositories_of manifest =
     bindE (subscript manifest ''repositories'') (\<lambda>v.
     case v of JObj d \<Rightarrow> Inr d | _ \<Rightarrow> Inl AttributeError)"

text \<open>The lines on standard error and the exit status.\<close>

definition verify_sources :: "json res \<Rightarrow> git_runner \<Rightarrow> string \<Rightarrow> string list \<times> int res" where
  "verify_sources loaded runner source_root =
     (case bindE loaded repositories_of of
        Inl e \<Rightarrow> ([], Inl e)
      | Inr repositories \<Rightarrow>
          (case check_repositories runner source_root repositories of
             (lines, Inl e) \<Rightarrow> (lines, Inl e)
           | (lines, Inr failed) \<Rightarrow> (lines, Inr (if failed then 1 else 0))))"

section \<open>Pinned checkouts\<close>

definition pinned :: "git_runner \<Rightarrow> string \<Rightarrow> string \<times> json \<Rightarrow> bool" where
  "pinned runner source_root repository \<longleftrightarrow>
     (\<exists>d out. snd repository = JObj d \<and>
        runner (path_join source_root (fst repository)) [''rev-parse'', ''HEAD''] = Inr out \<and>
        map_of d ''version'' = Some (JStr (strip out)))"

definition has_version :: "string \<times> json \<Rightarrow> bool" where
  "has_version repository \<longleftrightarrow> (\<exists>d v. snd repository = JObj d \<and> map_of d ''version'' = Some v)"

definition git_fails_cleanly :: "git_runner \<Rightarrow> bool" where
  "git_fails_cleanly runner \<longleftrightarrow>
     (\<forall>path args e. runner path args = Inl e \<longrightarrow> e = CalledProcessError \<or> (\<exists>m. e = OSError m))"

lemma check_repository_pinned:
  assumes "has_version r" and "git_fails_cleanly runner"
  shows "\<exists>line. check_repository runner source_root r =
    Inr (if pinned runner source_root r then None else Some line)"
proof -
  let ?out = "runner (path_join source_root (fst r)) [''rev-parse'', ''HEAD'']"
  from assms(1) obtain d v where v: "snd r = JObj d" "map_of d ''version'' = Some v"
    by (auto simp: has_version_def)
  show ?thesis
  proof (cases ?out)
    case (Inl e)
    with assms(2) have "e = CalledProcessError \<or> (\<exists>m. e = OSError m)"
      unfolding git_fails_cleanly_def by blast
    with Inl v show ?thesis
      by (auto simp: check_repository_def git_def subscript_def getitem_def pinned_def Let_def)
  next
    case (Inr out)
    with v show ?thesis
      by (simp add: check_repository_def git_def subscript_def getitem_def pinned_def Let_def expected_is_def)
  qed
qed

lemma check_repositories_pinned:
  assumes "\<forall>r \<in> set rs. has_version r" and "git_fails_cleanly runner"
  shows "\<exists>lines. check_repositories runner source_root rs =
      (lines, Inr (\<exists>r \<in> set rs. \<not> pinned runner source_root r)) \<and>
    length lines = length (filter (\<lambda>r. \<not> pinned runner source_root r) rs)"
  using assms(1)
proof (induction rs)
  case (Cons r rs)
  then obtain lines where lines: "check_repositories runner source_root rs =
      (lines, Inr (\<exists>r \<in> set rs. \<not> pinned runner source_root r))"
    "length lines = length (filter (\<lambda>r. \<not> pinned runner source_root r) rs)" by auto
  from check_repository_pinned [of r runner source_root] Cons.prems assms(2) obtain line where
    "check_repository runner source_root r = Inr (if pinned runner source_root r then None else Some line)"
    by auto
  with lines show ?case by (cases "pinned runner source_root r") simp_all
qed simp

section \<open>Properties\<close>

text \<open>
  Property C25. On a manifest whose entries all have a version, and with a \<open>git\<close> that fails only the
  way a missing checkout does, the exit status is 0 exactly when every checkout is at its pinned
  commit, and standard error has one line for each that is not.
\<close>

theorem verify_sources_exit:
  assumes "repositories_of manifest = Inr rs" and "\<forall>r \<in> set rs. has_version r" and "git_fails_cleanly runner"
  shows "\<exists>lines. verify_sources (Inr manifest) runner source_root =
      (lines, Inr (if \<forall>r \<in> set rs. pinned runner source_root r then 0 else 1)) \<and>
    length lines = length (filter (\<lambda>r. \<not> pinned runner source_root r) rs)"
  using check_repositories_pinned [OF assms(2,3), of source_root] assms(1)
  by (auto simp: verify_sources_def)

definition example_manifest :: json where
  "example_manifest = JObj [(''repositories'', JObj
     [(''rcl'', JObj [(''version'', JStr ''abc1'')]), (''rmw'', JObj [(''version'', JStr ''abc2'')])])]"

definition example_git :: git_runner where
  "example_git path args =
     (if path = ''src/rcl'' then Inr (''abc1'' @ nl) else Inl CalledProcessError)"

theorem verify_sources_exit_witness:
  "\<exists>line. verify_sources (Inr example_manifest) example_git ''src'' = ([line], Inr 1)"
proof -
  let ?rs = "[(''rcl'', JObj [(''version'', JStr ''abc1'')]), (''rmw'', JObj [(''version'', JStr ''abc2'')])]"
  have rs: "repositories_of example_manifest = Inr ?rs"
    by (simp add: example_manifest_def repositories_of_def subscript_def getitem_def)
  have v: "\<forall>r \<in> set ?rs. has_version r" by (simp add: has_version_def)
  have g: "git_fails_cleanly example_git" by (simp add: git_fails_cleanly_def example_git_def)
  have p: "pinned example_git ''src'' (?rs ! 0)" "\<not> pinned example_git ''src'' (?rs ! 1)"
    by (simp_all add: pinned_def example_git_def path_join_def startswith_def endswith_def strip_def
        strip_by_def is_space_def in_range_def nl_def)
  from verify_sources_exit [OF rs v g, of "''src''"] p obtain lines where
    "verify_sources (Inr example_manifest) example_git ''src'' = (lines, Inr 1)" "length lines = 1" by auto
  then show ?thesis by (auto simp: length_Suc_conv)
qed

end
