(* ===== verification/C6_Inventory.thy ===== *)
theory C6_Inventory
  imports Resource_Report
begin

text \<open>
  \<open>src/tools/esp32c6_resources.py\<close>: the inventory of an ESP32-C6 image. The ELF library is a
  parameter: what it reads from a file is a list of sections and the symbol table, if there is one.
  The digest of the image is a parameter as well.
\<close>

section \<open>Inputs\<close>

record c6_section =
  cs_name :: string
  cs_flags :: nat
  cs_size :: nat
  cs_address :: nat
  cs_type :: string

record elf_symbol =
  sy_name :: string
  sy_value :: nat
  sy_size :: nat
  sy_type :: string

record elf_view =
  ev_sections :: "c6_section list"
  ev_symtab :: "elf_symbol list option"

record c6_world =
  c6_files :: rworld
  elf_open :: "8 word list \<Rightarrow> elf_view res"
  sha256 :: "8 word list \<Rightarrow> string"

definition read_text :: "rworld \<Rightarrow> string \<Rightarrow> string res" where
  "read_text w p =
     (case open_file w p of
        Inl err \<Rightarrow> Inl (OSError err)
      | Inr f \<Rightarrow> (case strict_text f of None \<Rightarrow> Inl UnicodeDecodeError | Some t \<Rightarrow> Inr t))"

definition read_bytes :: "rworld \<Rightarrow> string \<Rightarrow> 8 word list res" where
  "read_bytes w p = (case open_file w p of Inl err \<Rightarrow> Inl (OSError err) | Inr f \<Rightarrow> Inr (content f))"

definition CONFIG_SETTING :: rx where
  "CONFIG_SETTING =
     Seqs [Bol, Grp 1 (Seq (Lit ''CONFIG_'') (Plus (Set word_cls))), Lit ''='', Grp 2 (Star (Set any_cls)), Eol]"

definition config_dict :: "string \<Rightarrow> kconfig" where
  "config_dict t =
     foldl (\<lambda>d g. dict_set (group_of g 1) (group_of g 2) d) [] (findall True CONFIG_SETTING t)"

text \<open>The part of the map between two markers; a missing first marker is an \<open>IndexError\<close>.\<close>

definition memory_block :: "string \<Rightarrow> string res" where
  "memory_block map_text =
     (case split_once (''Memory Configuration'' @ nl) map_text of
        None \<Rightarrow> Inl IndexError
      | Some (_, rest) \<Rightarrow>
          Inr (case split_once ''Linker script'' rest of Some (block, _) \<Rightarrow> block | None \<Rightarrow> rest))"

definition HEX_WORD :: "nat \<Rightarrow> rx" where
  "HEX_WORD n = Grp n (Seq (Lit ''0x'') (Plus (Set word_cls)))"

definition C6_REGION :: rx where
  "C6_REGION =
     Seqs [Bol, Grp 1 (Alt (Lit ''sram0_0_seg'') (Lit ''lp_ram_seg'')), Spaces, HEX_WORD 2, Spaces, HEX_WORD 3]"

definition int16 :: "string \<Rightarrow> int res" where
  "int16 s = (case py_int 16 s of Some i \<Rightarrow> Inr i | None \<Rightarrow> Inl (ValueError ''invalid literal for int() with base 16''))"

definition int10 :: "string \<Rightarrow> int res" where
  "int10 s = (case py_int 10 s of Some i \<Rightarrow> Inr i | None \<Rightarrow> Inl (ValueError ''invalid literal for int() with base 10''))"

section \<open>The inventory\<close>

record c6_item =
  it_name :: string
  it_address :: int
  it_bytes :: int
  it_nobits :: bool

record c6_region =
  cr_origin :: int
  cr_capacity :: int
  cr_sections :: "c6_item list"

definition c6_regions :: "string \<Rightarrow> (string \<times> c6_region) list res" where
  "c6_regions memory =
     foldE (\<lambda>regions g.
       bindE (int16 (group_of g 2)) (\<lambda>origin.
       bindE (int16 (group_of g 3)) (\<lambda>len.
       Inr (dict_set (group_of g 1) \<lparr>cr_origin = origin, cr_capacity = len, cr_sections = []\<rparr> regions))))
       [] (findall True C6_REGION memory)"

definition c6_item_of :: "c6_section \<Rightarrow> c6_item" where
  "c6_item_of s =
     \<lparr>it_name = cs_name s, it_address = int (cs_address s), it_bytes = int (cs_size s),
      it_nobits = (cs_type s = ''SHT_NOBITS'')\<rparr>"

definition place_item :: "c6_item \<Rightarrow> string \<times> c6_region \<Rightarrow> (string \<times> c6_region) res" where
  "place_item item nr =
     (let r = snd nr; o' = cr_origin r; c = cr_capacity r in
      if o' \<le> it_address item \<and> it_address item < o' + c then
        if o' + c < it_address item + it_bytes item
        then Inl (ValueError ''Section crosses physical RAM boundary'')
        else Inr (fst nr, r\<lparr>cr_sections := cr_sections r @ [item]\<rparr>)
      else Inr nr)"

text \<open>\<open>int(sec.sh_flags) & 2\<close> and a size that is not 0.\<close>

definition counted :: "c6_section \<Rightarrow> bool" where
  "counted s \<longleftrightarrow> cs_flags s AND 2 \<noteq> 0 \<and> cs_size s \<noteq> 0"

definition place_sections ::
  "(string \<times> c6_region) list \<Rightarrow> c6_section list \<Rightarrow> (c6_item list \<times> (string \<times> c6_region) list) res" where
  "place_sections regions sections =
     foldE (\<lambda>(alloc, regions) s.
       if \<not> counted s then Inr (alloc, regions)
       else bindE (mapE (place_item (c6_item_of s)) regions) (\<lambda>regions'.
            Inr (alloc @ [c6_item_of s], regions'))) ([], regions) sections"

definition item_end :: "c6_item \<Rightarrow> int" where
  "item_end i = it_address i + it_bytes i"

definition linked_span :: "c6_region \<Rightarrow> int" where
  "linked_span r = max_default (cr_origin r) (map item_end (cr_sections r)) - cr_origin r"

definition section_bytes :: "c6_region \<Rightarrow> int" where
  "section_bytes r = sum_list (map it_bytes (cr_sections r))"

definition symbol_dict :: "(elf_symbol \<Rightarrow> 'v) \<Rightarrow> elf_symbol list \<Rightarrow> (string \<times> 'v) list" where
  "symbol_dict f syms = foldl (\<lambda>d s. dict_set (sy_name s) (f s) d) [] syms"

definition symtab :: "elf_view \<Rightarrow> elf_symbol list res" where
  "symtab v = (case ev_symtab v of None \<Rightarrow> Inl AttributeError | Some syms \<Rightarrow> Inr syms)"

record c6_tls =
  tdata_size :: "nat option"
  tbss_size :: "nat option"
  tdata_align :: "nat option"
  tbss_align :: "nat option"
  emulated_tls_present :: bool

definition tls_of :: "(string \<times> nat) list \<Rightarrow> c6_tls" where
  "tls_of syms_by =
     \<lparr>tdata_size = map_of syms_by ''__tdata_size'', tbss_size = map_of syms_by ''__tbss_size'',
      tdata_align = map_of syms_by ''__tdata_align'', tbss_align = map_of syms_by ''__tbss_align'',
      emulated_tls_present = list_ex (\<lambda>kv. startswith (fst kv) ''__emutls'') syms_by\<rparr>"

record c6_inventory =
  inv_board :: string
  inv_image_bytes :: int
  inv_image_sha256 :: string
  inv_regions :: "(string \<times> c6_region) list"
  inv_arena :: int
  inv_tail :: int
  inv_tls :: c6_tls
  inv_alloc :: "c6_item list"

definition linked_ram_span :: "c6_inventory \<Rightarrow> int" where
  "linked_ram_span iv = sum_list (map (linked_span \<circ> snd) (inv_regions iv))"

definition ram_committed :: "c6_inventory \<Rightarrow> int" where
  "ram_committed iv = linked_ram_span iv + inv_tail iv"

definition get_default :: "(string \<times> 'v) list \<Rightarrow> string \<Rightarrow> 'v \<Rightarrow> 'v" where
  "get_default d k v0 = (case map_of d k of Some v \<Rightarrow> v | None \<Rightarrow> v0)"

definition dynamic_tail :: "(string \<times> nat) list \<Rightarrow> int \<Rightarrow> int" where
  "dynamic_tail syms_by arena =
     (if arena = -1
      then max 0 (int (get_default syms_by ''_heap_sentry'' 0) - int (get_default syms_by ''_end'' 0))
      else 0)"

definition C6_REGION_NAMES :: "string list" where
  "C6_REGION_NAMES = [''sram0_0_seg'', ''lp_ram_seg'']"

definition inventory :: "c6_world \<Rightarrow> string \<Rightarrow> c6_inventory res" where
  "inventory w build =
     (let z = path_join build ''zephyr'' in
      bindE (read_text (c6_files w) (path_join z ''.config'')) (\<lambda>config_text.
      let config = config_dict config_text in
      if map_of config ''CONFIG_SOC_ESP32C6_HPCORE'' \<noteq> Some ''y'' then Inl (ValueError ''C6 HP-core only'') else
      bindE (read_text (c6_files w) (path_join z ''zephyr.map'')) (\<lambda>map_text.
      bindE (memory_block map_text) (\<lambda>memory.
      bindE (c6_regions memory) (\<lambda>regions0.
      if set (map fst regions0) \<noteq> set C6_REGION_NAMES
      then Inl (ValueError ''Unrecognized C6 linker regions'') else
      bindE (read_bytes (c6_files w) (path_join z ''zephyr.elf'')) (\<lambda>image.
      bindE (elf_open w image) (\<lambda>elf.
      bindE (symtab elf) (\<lambda>syms.
      let syms_by = symbol_dict sy_value syms in
      bindE (place_sections regions0 (ev_sections elf)) (\<lambda>(alloc, regions).
      bindE (int10 (get_default config ''CONFIG_COMMON_LIBC_MALLOC_ARENA_SIZE'' ''0'')) (\<lambda>arena.
      bindE (dict_item config ''CONFIG_BOARD_TARGET'') (\<lambda>board.
      bindE (read_bytes (c6_files w) (path_join z ''zephyr.bin'')) (\<lambda>bin.
      Inr \<lparr>inv_board = strip_dq board, inv_image_bytes = int (length bin), inv_image_sha256 = sha256 w bin,
           inv_regions = regions, inv_arena = arena, inv_tail = dynamic_tail syms_by arena,
           inv_tls = tls_of syms_by, inv_alloc = alloc\<rparr>))))))))))))"

section \<open>The report\<close>

definition item_json :: "c6_item \<Rightarrow> json" where
  "item_json i =
     JObj [(''name'', JStr (it_name i)), (''address'', JInt (it_address i)), (''bytes'', JInt (it_bytes i)),
           (''nobits'', JBool (it_nobits i))]"

definition c6_region_json :: "c6_region \<Rightarrow> json" where
  "c6_region_json r =
     JObj [(''origin'', JInt (cr_origin r)), (''capacity_bytes'', JInt (cr_capacity r)),
           (''sections'', JArr (map item_json (cr_sections r))), (''linked_span_bytes'', JInt (linked_span r)),
           (''section_bytes'', JInt (section_bytes r))]"

definition opt_nat_json :: "nat option \<Rightarrow> json" where
  "opt_nat_json v = opt_json (map_option int v)"

definition tls_json :: "c6_tls \<Rightarrow> json" where
  "tls_json t =
     JObj [(''__tdata_size'', opt_nat_json (tdata_size t)), (''__tbss_size'', opt_nat_json (tbss_size t)),
           (''__tdata_align'', opt_nat_json (tdata_align t)), (''__tbss_align'', opt_nat_json (tbss_align t)),
           (''emulated_tls_present'', JBool (emulated_tls_present t))]"

definition inventory_notes :: "string list" where
  "inventory_notes =
     [''RAM spans count alignment holes and .noinit; flash aliases are excluded.'',
      ''Stacks, static heaps and network pools already in these regions are counted once.'',
      ''TLS copies consume stack reservations; TLS template sections are not multiplied here.'',
      ''Image bytes are the actual zephyr.bin programmed by the simple-boot runner.'',
      ''No claim of minimum RAM or measured stack margin.'']"

definition inventory_json :: "c6_inventory \<Rightarrow> json" where
  "inventory_json iv =
     JObj [(''board'', JStr (inv_board iv)), (''image_bytes'', JInt (inv_image_bytes iv)),
           (''image_sha256'', JStr (inv_image_sha256 iv)),
           (''ram_regions'', JObj (map (apsnd c6_region_json) (inv_regions iv))),
           (''linked_ram_span_bytes'', JInt (linked_ram_span iv)),
           (''malloc_arena_config_bytes'', JInt (inv_arena iv)),
           (''additional_dynamic_tail_commitment_bytes'', JInt (inv_tail iv)),
           (''ram_committed_bytes'', JInt (ram_committed iv)),
           (''tls'', tls_json (inv_tls iv)),
           (''allocated_sections'', JArr (map item_json (inv_alloc iv))),
           (''observed_stack_margins'', JNull),
           (''qualification'', JStr ''inventory only; not a full candidate stack-budget admission''),
           (''notes'', JArr (map JStr inventory_notes))]"

definition inventory_main :: "c6_world \<Rightarrow> string \<Rightarrow> string res" where
  "inventory_main w build = bindE (inventory w build) (\<lambda>iv. Inr (dumps 0 (inventory_json iv) @ nl))"

section \<open>Accounting\<close>

definition lies_in :: "c6_region \<Rightarrow> c6_item \<Rightarrow> bool" where
  "lies_in r i \<longleftrightarrow> cr_origin r \<le> it_address i \<and> it_address i < cr_origin r + cr_capacity r"

definition crosses :: "c6_region \<Rightarrow> c6_item \<Rightarrow> bool" where
  "crosses r i \<longleftrightarrow> lies_in r i \<and> cr_origin r + cr_capacity r < item_end i"

definition add_items :: "c6_item list \<Rightarrow> c6_region \<Rightarrow> c6_region" where
  "add_items items r = r\<lparr>cr_sections := cr_sections r @ filter (lies_in r) items\<rparr>"

lemma add_items_simps [simp]:
  "cr_origin (add_items items r) = cr_origin r" "cr_capacity (add_items items r) = cr_capacity r"
  "lies_in (add_items items r) = lies_in r" "crosses (add_items items r) = crosses r"
  "add_items [] r = r" "add_items (xs @ ys) r = add_items ys (add_items xs r)"
  "cr_sections (add_items items r) = cr_sections r @ filter (lies_in r) items"
  by (simp_all add: add_items_def lies_in_def [abs_def] crosses_def [abs_def])

lemma place_item_eq:
  "place_item i nr = (if crosses (snd nr) i then Inl (ValueError ''Section crosses physical RAM boundary'')
     else Inr (apsnd (add_items [i]) nr))"
  by (cases nr) (auto simp: place_item_def Let_def crosses_def lies_in_def item_end_def add_items_def)

lemma place_items:
  "mapE (place_item i) regions = Inr regions' \<longleftrightarrow>
     (\<forall>nr \<in> set regions. \<not> crosses (snd nr) i) \<and> regions' = map (apsnd (add_items [i])) regions"
  unfolding mapE_eq_Inr place_item_eq
  by (induction regions arbitrary: regions') (auto simp: list_all2_Cons1 split: if_splits)

lemma place_sections_acc:
  "foldE (\<lambda>(alloc, regions) s.
       if \<not> counted s then Inr (alloc, regions)
       else bindE (mapE (place_item (c6_item_of s)) regions) (\<lambda>regions'.
            Inr (alloc @ [c6_item_of s], regions'))) (acc, regions) sections = Inr out \<longleftrightarrow>
   (\<forall>nr \<in> set regions. \<forall>s \<in> set sections. counted s \<longrightarrow> \<not> crosses (snd nr) (c6_item_of s)) \<and>
   out = (acc @ map c6_item_of (filter counted sections),
          map (apsnd (add_items (map c6_item_of (filter counted sections)))) regions)"
proof (induction sections arbitrary: acc regions)
  case Nil
  have "map (apsnd (\<lambda>a. a)) regions = regions" by (induction regions) auto
  then show ?case by auto
next
  case (Cons s sections)
  show ?case
  proof (cases "counted s")
    case True
    have twice: "apsnd (add_items xs) \<circ> apsnd (add_items [i]) = apsnd (add_items (i # xs))" for i xs
      using add_items_simps(6) [of "[i]" xs] by (intro ext) auto
    have "(\<forall>nr \<in> set (map (apsnd (add_items [i])) regions). P (crosses (snd nr))) \<longleftrightarrow>
        (\<forall>nr \<in> set regions. P (crosses (snd nr)))" for i P
      by auto
    with True Cons [of "acc @ [c6_item_of s]"] show ?thesis
      by (simp add: bindE_eq_Inr place_items twice) blast
  qed (use Cons in simp)
qed

lemma place_sections_eq_Inr:
  "place_sections regions sections = Inr (items, regions') \<longleftrightarrow>
   (\<forall>nr \<in> set regions. \<forall>s \<in> set sections. counted s \<longrightarrow> \<not> crosses (snd nr) (c6_item_of s)) \<and>
   items = map c6_item_of (filter counted sections) \<and> regions' = map (apsnd (add_items items)) regions"
  unfolding place_sections_def place_sections_acc by auto

text \<open>The regions that the map describes have no sections yet.\<close>

lemma c6_regions_empty:
  assumes "c6_regions memory = Inr regions" and "nr \<in> set regions"
  shows "cr_sections (snd nr) = []"
proof -
  have set: "\<forall>nr \<in> set (dict_set k r d). snd nr = r \<or> nr \<in> set d" for k and r :: c6_region and d
    by (induction d) (auto split: if_splits)
  have "\<forall>nr \<in> set regions. cr_sections (snd nr) = []"
    using assms(1) unfolding c6_regions_def
    by (rule foldE_invariant [where P = "\<lambda>d. \<forall>nr \<in> set d. cr_sections (snd nr) = []"])
       (use set in \<open>fastforce simp: bindE_eq_Inr\<close>)+
  with assms(2) show ?thesis by blast
qed

lemma inventory_parts:
  assumes "inventory w build = Inr iv"
  obtains image elf regions0 where "elf_open w image = Inr elf"
    "place_sections regions0 (ev_sections elf) = Inr (inv_alloc iv, inv_regions iv)"
    "\<forall>nr \<in> set regions0. cr_sections (snd nr) = []"
    "\<exists>syms. inv_tail iv = dynamic_tail syms (inv_arena iv)"
proof -
  from assms obtain memory regions0 image elf syms out arena board bin where
    "c6_regions memory = Inr regions0" "elf_open w image = Inr elf"
    and p: "place_sections regions0 (ev_sections elf) = Inr out"
    and iv: "iv = \<lparr>inv_board = strip_dq board, inv_image_bytes = int (length bin), inv_image_sha256 = sha256 w bin,
           inv_regions = snd out, inv_arena = arena, inv_tail = dynamic_tail syms arena,
           inv_tls = tls_of syms, inv_alloc = fst out\<rparr>"
    unfolding inventory_def Let_def if_raise_eq_Inr bindE_eq_Inr sum.inject case_prod_beta
    by (elim exE conjE) (rule that, assumption, assumption, assumption, rule sym)
  with c6_regions_empty show ?thesis by (intro that [of image elf regions0]) auto
qed

text \<open>The sections of a region are the allocated ones whose address lies in it; none crosses its end.\<close>

lemma inventory_region:
  assumes "inventory w build = Inr iv" and "(n, r) \<in> set (inv_regions iv)"
  shows "cr_sections r = filter (lies_in r) (inv_alloc iv) \<and>
    (\<forall>i \<in> set (cr_sections r). item_end i \<le> cr_origin r + cr_capacity r \<and> 0 \<le> it_bytes i \<and> lies_in r i)"
proof -
  obtain image elf regions0 where "elf_open w image = Inr elf"
    and p: "place_sections regions0 (ev_sections elf) = Inr (inv_alloc iv, inv_regions iv)"
      "\<forall>nr \<in> set regions0. cr_sections (snd nr) = []"
    and "\<exists>syms. inv_tail iv = dynamic_tail syms (inv_arena iv)"
    by (rule inventory_parts [OF assms(1)])
  note parts = p(1) [unfolded place_sections_eq_Inr]
  note no = parts [THEN conjunct1] and items = parts [THEN conjunct2, THEN conjunct1]
    and regions = parts [THEN conjunct2, THEN conjunct2]
  from assms(2) obtain r0 where r: "(n, r0) \<in> set regions0" "r = add_items (inv_alloc iv) r0"
    by (subst (asm) regions) auto
  have s: "cr_sections r = filter (lies_in r) (inv_alloc iv)" using p(2) r by force
  have "\<not> crosses r i \<and> 0 \<le> it_bytes i" if i: "i \<in> set (inv_alloc iv)" for i
  proof -
    from i obtain c where "c \<in> set (ev_sections elf)" "counted c" "i = c6_item_of c"
      by (subst (asm) items) auto
    with no r show ?thesis by (auto simp: c6_item_of_def)
  qed
  with s show ?thesis by (auto simp: crosses_def not_less)
qed

definition apart :: "c6_item \<Rightarrow> c6_item \<Rightarrow> bool" where
  "apart i j \<longleftrightarrow> item_end i \<le> it_address j \<or> item_end j \<le> it_address i"

lemma apart_bytes:
  assumes "sorted_wrt apart is" and "\<forall>i \<in> set is. lo \<le> it_address i \<and> item_end i \<le> hi \<and> 0 \<le> it_bytes i"
    and "lo \<le> hi"
  shows "sum_list (map it_bytes is) \<le> hi - lo"
proof -
  let ?ivl = "\<lambda>i. {it_address i..<item_end i}"
  have "int (card (\<Union> (?ivl ` set is))) = sum_list (map it_bytes is)"
    using assms(1,2)
  proof (induction "is")
    case (Cons i "is")
    have "?ivl i \<inter> \<Union> (?ivl ` set is) = {}"
      using Cons.prems(1) by (fastforce simp: apart_def)
    then have "card (\<Union> (?ivl ` set (i # is))) = card (?ivl i) + card (\<Union> (?ivl ` set is))"
      by (simp add: card_Un_disjoint)
    moreover have "int (card (?ivl i)) = it_bytes i" using Cons.prems(2) by (simp add: item_end_def)
    ultimately show ?case using Cons by simp
  qed simp
  moreover have "\<Union> (?ivl ` set is) \<subseteq> {lo..<hi}" using assms(2) by fastforce
  then have "card (\<Union> (?ivl ` set is)) \<le> card {lo..<hi}" by (intro card_mono) auto
  ultimately show ?thesis using assms(3) by simp
qed

lemma linked_span_facts:
  assumes "inventory w build = Inr iv" and "(n, r) \<in> set (inv_regions iv)"
  shows "0 \<le> linked_span r" "linked_span r \<le> max 0 (cr_capacity r)"
    "i \<in> set (cr_sections r) \<Longrightarrow> item_end i \<le> cr_origin r + linked_span r"
proof -
  note r = inventory_region [OF assms, THEN conjunct2]
  let ?ends = "map item_end (cr_sections r)"
  show upper: "i \<in> set (cr_sections r) \<Longrightarrow> item_end i \<le> cr_origin r + linked_span r" for i
    using max_default_upper [of "item_end i" ?ends "cr_origin r"] by (simp add: linked_span_def)
  have "linked_span r = 0 \<or> (\<exists>i \<in> set (cr_sections r). linked_span r = item_end i - cr_origin r)"
    using max_default_mem [of "cr_origin r" ?ends] unfolding linked_span_def by auto
  then show "0 \<le> linked_span r" "linked_span r \<le> max 0 (cr_capacity r)"
    using r by (fastforce simp: lies_in_def item_end_def)+
qed

text \<open>The sections of the reader of \<open>verify_resources.py\<close> as the ELF library shows them.\<close>

definition c6_view :: "elf_section \<Rightarrow> c6_section" where
  "c6_view s =
     \<lparr>cs_name = sec_name s, cs_flags = sec_flags s, cs_size = sec_size s, cs_address = sec_address s,
      cs_type = (if sec_type s = 8 then ''SHT_NOBITS'' else ''SHT_PROGBITS'')\<rparr>"

section \<open>An image\<close>

text \<open>A small image: one zero-initialised section in the main RAM and code in flash.\<close>

definition example_sections :: "elf_section list" where
  "example_sections =
     [\<lparr>sec_name = ''.text'', sec_address = 4096, sec_size = 64, sec_type = 1, sec_flags = 6\<rparr>,
      \<lparr>sec_name = ''.bss'', sec_address = 68, sec_size = 8, sec_type = 8, sec_flags = 3\<rparr>]"

definition example_c6_config :: string where
  "example_c6_config = ''CONFIG_SOC_ESP32C6_HPCORE=y'' @ nl @ ''CONFIG_BOARD_TARGET=x'' @ nl"

definition example_memory :: string where
  "example_memory = ''sram0_0_seg 0x40 0x20'' @ nl @ ''lp_ram_seg 0x80 0x10'' @ nl"

definition example_c6_map :: string where
  "example_c6_map = ''Memory Configuration'' @ nl @ example_memory @ ''Linker script''"

definition example_offsets :: string where
  "example_offsets = ''#define __struct_arch_esf_SIZEOF 0x50'' @ nl"

definition example_symbols :: "elf_symbol list" where
  "example_symbols = [\<lparr>sy_name = ''z_main_stack'', sy_value = 68, sy_size = 8192, sy_type = ''STT_OBJECT''\<rparr>]"

definition example_c6 :: c6_world where
  "example_c6 =
     \<lparr>c6_files = (\<lambda>p. if p = ''b/zephyr/.config'' then Regular (text_file example_c6_config)
        else if p = ''b/zephyr/zephyr.map'' then Regular (text_file example_c6_map)
        else if p = ''b/zephyr/include/generated/zephyr/offsets.h'' then Regular (text_file example_offsets)
        else Regular (text_file [])),
      elf_open = (\<lambda>_. Inr \<lparr>ev_sections = map c6_view example_sections, ev_symtab = Some example_symbols\<rparr>),
      sha256 = (\<lambda>_. [])\<rparr>"

definition example_region :: c6_region where
  "example_region = \<lparr>cr_origin = 64, cr_capacity = 32, cr_sections =
     [\<lparr>it_name = ''.bss'', it_address = 68, it_bytes = 8, it_nobits = True\<rparr>]\<rparr>"

definition example_inv :: c6_inventory where
  "example_inv =
     \<lparr>inv_board = ''x'', inv_image_bytes = 0, inv_image_sha256 = [],
      inv_regions = [(''sram0_0_seg'', example_region),
        (''lp_ram_seg'', \<lparr>cr_origin = 128, cr_capacity = 16, cr_sections = []\<rparr>)],
      inv_arena = 0, inv_tail = 0,
      inv_tls = \<lparr>tdata_size = None, tbss_size = None, tdata_align = None, tbss_align = None,
        emulated_tls_present = False\<rparr>,
      inv_alloc = [\<lparr>it_name = ''.text'', it_address = 4096, it_bytes = 64, it_nobits = False\<rparr>,
        \<lparr>it_name = ''.bss'', it_address = 68, it_bytes = 8, it_nobits = True\<rparr>]\<rparr>"

lemma example_config_dict:
  "config_dict example_c6_config = [(''CONFIG_SOC_ESP32C6_HPCORE'', ''y''), (''CONFIG_BOARD_TARGET'', ''x'')]"
  by (simp add: config_dict_def example_c6_config_def findall_def CONFIG_SETTING_def findall_from.simps
      nl_def Plus_def startswith_def in_cls_def word_cls_def any_cls_def at_bol_def at_eol_def group_of_def)

lemma int16_examples:
  "int16 ''0x40'' = Inr 64" "int16 ''0x20'' = Inr 32" "int16 ''0x80'' = Inr 128" "int16 ''0x10'' = Inr 16"
  "int10 ''0'' = Inr 0"
  by (simp_all add: int16_def int10_def py_int_def strip_def strip_by_def is_space_def in_range_def
      unsigned_val_def has_prefix_def after_prefix_def digit_val_def)

lemma example_regions:
  "memory_block example_c6_map = Inr example_memory"
  "c6_regions example_memory =
     Inr [(''sram0_0_seg'', \<lparr>cr_origin = 64, cr_capacity = 32, cr_sections = []\<rparr>),
          (''lp_ram_seg'', \<lparr>cr_origin = 128, cr_capacity = 16, cr_sections = []\<rparr>)]"
  by (simp_all add: memory_block_def example_c6_map_def example_memory_def startswith_def nl_def c6_regions_def findall_def
      C6_REGION_def HEX_WORD_def Spaces_def findall_from.simps Plus_def in_cls_def word_cls_def
      space_cls_def at_bol_def group_of_def int16_examples)

lemma example_placed:
  "place_sections
     [(''sram0_0_seg'', \<lparr>cr_origin = 64, cr_capacity = 32, cr_sections = []\<rparr>),
      (''lp_ram_seg'', \<lparr>cr_origin = 128, cr_capacity = 16, cr_sections = []\<rparr>)]
     (map c6_view example_sections) = Inr (inv_alloc example_inv, inv_regions example_inv)"
  by (simp add: place_sections_def example_sections_def c6_view_def counted_def place_item_def Let_def
      c6_item_of_def example_inv_def example_region_def)

lemma example_inventory: "inventory example_c6 ''b'' = Inr example_inv"
proof -
  have "path_join (path_join ''b'' ''zephyr'') f = ''b/zephyr/'' @ f" if "\<not> startswith f ''/''" for f
    using that by (simp add: path_join_def startswith_def endswith_def)
  then have "path_join (path_join ''b'' ''zephyr'') ''.config'' = ''b/zephyr/.config''"
    "path_join (path_join ''b'' ''zephyr'') ''zephyr.map'' = ''b/zephyr/zephyr.map''"
    "path_join (path_join ''b'' ''zephyr'') ''zephyr.elf'' = ''b/zephyr/zephyr.elf''"
    "path_join (path_join ''b'' ''zephyr'') ''zephyr.bin'' = ''b/zephyr/zephyr.bin''"
    by (simp_all add: startswith_def)
  then show ?thesis
    by (simp add: inventory_def Let_def example_c6_def read_text_def read_bytes_def open_file_def text_file_def
        example_config_dict example_regions example_placed symtab_def C6_REGION_NAMES_def get_default_def
        int16_examples dynamic_tail_def tls_of_def symbol_dict_def example_symbols_def startswith_def strip_dq_def
        strip_by_def)
       (simp add: example_inv_def)
qed

section \<open>Properties\<close>

text \<open>
  Property C26. In every inventory that is produced, the span of a RAM region lies within the region
  and covers every allocated section placed in it; when the sections of the region do not overlap,
  the bytes of the sections fit the span, the rest being alignment holes. Nothing is added for the
  heap unless the malloc arena is the rest of the RAM.
\<close>

theorem inventory_accounts:
  assumes "inventory w build = Inr iv" and "(n, r) \<in> set (inv_regions iv)"
  shows "0 \<le> linked_span r \<and> linked_span r \<le> max 0 (cr_capacity r) \<and>
    (\<forall>i \<in> set (inv_alloc iv). lies_in r i \<longrightarrow> item_end i \<le> cr_origin r + linked_span r) \<and>
    (sorted_wrt apart (cr_sections r) \<longrightarrow> section_bytes r \<le> linked_span r) \<and>
    linked_ram_span iv \<le> ram_committed iv \<and> (inv_arena iv \<noteq> -1 \<longrightarrow> ram_committed iv = linked_ram_span iv)"
proof -
  note r = inventory_region [OF assms] and facts = linked_span_facts [OF assms]
  have "section_bytes r \<le> cr_origin r + linked_span r - cr_origin r" if "sorted_wrt apart (cr_sections r)"
    unfolding section_bytes_def
    by (rule apart_bytes [OF that]) (use r [THEN conjunct2] facts in \<open>simp_all add: lies_in_def\<close>)
  moreover have "\<forall>i \<in> set (inv_alloc iv). lies_in r i \<longrightarrow> item_end i \<le> cr_origin r + linked_span r"
    using r [THEN conjunct1] facts(3) by simp
  moreover obtain syms where "inv_tail iv = dynamic_tail syms (inv_arena iv)"
    by (rule inventory_parts [OF assms(1)]) blast
  then have "0 \<le> inv_tail iv" "inv_arena iv \<noteq> -1 \<Longrightarrow> inv_tail iv = 0" by (simp_all add: dynamic_tail_def)
  ultimately show ?thesis using facts(1,2) by (simp add: ram_committed_def)
qed

theorem inventory_accounts_witness:
  "\<exists>iv. inventory example_c6 ''b'' = Inr iv \<and> ram_committed iv = 12 \<and>
     (\<forall>r. (''sram0_0_seg'', r) \<in> set (inv_regions iv) \<longrightarrow> section_bytes r \<le> linked_span r)"
proof -
  have r: "(''sram0_0_seg'', example_region) \<in> set (inv_regions example_inv)"
    by (simp add: example_inv_def)
  have "sorted_wrt apart (cr_sections example_region)" by (simp add: example_region_def)
  with inventory_accounts [OF example_inventory r] show ?thesis
    by (intro exI [of _ example_inv]) (simp add: example_inventory, simp add: example_inv_def ram_committed_def
        linked_ram_span_def linked_span_def max_default_def example_region_def item_end_def)
qed

text \<open>
  The inventory and \<open>verify_resources.py\<close> agree on the RAM of an ESP32-C6 image: with
  the same sections and regions, and no empty allocated section, the linked span of a region is the
  span that the post-link report counts.
\<close>

lemma inventory_span_agrees:
  assumes "inventory w build = Inr iv" and "(n, r) \<in> set (inv_regions iv)"
    and "\<forall>image elf. elf_open w image = Inr elf \<longrightarrow> ev_sections elf = map c6_view sections"
    and "\<forall>s \<in> set sections. alloc s \<longrightarrow> sec_size s \<noteq> 0"
  shows "linked_span r = region_span sections \<lparr>reg_origin = cr_origin r, reg_length = cr_capacity r\<rparr>"
proof -
  obtain image elf regions0 where "elf_open w image = Inr elf"
    "place_sections regions0 (ev_sections elf) = Inr (inv_alloc iv, inv_regions iv)"
    "\<forall>nr \<in> set regions0. cr_sections (snd nr) = []"
    "\<exists>syms. inv_tail iv = dynamic_tail syms (inv_arena iv)"
    by (rule inventory_parts [OF assms(1)])
  with assms(3) have items: "inv_alloc iv = map c6_item_of (filter counted (map c6_view sections))"
    by (auto simp: place_sections_eq_Inr)
  have "counted (c6_view s) \<longleftrightarrow> alloc s" if "s \<in> set sections" for s
    using that assms(4) by (auto simp: counted_def c6_view_def alloc_def)
  then have "filter counted (map c6_view sections) = map c6_view (filter alloc sections)"
    by (simp add: filter_map comp_def cong: filter_cong)
  with items have "inv_alloc iv = map (c6_item_of \<circ> c6_view) (filter alloc sections)" by simp
  moreover have "it_address (c6_item_of (c6_view s)) = int (sec_address s)"
    "item_end (c6_item_of (c6_view s)) = section_end s" for s
    by (simp_all add: c6_item_of_def c6_view_def item_end_def section_end_def)
  ultimately have "map item_end (cr_sections r) = map section_end (filter (\<lambda>s. alloc s \<and>
      cr_origin r \<le> int (sec_address s) \<and> int (sec_address s) < cr_origin r + cr_capacity r) sections)"
    using inventory_region [OF assms(1,2)]
    by (simp add: filter_map comp_def lies_in_def conj_commute conj_left_commute)
  then show ?thesis by (simp add: linked_span_def region_span_def)
qed

end
