(* ===== verification/C6_Admission.thy ===== *)
theory C6_Admission
  imports C6_Inventory Resource_Tool
begin

text \<open>
  \<open>src/tools/admit_esp32c6.py\<close>: \<open>stack_budget\<close>, \<open>admit\<close> and the script's end. The disassembly that
  \<open>objdump\<close> prints and the run of \<open>verify_resources.py\<close> in a process of its own are parameters of the
  world, next to those of the inventory.
\<close>

section \<open>Stack budgets\<close>

record budget_row =
  sb_backing :: int
  sb_tls_upper :: int
  sb_other_upper :: int
  sb_execution :: int
  sb_margin :: int
  sb_required :: int
  sb_remaining :: int
  sb_status :: string

definition stack_budget :: "int \<Rightarrow> int \<Rightarrow> int \<Rightarrow> int \<Rightarrow> int \<Rightarrow> int \<Rightarrow> bool \<Rightarrow> budget_row res" where
  "stack_budget backing execution tls_size tls_alignment overhead margin isr =
     (if Min (set [backing, execution, tls_size, overhead, margin]) < 0 \<or> tls_alignment < 1
      then Inl (ValueError ''Invalid stack budget'')
      else
      let reserve = (if isr then 0 else tls_size + tls_alignment - 1);
          required = reserve + overhead + execution + margin
      in Inr \<lparr>sb_backing = backing, sb_tls_upper = reserve, sb_other_upper = overhead,
              sb_execution = execution, sb_margin = margin, sb_required = required,
              sb_remaining = backing - required,
              sb_status = (if required \<le> backing then ''PASS'' else ''FAIL'')\<rparr>)"

record thread_row = budget_row +
  tr_thread :: string
  tr_source :: string

section \<open>Reviewed threads\<close>

definition STATIC :: "(string \<times> string \<times> int) list" where
  "STATIC =
     [(''z_main_stack'', ''main'', 6144), (''z_idle_stacks'', ''idle'', 512),
      (''sys_work_q_stack'', ''system workqueue'', 3072), (''logging_stack'', ''logger'', 1024),
      (''mgmt_stack'', ''network management'', 1408), (''rx_stack'', ''network RX'', 1408),
      (''work_q_stack'', ''TCP workqueue'', 1408), (''timer_task_stack'', ''ESP timer'', 3072),
      (''z_interrupt_stacks'', ''ISR (no TLS)'', 1536)]"

definition BASE_CALLERS :: "string list" where
  "BASE_CALLERS =
     [''bg_thread_main'', ''z_init_cpu'', ''z_cstart'', ''z_impl_k_thread_create'', ''k_work_queue_start'',
      ''k_sys_work_q_init'', ''enable_logger'', ''esp_timer_init'', ''task_create_wrapper'',
      ''task_create_pinned_to_core_wrapper'', ''net_mgmt_event_init'', ''net_tc_rx_init'', ''net_tcp_init'']"

definition THREAD_CREATORS :: "string list" where
  "THREAD_CREATORS =
     [''z_impl_k_thread_create'', ''k_work_queue_start'', ''z_setup_new_thread'', ''pthread_create'']"

section \<open>What admission reads\<close>

record admit_world = c6_world +
  run_objdump :: "string \<Rightarrow> string \<Rightarrow> string res"
  text_fails :: "string \<Rightarrow> string option"
  verify_process :: "resource_args \<Rightarrow> reffect list \<times> int \<times> string"

type_synonym symbol_info = "nat \<times> nat \<times> string"

record prepared =
  ap_inventory :: c6_inventory
  ap_image :: "8 word list"
  ap_config :: kconfig
  ap_symbols :: "(string \<times> symbol_info) list"
  ap_tls :: int
  ap_align :: int
  ap_other :: int
  ap_rows :: "thread_row list"

definition nat_or :: "nat option \<Rightarrow> int \<Rightarrow> int" where
  "nat_or v d = (case v of None \<Rightarrow> d | Some n \<Rightarrow> if n = 0 then d else int n)"

definition ESF_SIZE :: rx where
  "ESF_SIZE =
     Seq (Lit ''#define __struct_arch_esf_SIZEOF '')
       (Grp 1 (Seq (Lit ''0x'') (Plus (Set (Cls False [(48, 57), (97, 102)])))))"

definition esf_size :: "string \<Rightarrow> int res" where
  "esf_size offsets =
     (case rx_search False ESF_SIZE offsets of None \<Rightarrow> Inl TypeError | Some g \<Rightarrow> int16 (group_of g 1))"

definition enabled :: "kconfig \<Rightarrow> string \<Rightarrow> bool" where
  "enabled cfg key \<longleftrightarrow> map_of cfg key = Some ''y''"

definition a_profile :: "kconfig \<Rightarrow> bool" where
  "a_profile cfg = enabled cfg ''CONFIG_ROS2_ZEPHYR_RMW_CYCLONEDDS_C''"

definition c_profile :: "kconfig \<Rightarrow> bool" where
  "c_profile cfg = enabled cfg ''CONFIG_NROS_C_API''"

text \<open>The local function \<open>add\<close>: a row of the table.\<close>

definition thread_row_of ::
  "prepared \<Rightarrow> string \<Rightarrow> int \<Rightarrow> int \<Rightarrow> string \<Rightarrow> bool \<Rightarrow> thread_row res" where
  "thread_row_of p name backing execution source isr =
     bindE (stack_budget backing execution (ap_tls p) (ap_align p) (ap_other p) 256 isr) (\<lambda>b.
     Inr (budget_row.extend b \<lparr>tr_thread = name, tr_source = source\<rparr>))"

definition symbol_bytes :: "(string \<times> symbol_info) list \<Rightarrow> string \<Rightarrow> int" where
  "symbol_bytes syms name = (case map_of syms name of None \<Rightarrow> 0 | Some (_, n, _) \<Rightarrow> int n)"

definition static_execution :: "kconfig \<Rightarrow> int \<Rightarrow> string \<Rightarrow> int \<Rightarrow> int" where
  "static_execution cfg main_execution_bytes symbol budget =
     (if symbol = ''z_main_stack''
      then if c_profile cfg then 12288 else if a_profile cfg then main_execution_bytes else budget
      else budget)"

definition static_rows :: "prepared \<Rightarrow> int \<Rightarrow> thread_row list res" where
  "static_rows p main_execution_bytes =
     mapE (\<lambda>(symbol, name, budget).
       thread_row_of p name (symbol_bytes (ap_symbols p) symbol)
         (static_execution (ap_config p) main_execution_bytes symbol budget) (''ELF:'' @ symbol)
         (symbol = ''z_interrupt_stacks''))
       (filter (\<lambda>e. map_of (ap_symbols p) (fst e) \<noteq> None) STATIC)"

definition prepare :: "admit_world \<Rightarrow> string \<Rightarrow> int \<Rightarrow> prepared res" where
  "prepare w build main_execution_bytes =
     bindE (inventory (c6_world.truncate w) build) (\<lambda>iv.
     bindE (read_text (c6_files w) (path_join build ''zephyr/.config'')) (\<lambda>config_text.
     bindE (read_bytes (c6_files w) (path_join build ''zephyr/zephyr.elf'')) (\<lambda>image.
     bindE (elf_open w image) (\<lambda>elf.
     bindE (symtab elf) (\<lambda>syms.
     bindE (read_text (c6_files w) (path_join build ''zephyr/include/generated/zephyr/offsets.h'')) (\<lambda>offsets.
     bindE (esf_size offsets) (\<lambda>esf.
     let cfg = config_dict config_text; tls = inv_tls iv;
         p = \<lparr>ap_inventory = iv, ap_image = image, ap_config = cfg,
              ap_symbols = symbol_dict (\<lambda>s. (sy_value s, sy_size s, sy_type s)) syms,
              ap_tls = nat_or (tdata_size tls) 0 + nat_or (tbss_size tls) 0,
              ap_align = max (nat_or (tdata_align tls) 1) (nat_or (tbss_align tls) 1),
              ap_other = esf + 15 + (if enabled cfg ''CONFIG_STACK_SENTINEL'' then 4 else 0),
              ap_rows = []\<rparr>
     in bindE (static_rows p main_execution_bytes) (\<lambda>rows. Inr (p\<lparr>ap_rows := rows\<rparr>)))))))))"

section \<open>The disassembly\<close>

definition BODY_OF :: "string \<Rightarrow> rx" where
  "BODY_OF name =
     Seqs [Lit (''<'' @ name @ ''>:'' @ nl), Grp 1 (Lazy (Set dotall_cls)), Ahead (Lit (nl @ nl))]"

definition body_of :: "string \<Rightarrow> string \<Rightarrow> string option" where
  "body_of name dis = map_option (\<lambda>g. group_of g 1) (rx_search False (BODY_OF name) dis)"

definition vendor_known :: "string \<Rightarrow> bool" where
  "vendor_known dis =
     (case body_of ''config_get_wifi_task_stack_size'' dis of
        None \<Rightarrow> False
      | Some body \<Rightarrow> list_all (\<lambda>t. contains t body) [''0x2'', ''-2048'', ''-1024'', ''512''])"

definition vendor_wrapped :: "prepared \<Rightarrow> bool" where
  "vendor_wrapped p \<longleftrightarrow> map_of (ap_symbols p) ''__wrap_config_get_wifi_task_stack_size'' \<noteq> None"

text \<open>The rows and the failures that the vendor's stack adds.\<close>

definition vendor_check :: "prepared \<Rightarrow> string \<Rightarrow> (thread_row list \<times> string list) res" where
  "vendor_check p dis =
     (if \<not> vendor_known dis then Inr ([], [''Unknown vendor Wi-Fi stack argument''])
      else if a_profile (ap_config p) then
        let called = (case body_of ''pp_create_task'' dis of
                        None \<Rightarrow> False
                      | Some body \<Rightarrow> contains ''<__wrap_config_get_wifi_task_stack_size>'' body);
            reserve = ap_tls p + ap_align p - 1;
            backing = (if vendor_wrapped p then ((3072 + reserve + 99 + 256 + 15) div 16) * 16 else 3072)
        in bindE (thread_row_of p ''vendor Wi-Fi minimum (A explicit provider)'' backing 3072
             ''A vendor_stack.c and linked pp_create_task call'' False) (\<lambda>row.
           Inr ([row], if \<not> vendor_wrapped p \<or> \<not> called
             then [''A vendor provider wrapper missing from actual pp_create_task call''] else []))
      else
        bindE (thread_row_of p ''vendor Wi-Fi (minimum of 3072/3584/6144/6656)'' 3072 2048
          (''config_get_wifi_task_stack_size -> pp_create_task -> OS adapter -> ''
            @ ''k_thread_stack_alloc (system heap)'') False) (\<lambda>row.
        Inr ([row], [])))"

definition FUNCTION_LINE :: rx where
  "FUNCTION_LINE =
     Seqs [Bol, Plus (Set (Cls False [(48, 57), (97, 102)])), Lit '' <'', Grp 1 (Plus (Set any_cls)), Lit ''>:'']"

definition caller_line :: "string \<times> string list \<Rightarrow> string \<Rightarrow> string \<times> string list" where
  "caller_line st line =
     (case rx_match FUNCTION_LINE line of
        Some g \<Rightarrow> (group_of g 1, snd st)
      | None \<Rightarrow>
          if list_ex (\<lambda>x. contains (''<'' @ x @ ''>'') line) THREAD_CREATORS
          then (fst st, fst st # snd st) else st)"

definition callers_of :: "string \<Rightarrow> string list" where
  "callers_of dis = snd (foldl caller_line ([], []) (splitlines dis))"

section \<open>The checks\<close>

definition pool_rows :: "prepared \<Rightarrow> string \<Rightarrow> int \<Rightarrow> int \<Rightarrow> int \<Rightarrow> string \<Rightarrow> thread_row list res" where
  "pool_rows p name slots each execution source =
     mapE (\<lambda>i. thread_row_of p (name @ show_int (int i)) each execution source False) [0..<nat slots]"

definition config_int :: "kconfig \<Rightarrow> string \<Rightarrow> int res" where
  "config_int cfg key = bindE (dict_item cfg key) int10"

definition deployment_args :: "string \<Rightarrow> resource_args" where
  "deployment_args build =
     \<lparr>ra_command = Verify (path_join build ''generated/deployment/resource-plan.json'') build None,
      ra_json = path_join build ''generated/deployment/qualification-resource-report.json'',
      ra_markdown = path_join build ''generated/deployment/qualification-resource-report.md''\<rparr>"

definition a_checks :: "admit_world \<Rightarrow> string \<Rightarrow> prepared \<Rightarrow> reffect list \<times> (thread_row list \<times> string list) res" where
  "a_checks w build p =
     (if \<not> a_profile (ap_config p) then ([], Inr ([], []))
      else case verify_process w (deployment_args build) of (log, returncode, stderr) \<Rightarrow>
        (log,
         let checked = (if returncode \<noteq> 0 then [''Deployment resource check failed: '' @ strip stderr] else []) in
         bindE (config_int (ap_config p) ''CONFIG_ROS2_ZEPHYR_CYCLONEDDS_THREAD_COUNT'') (\<lambda>slots.
         bindE (config_int (ap_config p) ''CONFIG_ROS2_ZEPHYR_CYCLONEDDS_THREAD_STACK_SIZE'') (\<lambda>each.
         bindE (pool_rows p ''Cyclone reserved slot '' slots each 8192
           ''ELF zephyr_stacks / configured count; DDSRT pthread_attr_setstack'') (\<lambda>rows.
         Inr (rows, checked @ (if symbol_bytes (ap_symbols p) ''zephyr_stacks'' \<noteq> slots * each
           then [''Cyclone stack pool extent mismatch''] else [])))))))"

definition c_checks :: "prepared \<Rightarrow> (thread_row list \<times> string list) res" where
  "c_checks p =
     (if \<not> c_profile (ap_config p) then Inr ([], [])
      else
      bindE (config_int (ap_config p) ''CONFIG_NROS_ZEPHYR_TASK_SLOTS'') (\<lambda>slots.
      bindE (config_int (ap_config p) ''CONFIG_NROS_ZEPHYR_TASK_STACK_SIZE'') (\<lambda>own.
      bindE (if own \<noteq> 0 then Inr own else config_int (ap_config p) ''CONFIG_MAIN_STACK_SIZE'') (\<lambda>each.
      bindE (pool_rows p ''nano-ROS reserved task slot '' slots each 6144
        ''ELF nros_thread_stacks; official nros_zephyr_task_create_prio pthread_attr_setstack'') (\<lambda>rows.
      Inr (rows, if symbol_bytes (ap_symbols p) ''nros_thread_stacks'' \<noteq> slots * each
        then [''nano-ROS stack pool extent mismatch''] else []))))))"

definition allowed_callers :: "kconfig \<Rightarrow> string list" where
  "allowed_callers cfg =
     BASE_CALLERS @ (if a_profile cfg then [''ddsrt_thread_create'', ''pthread_create''] else [])
     @ (if c_profile cfg then [''nros_zephyr_task_create_prio'', ''pthread_create''] else [])"

definition allowed_stacks :: "kconfig \<Rightarrow> string list" where
  "allowed_stacks cfg =
     map fst STATIC @ (if a_profile cfg then [''zephyr_stacks''] else [])
     @ (if c_profile cfg then [''nros_thread_stacks''] else [])"

definition unknown_callers :: "kconfig \<Rightarrow> string \<Rightarrow> string list" where
  "unknown_callers cfg dis =
     sorted_set (filter (\<lambda>c. c \<notin> set (allowed_callers cfg)) (callers_of dis))"

definition unknown_stacks :: "prepared \<Rightarrow> string list" where
  "unknown_stacks p =
     map fst (filter (\<lambda>(n, _, len, typ). typ = ''STT_OBJECT'' \<and> 256 \<le> len \<and>
       contains ''stack'' (lower n) \<and> n \<notin> set (allowed_stacks (ap_config p))) (ap_symbols p))"

definition dynamic_pool :: "kconfig \<Rightarrow> int res" where
  "dynamic_pool cfg = int10 (get_default cfg ''CONFIG_DYNAMIC_THREAD_POOL_SIZE'' ''0'')"

definition final_failures :: "prepared \<Rightarrow> string \<Rightarrow> thread_row list \<Rightarrow> int \<Rightarrow> string list" where
  "final_failures p dis rows pool =
     (let iv = ap_inventory p; callers = unknown_callers (ap_config p) dis; stacks = unknown_stacks p in
      (if callers \<noteq> [] then [''Unreviewed linked thread/workqueue callers: '' @ join '', '' callers] else [])
      @ (if stacks \<noteq> [] then [''Unreviewed stack backing: '' @ join '', '' stacks] else [])
      @ (if pool \<noteq> 0 then [''Reserved dynamic stack pool needs explicit review''] else [])
      @ (if emulated_tls_present (inv_tls iv) then [''Emulated TLS''] else [])
      @ (if list_ex (\<lambda>r. sb_status r = ''FAIL'') rows
         then [''TLS + overhead + execution + margin exceeds backing''] else [])
      @ (if 450000 < ram_committed iv + 16384
         then [''RAM plus 16384-byte application reserve exceeds 450000-byte contract''] else [])
      @ (if 2097152 < inv_image_bytes iv then [''Flash contract 2097152 bytes exceeded''] else []))"

record admission =
  ad_status :: string
  ad_prepared :: prepared
  ad_rows :: "thread_row list"
  ad_callers :: "string list"
  ad_unknown_stacks :: "string list"
  ad_pool :: int
  ad_failures :: "string list"

definition admit_checks :: "admit_world \<Rightarrow> string \<Rightarrow> prepared \<Rightarrow> string \<Rightarrow> reffect list \<times> admission res" where
  "admit_checks w build p dis =
     (case vendor_check p dis of
        Inl e \<Rightarrow> ([], Inl e)
      | Inr vendor \<Rightarrow>
          (case a_checks w build p of (log, ra) \<Rightarrow>
             (log,
              bindE ra (\<lambda>a.
              bindE (c_checks p) (\<lambda>c.
              bindE (dynamic_pool (ap_config p)) (\<lambda>pool.
              let rows = ap_rows p @ fst vendor @ fst a @ fst c;
                  failures = snd vendor @ snd a @ snd c @ final_failures p dis rows pool
              in Inr \<lparr>ad_status = (if failures \<noteq> [] then ''NOT_ADMITTED'' else ''ADMITTED_FOR_QUALIFICATION''),
                      ad_prepared = p, ad_rows = rows, ad_callers = sorted_set (callers_of dis),
                      ad_unknown_stacks = unknown_stacks p, ad_pool = pool, ad_failures = failures\<rparr>))))))"

definition admit :: "admit_world \<Rightarrow> string \<Rightarrow> string \<Rightarrow> int \<Rightarrow> reffect list \<times> admission res" where
  "admit w build objdump main_execution_bytes =
     (case prepare w build main_execution_bytes of
        Inl e \<Rightarrow> ([], Inl e)
      | Inr p \<Rightarrow>
          (case run_objdump w objdump (path_join build ''zephyr/zephyr.elf'') of
             Inl e \<Rightarrow> ([], Inl e)
           | Inr dis \<Rightarrow>
               (case text_fails w (path_join build ''disassembly.txt'') of
                  Some err \<Rightarrow> ([], Inl (OSError err))
                | None \<Rightarrow> apfst (Cons (WriteFile (path_join build ''disassembly.txt'') dis))
                    (admit_checks w build p dis))))"

section \<open>The report and the exit status\<close>

definition row_json :: "thread_row \<Rightarrow> json" where
  "row_json r =
     JObj [(''backing_bytes'', JInt (sb_backing r)), (''tls_upper_bytes'', JInt (sb_tls_upper r)),
           (''other_upper_bytes'', JInt (sb_other_upper r)), (''execution_budget_bytes'', JInt (sb_execution r)),
           (''margin_bytes'', JInt (sb_margin r)), (''required_bytes'', JInt (sb_required r)),
           (''remaining_after_budget_bytes'', JInt (sb_remaining r)), (''status'', JStr (sb_status r)),
           (''thread'', JStr (tr_thread r)), (''source'', JStr (tr_source r))]"

definition admission_note :: string where
  "admission_note =
     ''Preflash qualification admission only. 256-byte common margin policy; per-thread execution ''
     @ ''budgets differ. Vendor dynamic allocation is inside the counted heap, never added twice. ''
     @ ''Dead POSIX create paths must be absent or reviewed. ISR has no TLS. Watermarks do not prove ''
     @ ''worst-case safety.''"

definition admission_json :: "admit_world \<Rightarrow> admission \<Rightarrow> json" where
  "admission_json w ad =
     (let p = ad_prepared ad; iv = ap_inventory p in
      JObj [(''status'', JStr (ad_status ad)), (''elf_sha256'', JStr (sha256 w (ap_image p))),
            (''image_sha256'', JStr (inv_image_sha256 iv)),
            (''ram_committed_bytes'', JInt (ram_committed iv)),
            (''application_reserve_bytes'', JInt 16384), (''ram_contract_bytes'', JInt 450000),
            (''image_bytes'', JInt (inv_image_bytes iv)), (''tls_template_bytes'', JInt (ap_tls p)),
            (''stack_checks'', JArr (map row_json (ad_rows ad))),
            (''linked_thread_creation_callers'', JArr (map JStr (ad_callers ad))),
            (''unreviewed_stack_symbols'', JArr (map JStr (ad_unknown_stacks ad))),
            (''dynamic_stack_pool_count'', JInt (ad_pool ad)),
            (''posix_thread_control_pool_bytes'', JInt (symbol_bytes (ap_symbols p) ''posix_thread_pool'')),
            (''vendor_dynamic_stack_from_already_counted_system_heap'', JBool True),
            (''failures'', JArr (map JStr (ad_failures ad))), (''observed_margins_required'', JBool True),
            (''note'', JStr admission_note)])"

record admit_args =
  aa_build :: string
  aa_output :: string
  aa_objdump :: string
  aa_main_execution :: int

text \<open>The effects, the printed lines and the exit status; \<open>SystemExit(True)\<close> is status 1.\<close>

definition admit_main :: "admit_world \<Rightarrow> admit_args \<Rightarrow> reffect list \<times> string list \<times> int res" where
  "admit_main w a =
     (case admit w (aa_build a) (aa_objdump a) (aa_main_execution a) of
        (log, Inl e) \<Rightarrow> (log, [], Inl e)
      | (log, Inr ad) \<Rightarrow>
          (case text_fails w (aa_output a) of
             Some err \<Rightarrow> (log, [], Inl (OSError err))
           | None \<Rightarrow>
               (log @ [WriteFile (aa_output a) (dumps 0 (admission_json w ad) @ nl)],
                [ad_status ad, join nl (ad_failures ad)],
                Inr (of_bool (ad_failures ad \<noteq> [])))))"

section \<open>A thread-local copy in a stack\<close>

text \<open>
  The thread-local block of a thread is carved from the top of its stack, at an address aligned
  downwards. A stack that ends at \<open>hi\<close> keeps the bytes below that address.
\<close>

definition tls_base :: "int \<Rightarrow> int \<Rightarrow> int \<Rightarrow> int" where
  "tls_base align tls hi = (hi - tls) - (hi - tls) mod align"

definition left_below :: "int \<Rightarrow> int \<Rightarrow> int \<Rightarrow> int \<Rightarrow> int" where
  "left_below align tls backing hi = tls_base align tls hi - (hi - backing)"

lemma left_below_bounds:
  assumes "0 < align"
  shows "backing - (tls + align - 1) \<le> left_below align tls backing hi" "left_below align tls backing hi \<le> backing - tls"
  using pos_mod_bound [OF assms, of "hi - tls"] pos_mod_sign [OF assms, of "hi - tls"]
  by (simp_all add: left_below_def tls_base_def)

lemma left_below_worst:
  assumes "0 < align"
  shows "left_below align tls backing (tls + align - 1) = backing - (tls + align - 1)"
proof -
  have "(align - 1) mod align = align - 1" using assms by (intro mod_pos_pos_trivial) simp_all
  then show ?thesis by (simp add: left_below_def tls_base_def)
qed

lemma stack_budget_eq_Inr:
  "stack_budget backing execution tls align overhead margin isr = Inr b \<longleftrightarrow>
     0 \<le> backing \<and> 0 \<le> execution \<and> 0 \<le> tls \<and> 0 \<le> overhead \<and> 0 \<le> margin \<and> 1 \<le> align \<and>
     b = (let required = (if isr then 0 else tls + align - 1) + overhead + execution + margin in
       \<lparr>sb_backing = backing, sb_tls_upper = (if isr then 0 else tls + align - 1), sb_other_upper = overhead,
        sb_execution = execution, sb_margin = margin, sb_required = required, sb_remaining = backing - required,
        sb_status = (if required \<le> backing then ''PASS'' else ''FAIL'')\<rparr>)"
proof -
  have "\<not> (Min (set [backing, execution, tls, overhead, margin]) < 0 \<or> align < 1) \<longleftrightarrow>
      0 \<le> backing \<and> 0 \<le> execution \<and> 0 \<le> tls \<and> 0 \<le> overhead \<and> 0 \<le> margin \<and> 1 \<le> align"
    by auto
  then show ?thesis
    unfolding stack_budget_def Let_def if_raise_eq_Inr sum.inject
    by (simp only: eq_commute [of b] conj_assoc)
qed

lemma stack_budget_pass:
  assumes "stack_budget backing execution tls align overhead margin False = Inr b"
  shows "sb_status b = ''PASS'' \<longleftrightarrow> (\<forall>hi. overhead + execution + margin \<le> left_below align tls backing hi)"
proof -
  from assms have a: "0 < align" and b: "sb_status b = ''PASS'' \<longleftrightarrow> tls + align - 1 + overhead + execution + margin \<le> backing"
    unfolding stack_budget_eq_Inr Let_def by simp_all
  have "(\<forall>hi. overhead + execution + margin \<le> left_below align tls backing hi) \<longleftrightarrow>
      tls + align - 1 + overhead + execution + margin \<le> backing"
  proof
    assume "\<forall>hi. overhead + execution + margin \<le> left_below align tls backing hi"
    then have "overhead + execution + margin \<le> left_below align tls backing (tls + align - 1)" by blast
    then show "tls + align - 1 + overhead + execution + margin \<le> backing" by (simp add: left_below_worst [OF a])
  next
    assume "tls + align - 1 + overhead + execution + margin \<le> backing"
    then have "overhead + execution + margin \<le> left_below align tls backing hi" for hi
      using left_below_bounds(1) [OF a, of backing tls hi] by linarith
    then show "\<forall>hi. overhead + execution + margin \<le> left_below align tls backing hi" ..
  qed
  with b show ?thesis by simp
qed


section \<open>Admitted images\<close>

definition isr_row :: "thread_row \<Rightarrow> bool" where
  "isr_row r \<longleftrightarrow> tr_thread r = ''ISR (no TLS)''"

text \<open>
  What a row promises: wherever the stack lies, the exception frame, the execution budget and the
  margin fit below the thread-local block; an interrupt stack has no such block.
\<close>

definition row_fits :: "prepared \<Rightarrow> thread_row \<Rightarrow> bool" where
  "row_fits p r \<longleftrightarrow>
     (\<forall>hi. ap_other p + sb_execution r + 256 \<le>
        (if isr_row r then sb_backing r else left_below (ap_align p) (ap_tls p) (sb_backing r) hi))"

definition budgeted :: "prepared \<Rightarrow> thread_row \<Rightarrow> bool" where
  "budgeted p r \<longleftrightarrow>
     (\<exists>name source. thread_row_of p name (sb_backing r) (sb_execution r) source (isr_row r) = Inr r)"

lemma thread_row_of_eq_Inr:
  "thread_row_of p name backing execution source isr = Inr r \<longleftrightarrow>
     (\<exists>b. stack_budget backing execution (ap_tls p) (ap_align p) (ap_other p) 256 isr = Inr b \<and>
        r = budget_row.extend b \<lparr>tr_thread = name, tr_source = source\<rparr>)"
  unfolding thread_row_of_def bindE_eq_Inr sum.inject by (simp only: eq_commute [of r])

lemma thread_row_of_facts:
  assumes "thread_row_of p name backing execution source isr = Inr r"
  shows "tr_thread r = name" "sb_backing r = backing" "sb_execution r = execution"
proof -
  from assms [unfolded thread_row_of_eq_Inr] obtain b where
    b: "stack_budget backing execution (ap_tls p) (ap_align p) (ap_other p) 256 isr = Inr b"
    and r: "r = budget_row.extend b \<lparr>tr_thread = name, tr_source = source\<rparr>" by (elim exE conjE)
  from b [unfolded stack_budget_eq_Inr] have "sb_backing b = backing" "sb_execution b = execution"
    by (simp_all add: Let_def)
  with r show "tr_thread r = name" "sb_backing r = backing" "sb_execution r = execution"
    by (simp_all add: budget_row.extend_def)
qed

lemma row_passes:
  assumes "budgeted p r" and "sb_status r \<noteq> ''FAIL''"
  shows "row_fits p r"
proof -
  from assms(1) obtain b name source where
    b: "stack_budget (sb_backing r) (sb_execution r) (ap_tls p) (ap_align p) (ap_other p) 256 (isr_row r) = Inr b"
    and r: "r = budget_row.extend b \<lparr>tr_thread = name, tr_source = source\<rparr>"
    unfolding budgeted_def thread_row_of_eq_Inr by (elim exE conjE)
  from r have s: "sb_status b = sb_status r" by (simp add: budget_row.extend_def)
  with assms(2) b have pass: "sb_status b = ''PASS''"
    unfolding stack_budget_eq_Inr Let_def by (simp split: if_splits)
  show ?thesis
  proof (cases "isr_row r")
    case True
    with b pass have "ap_other p + sb_execution r + 256 \<le> sb_backing r"
      unfolding stack_budget_eq_Inr Let_def by (simp split: if_splits)
    with True show ?thesis by (simp add: row_fits_def)
  next
    case False
    with b pass stack_budget_pass show ?thesis by (simp add: row_fits_def)
  qed
qed

lemma budgetedI:
  assumes "thread_row_of p name backing execution source isr = Inr r" and "isr \<longleftrightarrow> name = ''ISR (no TLS)''"
  shows "budgeted p r"
  unfolding budgeted_def isr_row_def thread_row_of_facts [OF assms(1)]
  using assms(1) unfolding assms(2) by (intro exI)

lemma static_rows_facts:
  assumes "static_rows p m = Inr rows"
  shows "r \<in> set rows \<Longrightarrow> budgeted p r"
    and "(symbol, name, budget) \<in> set STATIC \<Longrightarrow> map_of (ap_symbols p) symbol \<noteq> None \<Longrightarrow>
      \<exists>r \<in> set rows. tr_thread r = name \<and> sb_backing r = symbol_bytes (ap_symbols p) symbol \<and>
        sb_execution r = static_execution (ap_config p) m symbol budget"
proof -
  let ?row = "\<lambda>(symbol, name, budget).
       thread_row_of p name (symbol_bytes (ap_symbols p) symbol)
         (static_execution (ap_config p) m symbol budget) (''ELF:'' @ symbol) (symbol = ''z_interrupt_stacks'')"
  let ?present = "filter (\<lambda>e. map_of (ap_symbols p) (fst e) \<noteq> None) STATIC"
  note all = assms [unfolded static_rows_def]
  have isr: "\<forall>e \<in> set STATIC. fst e = ''z_interrupt_stacks'' \<longleftrightarrow> fst (snd e) = ''ISR (no TLS)''"
    by (simp add: STATIC_def)
  show "budgeted p r" if "r \<in> set rows"
  proof -
    from mapE_memD [OF all that] obtain e where "e \<in> set ?present" and "?row e = Inr r" by (elim bexE)
    moreover obtain symbol name budget where "e = (symbol, name, budget)" by (cases e rule: prod_cases3)
    ultimately have row: "thread_row_of p name (symbol_bytes (ap_symbols p) symbol)
         (static_execution (ap_config p) m symbol budget) (''ELF:'' @ symbol) (symbol = ''z_interrupt_stacks'') = Inr r"
      and "symbol = ''z_interrupt_stacks'' \<longleftrightarrow> name = ''ISR (no TLS)''" using isr by auto
    then show ?thesis by (rule budgetedI)
  qed
  show "\<exists>r \<in> set rows. tr_thread r = name \<and> sb_backing r = symbol_bytes (ap_symbols p) symbol \<and>
        sb_execution r = static_execution (ap_config p) m symbol budget"
    if "(symbol, name, budget) \<in> set STATIC" "map_of (ap_symbols p) symbol \<noteq> None"
  proof -
    from that have "(symbol, name, budget) \<in> set ?present" by simp
    from mapE_mem [OF all this] obtain r where "r \<in> set rows" "?row (symbol, name, budget) = Inr r"
      by (elim bexE)
    with thread_row_of_facts show ?thesis by (intro bexI [of _ r]) simp_all
  qed
qed


lemma pool_rows_budgeted:
  assumes "pool_rows p name slots each execution source = Inr rows" and "r \<in> set rows"
    and "hd name \<noteq> CHR ''I''" and "name \<noteq> []"
  shows "budgeted p r"
proof -
  from mapE_memD [OF assms(1) [unfolded pool_rows_def] assms(2)] obtain i where
    row: "thread_row_of p (name @ show_int (int i)) each execution source False = Inr r" by (elim bexE)
  have "name @ show_int (int i) \<noteq> ''ISR (no TLS)''" using assms(3,4) by (cases name) auto
  then show ?thesis by (intro budgetedI [OF row]) simp
qed

lemma vendor_check_facts:
  assumes "vendor_check p dis = Inr v"
  shows "\<forall>r \<in> set (fst v). budgeted p r" and "snd v = [] \<Longrightarrow> vendor_known dis"
proof -
  have row: "bindE (thread_row_of p name backing execution source False) (\<lambda>row. Inr ([row], fs)) = Inr v \<Longrightarrow>
      name \<noteq> ''ISR (no TLS)'' \<Longrightarrow> \<forall>r \<in> set (fst v). budgeted p r" for name backing execution source fs
    by (auto simp: bindE_eq_Inr intro: budgetedI)
  show "\<forall>r \<in> set (fst v). budgeted p r"
  proof (cases "vendor_known dis")
    case True
    note v = assms [unfolded vendor_check_def Let_def, simplified True not_True_eq_False if_False]
    show ?thesis
    proof (cases "a_profile (ap_config p)")
      case True
      show ?thesis by (rule row [OF v [unfolded if_P [OF True]]]) simp
    next
      case False
      show ?thesis by (rule row [OF v [unfolded if_not_P [OF False]]]) simp
    qed
  next
    case False
    with assms have "fst v = []" unfolding vendor_check_def by auto
    then show ?thesis by simp
  qed
  show "snd v = [] \<Longrightarrow> vendor_known dis"
  proof (rule ccontr)
    assume "snd v = []" and "\<not> vendor_known dis"
    with assms show False by (auto simp: vendor_check_def)
  qed
qed

lemma a_checks_facts:
  assumes "a_checks w build p = (log, Inr a)"
  shows "\<forall>r \<in> set (fst a). budgeted p r"
    and "snd a = [] \<Longrightarrow> a_profile (ap_config p) \<Longrightarrow> fst (snd (verify_process w (deployment_args build))) = 0"
proof -
  obtain vlog code err where v: "verify_process w (deployment_args build) = (vlog, code, err)"
    by (cases "verify_process w (deployment_args build)" rule: prod_cases3)
  show "\<forall>r \<in> set (fst a). budgeted p r"
  proof (cases "a_profile (ap_config p)")
    case True
    with assms v obtain slots each rows fs where
      rows: "pool_rows p ''Cyclone reserved slot '' slots each 8192
           ''ELF zephyr_stacks / configured count; DDSRT pthread_attr_setstack'' = Inr rows" and a: "a = (rows, fs)"
      unfolding a_checks_def Let_def
      by (simp only: not_True_eq_False if_False prod.case prod.inject bindE_eq_Inr sum.inject)
         (elim exE conjE, rule that, assumption, rule sym)
    show ?thesis unfolding a by (auto intro: pool_rows_budgeted [OF rows])
  qed (use assms in \<open>auto simp: a_checks_def\<close>)
  show "fst (snd (verify_process w (deployment_args build))) = 0" if "snd a = []" "a_profile (ap_config p)"
  proof -
    from assms that(2) v obtain rows message fs where "a = (rows, (if code \<noteq> 0 then [message] else []) @ fs)"
      unfolding a_checks_def Let_def
      by (simp only: not_True_eq_False if_False prod.case prod.inject bindE_eq_Inr sum.inject)
         (elim exE conjE, rule that, rule sym)
    with that(1) v show ?thesis by (simp split: if_splits)
  qed
qed

lemma c_checks_facts:
  assumes "c_checks p = Inr c"
  shows "\<forall>r \<in> set (fst c). budgeted p r"
proof (cases "c_profile (ap_config p)")
  case True
  with assms obtain slots each rows fs where
    rows: "pool_rows p ''nano-ROS reserved task slot '' slots each 6144
        ''ELF nros_thread_stacks; official nros_zephyr_task_create_prio pthread_attr_setstack'' = Inr rows"
    and c: "c = (rows, fs)"
    unfolding c_checks_def
    by (simp only: not_True_eq_False if_False bindE_eq_Inr sum.inject)
       (elim exE conjE, rule that, assumption, rule sym)
  show ?thesis unfolding c by (auto intro: pool_rows_budgeted [OF rows])
qed (use assms in \<open>auto simp: c_checks_def\<close>)

text \<open>The functions that mention a creator of threads: the function header last seen before the line.\<close>

definition header_name :: "string \<Rightarrow> string option" where
  "header_name line = map_option (\<lambda>g. group_of g 1) (rx_match FUNCTION_LINE line)"

fun enclosing :: "string list \<Rightarrow> string" where
  "enclosing [] = []"
| "enclosing (line # before) = (case header_name line of Some name \<Rightarrow> name | None \<Rightarrow> enclosing before)"

definition creates_threads :: "string \<Rightarrow> string \<Rightarrow> bool" where
  "creates_threads dis caller \<longleftrightarrow>
     (\<exists>before line after. splitlines dis = before @ line # after \<and> header_name line = None \<and>
        (\<exists>x \<in> set THREAD_CREATORS. contains (''<'' @ x @ ''>'') line) \<and> caller = enclosing (rev before))"

lemma caller_line_eq:
  "caller_line st line =
     (case header_name line of
        Some name \<Rightarrow> (name, snd st)
      | None \<Rightarrow> (fst st, (if \<exists>x \<in> set THREAD_CREATORS. contains (''<'' @ x @ ''>'') line then [fst st] else []) @ snd st))"
  by (auto simp: caller_line_def header_name_def list_ex_iff split: option.splits)

lemma callers_of_lines:
  "fst (foldl caller_line ([], []) lines) = enclosing (rev lines) \<and>
   set (snd (foldl caller_line ([], []) lines)) =
     {enclosing (rev before) |before line after. lines = before @ line # after \<and> header_name line = None \<and>
        (\<exists>x \<in> set THREAD_CREATORS. contains (''<'' @ x @ ''>'') line)}"
proof (induction lines rule: rev_induct)
  case (snoc l lines)
  have split: "lines @ [l] = before @ line # after \<longleftrightarrow>
      after = [] \<and> before = lines \<and> line = l \<or> (\<exists>rest. after = rest @ [l] \<and> lines = before @ line # rest)"
    for before line after
    by (cases after rule: rev_cases) auto
  show ?case
    unfolding split
    using snoc by (auto simp: caller_line_eq split: option.splits)
qed simp

lemma callers_of_iff: "c \<in> set (callers_of dis) \<longleftrightarrow> creates_threads dis c"
  unfolding callers_of_def creates_threads_def using callers_of_lines [of "splitlines dis"] by blast


lemma static_rows_update [simp]: "static_rows (p\<lparr>ap_rows := rows\<rparr>) m = static_rows p m"
  by (simp add: static_rows_def thread_row_of_def cong: prod.case_cong)

lemma prepare_facts:
  assumes "prepare w build m = Inr p"
  shows "static_rows p m = Inr (ap_rows p)" "inventory (c6_world.truncate w) build = Inr (ap_inventory p)"
proof -
  from assms obtain iv p0 rows where iv: "inventory (c6_world.truncate w) build = Inr iv" "ap_inventory p0 = iv"
    and rows: "static_rows p0 m = Inr rows" and p: "p = p0\<lparr>ap_rows := rows\<rparr>"
    unfolding prepare_def Let_def bindE_eq_Inr sum.inject
    by (elim exE conjE) (rule that, assumption, rule prepared.select_convs, assumption, rule sym)
  show "static_rows p m = Inr (ap_rows p)" unfolding p static_rows_update by (simp add: rows)
  show "inventory (c6_world.truncate w) build = Inr (ap_inventory p)" unfolding p by (simp add: iv)
qed

lemma admit_parts:
  assumes "admit w build objdump m = (log, Inr ad)"
  obtains dis vendor alog a c pool where "prepare w build m = Inr (ad_prepared ad)"
    "run_objdump w objdump (path_join build ''zephyr/zephyr.elf'') = Inr dis"
    "vendor_check (ad_prepared ad) dis = Inr vendor" "a_checks w build (ad_prepared ad) = (alog, Inr a)"
    "c_checks (ad_prepared ad) = Inr c" "dynamic_pool (ap_config (ad_prepared ad)) = Inr pool"
    "log = WriteFile (path_join build ''disassembly.txt'') dis # alog"
    "ad_rows ad = ap_rows (ad_prepared ad) @ fst vendor @ fst a @ fst c"
    "ad_failures ad = snd vendor @ snd a @ snd c @ final_failures (ad_prepared ad) dis (ad_rows ad) pool"
    "ad_status ad = (if ad_failures ad \<noteq> [] then ''NOT_ADMITTED'' else ''ADMITTED_FOR_QUALIFICATION'')"
proof -
  from assms obtain p where p: "prepare w build m = Inr p"
    unfolding admit_def by (cases "prepare w build m") simp_all
  from assms p obtain dis where dis: "run_objdump w objdump (path_join build ''zephyr/zephyr.elf'') = Inr dis"
    unfolding admit_def by (cases "run_objdump w objdump (path_join build ''zephyr/zephyr.elf'')") simp_all
  from assms p dis have checks: "admit_checks w build p dis = (tl log, Inr ad)"
    "log = WriteFile (path_join build ''disassembly.txt'') dis # tl log"
    unfolding admit_def by (auto split: option.splits simp: apfst_def map_prod_def split: prod.splits)
  from checks(1) obtain vendor where v: "vendor_check p dis = Inr vendor"
    unfolding admit_checks_def by (cases "vendor_check p dis") simp_all
  obtain alog ra where a: "a_checks w build p = (alog, ra)" by (cases "a_checks w build p")
  from checks(1) [unfolded admit_checks_def v sum.case a prod.case prod.inject Let_def bindE_eq_Inr sum.inject]
  obtain x c pool where "ra = Inr x" "c_checks p = Inr c" "dynamic_pool (ap_config p) = Inr pool" "alog = tl log"
    and ad: "ad = (let rows = ap_rows p @ fst vendor @ fst x @ fst c;
                  failures = snd vendor @ snd x @ snd c @ final_failures p dis rows pool
      in \<lparr>ad_status = (if failures \<noteq> [] then ''NOT_ADMITTED'' else ''ADMITTED_FOR_QUALIFICATION''),
          ad_prepared = p, ad_rows = rows, ad_callers = sorted_set (callers_of dis),
          ad_unknown_stacks = unknown_stacks p, ad_pool = pool, ad_failures = failures\<rparr>)"
    by (elim exE conjE) (rule that, assumption, assumption, assumption, assumption, unfold Let_def, rule sym)
  moreover from ad have "ad_prepared ad = p"
    "ad_rows ad = ap_rows p @ fst vendor @ fst x @ fst c"
    "ad_failures ad = snd vendor @ snd x @ snd c @ final_failures p dis (ad_rows ad) pool"
    "ad_status ad = (if ad_failures ad \<noteq> [] then ''NOT_ADMITTED'' else ''ADMITTED_FOR_QUALIFICATION'')"
    by (simp_all only: Let_def admission.select_convs)
  ultimately show ?thesis using p dis v a checks(2) by (intro that) simp_all
qed

lemma final_failures_none:
  assumes "final_failures p dis rows pool = []"
  shows "creates_threads dis c \<Longrightarrow> c \<in> set (allowed_callers (ap_config p))"
    and "unknown_stacks p = []" and "pool = 0" and "\<not> emulated_tls_present (inv_tls (ap_inventory p))"
    and "r \<in> set rows \<Longrightarrow> sb_status r \<noteq> ''FAIL''"
    and "ram_committed (ap_inventory p) + 16384 \<le> 450000" and "inv_image_bytes (ap_inventory p) \<le> 2097152"
proof -
  have none: "(if b then [x] else []) = [] \<longleftrightarrow> \<not> b" for b :: bool and x :: string by simp
  note all = assms [unfolded final_failures_def Let_def append_is_Nil_conv none not_not]
  show "creates_threads dis c \<Longrightarrow> c \<in> set (allowed_callers (ap_config p))"
  proof (rule ccontr)
    assume "creates_threads dis c" "c \<notin> set (allowed_callers (ap_config p))"
    then have "c \<in> set (unknown_callers (ap_config p) dis)" by (simp add: unknown_callers_def callers_of_iff)
    with all [THEN conjunct1] show False by simp
  qed
  show "unknown_stacks p = []" "pool = 0" "\<not> emulated_tls_present (inv_tls (ap_inventory p))"
    "ram_committed (ap_inventory p) + 16384 \<le> 450000" "inv_image_bytes (ap_inventory p) \<le> 2097152"
    using all by (simp_all only: simp_thms not_less)
  show "r \<in> set rows \<Longrightarrow> sb_status r \<noteq> ''FAIL''"
    using all by (simp only: list_ex_iff) blast
qed


section \<open>An admitted image\<close>

definition example_dis :: string where
  "example_dis =
     ''1 <config_get_wifi_task_stack_size>:'' @ nl @ '' 0x2 -2048 -1024 512'' @ nl @ nl
     @ ''2 <z_cstart>:'' @ nl @ '' jal <z_setup_new_thread>'' @ nl"

definition example_admit :: admit_world where
  "example_admit =
     c6_world.extend example_c6
       \<lparr>run_objdump = (\<lambda>_ _. Inr example_dis), text_fails = (\<lambda>_. None), verify_process = (\<lambda>_. ([], 0, []))\<rparr>"

definition example_prepared :: prepared where
  "example_prepared =
     \<lparr>ap_inventory = example_inv, ap_image = [],
      ap_config = [(''CONFIG_SOC_ESP32C6_HPCORE'', ''y''), (''CONFIG_BOARD_TARGET'', ''x'')],
      ap_symbols = [(''z_main_stack'', 68, 8192, ''STT_OBJECT'')], ap_tls = 0, ap_align = 1, ap_other = 95,
      ap_rows = [\<lparr>sb_backing = 8192, sb_tls_upper = 0, sb_other_upper = 95, sb_execution = 6144, sb_margin = 256,
        sb_required = 6495, sb_remaining = 1697, sb_status = ''PASS'', tr_thread = ''main'',
        tr_source = ''ELF:z_main_stack''\<rparr>]\<rparr>"

definition example_admission :: admission where
  "example_admission =
     \<lparr>ad_status = ''ADMITTED_FOR_QUALIFICATION'', ad_prepared = example_prepared,
      ad_rows = ap_rows example_prepared @
        [\<lparr>sb_backing = 3072, sb_tls_upper = 0, sb_other_upper = 95, sb_execution = 2048, sb_margin = 256,
          sb_required = 2399, sb_remaining = 673, sb_status = ''PASS'',
          tr_thread = ''vendor Wi-Fi (minimum of 3072/3584/6144/6656)'',
          tr_source = ''config_get_wifi_task_stack_size -> pp_create_task -> OS adapter -> k_thread_stack_alloc (system heap)''\<rparr>],
      ad_callers = [''z_cstart''], ad_unknown_stacks = [], ad_pool = 0, ad_failures = []\<rparr>"

lemma example_esf: "esf_size example_offsets = Inr 80"
  by (simp add: esf_size_def example_offsets_def rx_search_def ESF_SIZE_def startswith_def Plus_def in_cls_def
      nl_def group_of_def int16_def py_int_def strip_def strip_by_def is_space_def in_range_def unsigned_val_def
      has_prefix_def after_prefix_def digit_val_def)

lemma example_static: "static_rows example_prepared 8704 = Inr (ap_rows example_prepared)"
  by (simp add: example_prepared_def static_rows_def STATIC_def thread_row_of_def stack_budget_def
      static_execution_def c_profile_def a_profile_def enabled_def symbol_bytes_def budget_row.extend_def)

lemma example_prepare: "prepare example_admit ''b'' 8704 = Inr example_prepared"
proof -
  have p: "path_join ''b'' ''zephyr/.config'' = ''b/zephyr/.config''"
    "path_join ''b'' ''zephyr/zephyr.elf'' = ''b/zephyr/zephyr.elf''"
    "path_join ''b'' ''zephyr/include/generated/zephyr/offsets.h'' = ''b/zephyr/include/generated/zephyr/offsets.h''"
    by (simp_all add: path_join_def startswith_def endswith_def)
  have "c6_world.truncate example_admit = example_c6" "c6_files example_admit = c6_files example_c6"
    "elf_open example_admit = elf_open example_c6"
    by (simp_all add: example_admit_def c6_world.extend_def c6_world.truncate_def)
  then have w: "inventory (c6_world.truncate example_admit) ''b'' = Inr example_inv"
    "read_text (c6_files example_admit) ''b/zephyr/.config'' = Inr example_c6_config"
    "read_bytes (c6_files example_admit) ''b/zephyr/zephyr.elf'' = Inr []"
    "bindE (elf_open example_admit []) symtab = Inr example_symbols"
    "read_text (c6_files example_admit) ''b/zephyr/include/generated/zephyr/offsets.h'' = Inr example_offsets"
    by (simp_all add: example_inventory)
       (simp_all add: read_text_def read_bytes_def open_file_def text_file_def example_c6_def symtab_def)
  have syms: "symbol_dict (\<lambda>s. (sy_value s, sy_size s, sy_type s)) example_symbols =
      [(''z_main_stack'', 68, 8192, ''STT_OBJECT'')]"
    by (simp add: symbol_dict_def example_symbols_def)
  have tls: "inv_tls example_inv = \<lparr>tdata_size = None, tbss_size = None, tdata_align = None, tbss_align = None,
      emulated_tls_present = False\<rparr>" by (simp add: example_inv_def)
  have sentinel: "\<not> enabled (config_dict example_c6_config) ''CONFIG_STACK_SENTINEL''"
    by (simp add: example_config_dict enabled_def)
  have p0: "\<lparr>ap_inventory = example_inv, ap_image = [], ap_config = config_dict example_c6_config,
      ap_symbols = [(''z_main_stack'', 68, 8192, ''STT_OBJECT'')], ap_tls = 0, ap_align = 1, ap_other = 95,
      ap_rows = []\<rparr> = example_prepared\<lparr>ap_rows := []\<rparr>"
    by (simp add: example_prepared_def example_config_dict)
  have "prepare example_admit ''b'' 8704 = bindE (static_rows (example_prepared\<lparr>ap_rows := []\<rparr>) 8704)
      (\<lambda>rows. Inr (example_prepared\<lparr>ap_rows := []\<rparr>\<lparr>ap_rows := rows\<rparr>))"
    unfolding prepare_def p w bindE_simps bindE_assoc [symmetric] example_esf Let_def syms tls c6_tls.select_convs
    by (simp only: sentinel nat_or_def option.case p0 if_False) (simp add: p0)
  then show ?thesis by (simp add: example_static)
qed

lemma example_vendor: "vendor_known example_dis"
  by (simp add: vendor_known_def body_of_def BODY_OF_def rx_search_def example_dis_def nl_def startswith_def
      dotall_cls_def in_cls_def group_of_def)

lemma example_callers: "callers_of example_dis = [''z_cstart'']"
  by (simp add: callers_of_def example_dis_def splitlines_def nl_def caller_line_def rx_match_def FUNCTION_LINE_def
      startswith_def Plus_def in_cls_def any_cls_def group_of_def at_bol_def THREAD_CREATORS_def is_linebreak_def
      in_range_def)


lemma example_admit_checks: "admit_checks example_admit ''b'' example_prepared example_dis = ([], Inr example_admission)"
proof -
  have profile: "\<not> a_profile (ap_config example_prepared)" "\<not> c_profile (ap_config example_prepared)"
    "dynamic_pool (ap_config example_prepared) = Inr 0"
    by (simp_all add: example_prepared_def a_profile_def c_profile_def enabled_def dynamic_pool_def get_default_def
        int16_examples)
  have v: "vendor_check example_prepared example_dis = Inr (drop 1 (ad_rows example_admission), [])"
    by (simp add: vendor_check_def example_vendor profile)
       (simp add: example_prepared_def example_admission_def thread_row_of_def stack_budget_def budget_row.extend_def)
  have stacks: "unknown_stacks example_prepared = []"
    by (simp add: unknown_stacks_def example_prepared_def allowed_stacks_def STATIC_def lower_def)
  have callers: "unknown_callers (ap_config example_prepared) example_dis = []"
    by (simp add: unknown_callers_def example_callers allowed_callers_def BASE_CALLERS_def sorted_set_def)
  have inv: "\<not> emulated_tls_present (inv_tls (ap_inventory example_prepared))"
    "ram_committed (ap_inventory example_prepared) = 12" "inv_image_bytes (ap_inventory example_prepared) = 0"
    by (simp_all add: example_prepared_def example_inv_def ram_committed_def linked_ram_span_def linked_span_def
        max_default_def example_region_def item_end_def)
  have rows: "ap_rows example_prepared @ drop 1 (ad_rows example_admission) = ad_rows example_admission"
    "\<not> list_ex (\<lambda>r. sb_status r = ''FAIL'') (ad_rows example_admission)"
    by (simp_all add: example_admission_def example_prepared_def)
  have none: "final_failures example_prepared example_dis (ad_rows example_admission) 0 = []"
    unfolding final_failures_def Let_def callers stacks inv(2,3) by (simp add: rows(2) inv(1))
  have "admit_checks example_admit ''b'' example_prepared example_dis =
      ([], Inr \<lparr>ad_status = ''ADMITTED_FOR_QUALIFICATION'', ad_prepared = example_prepared,
        ad_rows = ad_rows example_admission, ad_callers = sorted_set (callers_of example_dis),
        ad_unknown_stacks = unknown_stacks example_prepared, ad_pool = 0, ad_failures = []\<rparr>)"
    unfolding admit_checks_def v a_checks_def c_checks_def
    by (simp only: sum.case profile not_False_eq_True if_True prod.case bindE_simps Let_def fst_conv snd_conv
        append_Nil append_Nil2 rows(1) none) simp
  then show ?thesis by (simp only: stacks example_callers) (simp add: example_admission_def sorted_set_def)
qed

lemma example_c6_admitted:
  "admit example_admit ''b'' objdump 8704 =
     ([WriteFile (path_join ''b'' ''disassembly.txt'') example_dis], Inr example_admission)"
proof -
  have "run_objdump example_admit tool f = Inr example_dis" "text_fails example_admit f = None" for tool f
    by (simp_all add: example_admit_def c6_world.extend_def)
  then show ?thesis by (simp add: admit_def example_prepare example_admit_checks)
qed

section \<open>Properties\<close>

text \<open>
  Property C27. A stack budget passes exactly when, wherever the stack lies in memory, the exception
  frame, the execution budget and the margin fit below the thread-local block that is carved from
  its top and aligned downwards: the reserve of \<open>size + alignment - 1\<close> is enough and no smaller one
  is. Without a thread-local block the whole stack counts.
\<close>

theorem stack_budget_exact:
  assumes "stack_budget backing execution tls align overhead margin isr = Inr b"
  shows "sb_status b = ''PASS'' \<longleftrightarrow>
    (if isr then overhead + execution + margin \<le> backing
     else \<forall>hi. overhead + execution + margin \<le> left_below align tls backing hi)"
proof (cases isr)
  case True
  with assms show ?thesis unfolding stack_budget_eq_Inr Let_def by simp
next
  case False
  with assms stack_budget_pass show ?thesis by simp
qed

theorem stack_budget_exact_witness:
  "\<exists>b. stack_budget 1024 600 100 16 95 256 False = Inr b \<and> sb_status b = ''FAIL'' \<and>
     (\<exists>hi. left_below 16 100 1024 hi < 951) \<and> sb_required b \<le> 1024 + 42"
  using stack_budget_exact [of 1024 600 100 16 95 256 False]
  by (simp add: stack_budget_def not_le)

text \<open>
  Property C28. An image that is admitted for qualification has a passing row for every stack it
  links from the reviewed list, and in every row the budget fits wherever the stack lies; every
  function whose disassembly mentions a creator of threads is a reviewed one, every stack-like
  object of 256 bytes or more is a reviewed one, thread-local storage is not emulated, and RAM, with
  the application reserve, and flash are within the contract.
\<close>

theorem admitted_image_safe:
  assumes "admit w build objdump m = (log, Inr ad)" and "ad_status ad = ''ADMITTED_FOR_QUALIFICATION''"
    and "run_objdump w objdump (path_join build ''zephyr/zephyr.elf'') = Inr dis"
    and "p = ad_prepared ad"
  shows "(\<forall>r \<in> set (ad_rows ad). row_fits p r) \<and>
    (\<forall>(symbol, name, budget) \<in> set STATIC. map_of (ap_symbols p) symbol \<noteq> None \<longrightarrow>
       (\<exists>r \<in> set (ad_rows ad). tr_thread r = name \<and> sb_backing r = symbol_bytes (ap_symbols p) symbol \<and>
          sb_execution r = static_execution (ap_config p) m symbol budget)) \<and>
    (\<forall>c. creates_threads dis c \<longrightarrow> c \<in> set (allowed_callers (ap_config p))) \<and>
    (\<forall>(n, _, len, typ) \<in> set (ap_symbols p). typ = ''STT_OBJECT'' \<and> 256 \<le> len \<and> contains ''stack'' (lower n) \<longrightarrow>
       n \<in> set (allowed_stacks (ap_config p))) \<and>
    \<not> emulated_tls_present (inv_tls (ap_inventory p)) \<and>
    ram_committed (ap_inventory p) + 16384 \<le> 450000 \<and> inv_image_bytes (ap_inventory p) \<le> 2097152"
proof -
  obtain dis' vendor alog a c pool where parts: "prepare w build m = Inr p"
    "run_objdump w objdump (path_join build ''zephyr/zephyr.elf'') = Inr dis'"
    "vendor_check p dis' = Inr vendor" "a_checks w build p = (alog, Inr a)" "c_checks p = Inr c"
    and rows: "ad_rows ad = ap_rows p @ fst vendor @ fst a @ fst c"
    and fs: "ad_failures ad = snd vendor @ snd a @ snd c @ final_failures p dis' (ad_rows ad) pool"
    and st: "ad_status ad = (if ad_failures ad \<noteq> [] then ''NOT_ADMITTED'' else ''ADMITTED_FOR_QUALIFICATION'')"
    unfolding assms(4) by (rule admit_parts [OF assms(1)])
  have "ad_failures ad = []" using st assms(2) by (rule_tac ccontr) simp
  with fs have none: "final_failures p dis' (ad_rows ad) pool = []" by simp
  note final = final_failures_none [OF none] and static = prepare_facts [OF parts(1)]
  have budgeted: "\<forall>r \<in> set (ad_rows ad). budgeted p r"
    unfolding rows set_append ball_Un
    using static_rows_facts(1) [OF static(1)] vendor_check_facts(1) [OF parts(3)] a_checks_facts(1) [OF parts(4)]
      c_checks_facts [OF parts(5)] by blast
  have "\<forall>r \<in> set (ad_rows ad). row_fits p r" using budgeted final(5) row_passes by blast
  moreover have "\<forall>(symbol, name, budget) \<in> set STATIC. map_of (ap_symbols p) symbol \<noteq> None \<longrightarrow>
       (\<exists>r \<in> set (ad_rows ad). tr_thread r = name \<and> sb_backing r = symbol_bytes (ap_symbols p) symbol \<and>
          sb_execution r = static_execution (ap_config p) m symbol budget)"
    using static_rows_facts(2) [OF static(1)] unfolding rows set_append by blast
  moreover have "\<forall>(n, _, len, typ) \<in> set (ap_symbols p). typ = ''STT_OBJECT'' \<and> 256 \<le> len \<and>
      contains ''stack'' (lower n) \<longrightarrow> n \<in> set (allowed_stacks (ap_config p))"
    using final(2) unfolding unknown_stacks_def map_is_Nil_conv filter_empty_conv by fastforce
  moreover have "dis' = dis" using parts(2) assms(3) by simp
  ultimately show ?thesis using final(1,4,6,7) by (intro conjI) simp_all
qed

theorem admitted_image_safe_witness:
  "\<exists>log ad. admit example_admit ''b'' ''objdump'' 8704 = (log, Inr ad) \<and> ad_status ad = ''ADMITTED_FOR_QUALIFICATION'' \<and>
     (\<forall>r \<in> set (ad_rows ad). row_fits example_prepared r) \<and>
     ''z_cstart'' \<in> set (allowed_callers (ap_config example_prepared))"
proof -
  have ad: "ad_status example_admission = ''ADMITTED_FOR_QUALIFICATION''"
    and p: "example_prepared = ad_prepared example_admission" by (simp_all add: example_admission_def)
  have dis: "run_objdump example_admit ''objdump'' (path_join ''b'' ''zephyr/zephyr.elf'') = Inr example_dis"
    by (simp add: example_admit_def c6_world.extend_def)
  have "creates_threads example_dis ''z_cstart''"
    unfolding callers_of_iff [symmetric] example_callers by simp
  then have "(\<forall>r \<in> set (ad_rows example_admission). row_fits example_prepared r) \<and>
      ''z_cstart'' \<in> set (allowed_callers (ap_config example_prepared))"
    using admitted_image_safe [OF example_c6_admitted ad dis p] by blast
  with ad show ?thesis
    by (intro exI [of _ example_admission] exI [of _ "[WriteFile (path_join ''b'' ''disassembly.txt'') example_dis]"]
        conjI example_c6_admitted) simp_all
qed


end
