(* ===== verification/Resource_Verify.thy ===== *)
theory Resource_Verify
  imports Resource_Verdict Resource_Admission Elf_Image
begin

text \<open>
  What the exit status of \<open>verify_resources.py\<close> says. Both commands exit with 0 exactly when their
  report passed and both files were written; a post-link report passes exactly when the linked image
  meets the budgets of the plan and the budgets fit the target's memory regions.
\<close>

section \<open>The end of main\<close>

definition report_effects :: "resource_args \<Rightarrow> dict \<Rightarrow> string \<Rightarrow> reffect list" where
  "report_effects args report markdown =
     [MakeDirs (path_parent (ra_json args)), WriteFile (ra_json args) (dumps_sorted (JObj report) @ nl),
      MakeDirs (path_parent (ra_markdown args)), WriteFile (ra_markdown args) markdown]"

definition report_status :: "dict \<Rightarrow> string \<Rightarrow> bool" where
  "report_status report s \<longleftrightarrow> map_of report ''status'' = Some (JStr s)"

lemma build_report_source:
  assumes "build_report env cmd = Inr (report, markdown, marker)"
  shows "(\<exists>i. (case i of (p, config, target, sync) \<Rightarrow> build_prelink_plan p config target sync) = Inr report) \<or>
    (\<exists>i. (case i of (env, plan, linked, runtime) \<Rightarrow> build_postlink_report env plan linked runtime) = Inr report)"
proof (cases cmd)
  case (Plan deployment_plan config target sync)
  with assms obtain p c where "build_prelink_plan p c target sync = Inr report"
    by (simp only: build_report_def command.case bindE_eq_Inr sum.inject prod.inject)
       (elim exE conjE, rule that, simp only:)
  then show ?thesis by (intro disjI1 exI [of _ "(p, c, target, sync)"]) simp
next
  case (Verify resource_plan build_dir runtime_log)
  with assms obtain p linked runtime where "build_postlink_report env p linked runtime = Inr report"
    by (simp only: build_report_def command.case bindE_eq_Inr sum.inject prod.inject)
       (elim exE conjE, rule that, simp only:)
  then show ?thesis by (intro disjI2 exI [of _ "(env, p, linked, runtime)"]) simp
qed

lemma conclude_agrees:
  assumes "build_report env cmd = Inr (report, markdown, marker)" and "conclude report m = Inr (err, line, code)"
  shows "code = 0 \<and> \<not> err \<and> report_status report ''PASS'' \<or> code = 2 \<and> err \<and> report_status report ''FAIL''"
  using build_report_source [OF assms(1)] unfolding report_status_def
  by (elim disjE exE) (erule plan_report.conclude_status link_report.conclude_status, rule assms(2))+

lemma conclude_passes:
  assumes "build_report env cmd = Inr (report, markdown, marker)" and "report_status report ''PASS''"
  shows "\<exists>line. conclude report m = Inr (False, line, 0)"
  using build_report_source [OF assms(1)] assms(2) unfolding report_status_def
  by (elim disjE exE) (erule plan_report.conclude_pass link_report.conclude_pass, assumption)+

lemma write_report_ok:
  "mkdir_fails env (path_parent path) = None \<Longrightarrow> write_fails env path = None \<Longrightarrow>
     write_report env path t = ([MakeDirs (path_parent path), WriteFile path t], Inr ())"
  by (simp add: write_report_def)

lemma write_report_eq_Inr:
  "write_report env path t = (log, Inr u) \<Longrightarrow> log = [MakeDirs (path_parent path), WriteFile path t]"
  by (auto simp: write_report_def split: option.splits)

lemma resource_run_parts:
  assumes "resource_run env args = (log, Inr out)"
  obtains report markdown marker where "build_report env (ra_command args) = Inr (report, markdown, marker)"
    "log = report_effects args report markdown" "conclude report marker = Inr out"
proof -
  from assms obtain report markdown marker where b: "build_report env (ra_command args) = Inr (report, markdown, marker)"
    unfolding resource_run_def by (cases "build_report env (ra_command args)") auto
  obtain log1 r1 where w1: "write_report env (ra_json args) (dumps_sorted (JObj report) @ nl) = (log1, r1)"
    by (cases "write_report env (ra_json args) (dumps_sorted (JObj report) @ nl)")
  obtain log2 r2 where w2: "write_report env (ra_markdown args) markdown = (log2, r2)"
    by (cases "write_report env (ra_markdown args) markdown")
  from assms b w1 w2 have r: "r1 = Inr ()" "r2 = Inr ()" and "log = log1 @ log2" "conclude report marker = Inr out"
    unfolding resource_run_def by (cases r1; cases r2; simp)+
  with write_report_eq_Inr [OF w1 [unfolded r]] write_report_eq_Inr [OF w2 [unfolded r]]
  have "log = report_effects args report markdown" by (simp add: report_effects_def)
  from b this \<open>conclude report marker = Inr out\<close> show ?thesis by (rule that)
qed

lemma resource_main_Inr:
  assumes "resource_main env args = (log, Inr (err, line, code))"
  shows "(\<exists>report markdown marker. build_report env (ra_command args) = Inr (report, markdown, marker) \<and>
      log = report_effects args report markdown \<and>
      (code = 0 \<and> \<not> err \<and> report_status report ''PASS'' \<or> code = 2 \<and> err \<and> report_status report ''FAIL'')) \<or>
    code = 2 \<and> err \<and> (\<exists>c message. snd (resource_run env args) = Inl (ResourceError c message) \<and>
      line = c @ '': '' @ message)"
proof (cases "snd (resource_run env args)")
  case (Inl e)
  then obtain l where run: "resource_run env args = (l, Inl e)" by (cases "resource_run env args") simp
  show ?thesis
  proof (cases e)
    case (ResourceError c message)
    with assms run Inl show ?thesis by (auto simp: resource_main_def)
  qed (use assms run in \<open>simp_all add: resource_main_def\<close>)
next
  case (Inr out)
  with assms have run: "resource_run env args = (log, Inr (err, line, code))"
    by (cases "resource_run env args") (auto simp: resource_main_def)
  then obtain report markdown marker where "build_report env (ra_command args) = Inr (report, markdown, marker)"
    "log = report_effects args report markdown" and c: "conclude report marker = Inr (err, line, code)"
    by (rule resource_run_parts)
  with conclude_agrees [OF this(1) c] show ?thesis by - (rule disjI1, intro exI, rule conjI, assumption, rule conjI)
qed

section \<open>The decision after the link\<close>

text \<open>The bound of a region for a declared budget; a target without the region has none.\<close>

definition within_region :: "int \<Rightarrow> mem_region option \<Rightarrow> bool" where
  "within_region budget region = (case region of None \<Rightarrow> True | Some r \<Rightarrow> budget \<le> reg_length r)"

definition ram_region :: "(string \<times> mem_region) list \<Rightarrow> mem_region option" where
  "ram_region regions =
     (case map_of regions ''sram0_0_seg'' of Some r \<Rightarrow> Some r | None \<Rightarrow> map_of regions ''dram0_0_seg'')"

definition linked_fits :: "int \<Rightarrow> int \<Rightarrow> int \<Rightarrow> int \<Rightarrow> int \<Rightarrow> (string \<times> mem_region) list \<Rightarrow> bool" where
  "linked_fits flash ram flash_budget ram_budget reserve regions \<longleftrightarrow>
     flash \<le> flash_budget \<and> ram + reserve \<le> ram_budget \<and>
     within_region flash_budget (map_of regions ''FLASH'') \<and> within_region ram_budget (ram_region regions)"

lemma map_of_region_json:
  "map_of (map region_json regions) n =
     map_option (\<lambda>r. JObj [(''origin'', JInt (reg_origin r)), (''length'', JInt (reg_length r))]) (map_of regions n)"
  by (induction regions) (auto simp: region_json_def)

lemma failed_check_row [simp]: "failed_row (check_row i c r a (verdict b) d) \<longleftrightarrow> \<not> b"
  by (simp add: failed_row_def verdict_def)

lemma budget_checks_int:
  assumes "map_of linked ''flash_bytes'' = Some (JInt flash)" and "map_of linked ''static_ram_bytes'' = Some (JInt ram)"
    and "subscript budgets ''flash_bytes'' = Inr (JInt flash_budget)"
    and "subscript budgets ''ram_bytes'' = Inr (JInt ram_budget)"
  shows "\<exists>rows. budget_checks env linked budgets (JInt reserve) = Inr rows \<and>
    (list_ex failed_row rows \<longleftrightarrow> \<not> (flash \<le> flash_budget \<and> ram + reserve \<le> ram_budget)) \<and>
    (\<forall>row \<in> set rows. check_like row)"
  unfolding budget_checks_def getitem_def assms option.case bindE_simps make_check_int num_add_def int_of_JInt prod.case
  by (intro exI conjI, rule refl) auto

lemma region_checks_int:
  assumes "subscript budgets ''flash_bytes'' = Inr (JInt flash_budget)"
    and "subscript budgets ''ram_bytes'' = Inr (JInt ram_budget)"
  shows "\<exists>rows. region_checks (map region_json regions) budgets = Inr rows \<and>
    (list_ex failed_row rows \<longleftrightarrow>
       \<not> (within_region flash_budget (map_of regions ''FLASH'') \<and> within_region ram_budget (ram_region regions))) \<and>
    (\<forall>row \<in> set rows. check_like row)"
proof -
  have len: "subscript (JObj [(''origin'', JInt a), (''length'', JInt b)]) ''length'' = Inr (JInt b)" for a b
    by (simp add: subscript_def getitem_def)
  have t: "truthy (JObj [(''origin'', JInt a), (''length'', JInt b)])" "\<not> truthy JNull" for a b
    by (simp_all add: truthy_def)
  show ?thesis
    unfolding region_checks_def Let_def dict_get_def map_of_region_json assms bindE_simps
    by (cases "map_of regions ''FLASH''"; cases "map_of regions ''sram0_0_seg''"; cases "map_of regions ''dram0_0_seg''")
       (simp_all only: option.case option.map bindE_simps len make_check_int t if_True not_False_eq_True append_Nil append_Cons
         within_region_def ram_region_def simp_thms if_False json.distinct,
        simp_all)
qed


text \<open>The figures of a linked image: flash bytes, RAM bytes and the memory regions of its map.\<close>

definition linked_figures :: "renv \<Rightarrow> string \<Rightarrow> int \<Rightarrow> int \<Rightarrow> (string \<times> mem_region) list \<Rightarrow> bool" where
  "linked_figures env build_dir flash ram regions \<longleftrightarrow>
     (\<exists>a sections map_text config. find_artifacts env build_dir = Inr a \<and>
        parse_elf_sections (decode_name env) (files env) (art_elf a) = Inr sections \<and>
        read_lossy env (art_map a) = Inr map_text \<and> parse_config (files env) (art_config a) = Inr config \<and>
        regions = parse_memory_regions map_text \<and> flash = fst (linked_flash env (art_binary a) sections) \<and>
        ram = fst (linked_ram config regions sections))"

lemma measured_figures:
  assumes "measure_linked env build_dir = Inr linked"
  obtains flash ram regions config map_text where "linked_figures env build_dir flash ram regions"
    "map_of linked ''flash_bytes'' = Some (JInt flash)" "map_of linked ''static_ram_bytes'' = Some (JInt ram)"
    "map_of linked ''memory_regions'' = Some (JObj (map region_json regions))"
    "map_of linked ''heap_backing'' = Some (JArr (linked_heaps config map_text))"
    "map_of linked ''thread_stacks'' = Some (JArr (parse_linked_stacks map_text))"
proof -
  from assms obtain a sections map_text config rest where
    parts: "find_artifacts env build_dir = Inr a" "parse_elf_sections (decode_name env) (files env) (art_elf a) = Inr sections"
      "read_lossy env (art_map a) = Inr map_text" "parse_config (files env) (art_config a) = Inr config"
    and linked: "linked = [(''flash_bytes'', JInt (fst (linked_flash env (art_binary a) sections))),
      (''flash_source'', JStr (snd (linked_flash env (art_binary a) sections))),
      (''static_ram_bytes'', JInt (fst (linked_ram config (parse_memory_regions map_text) sections))),
      (''ram_source'', JStr (snd (linked_ram config (parse_memory_regions map_text) sections))),
      (''memory_regions'', JObj (map region_json (parse_memory_regions map_text))),
      (''heap_backing'', JArr (linked_heaps config map_text)),
      (''thread_stacks'', JArr (parse_linked_stacks map_text))] @ rest"
    unfolding measure_linked_def Let_def case_prod_beta bindE_eq_Inr sum.inject
    by (elim exE conjE) (rule that, assumption, assumption, assumption, assumption, unfold append_Cons append_Nil, rule sym)
  show ?thesis
    by (rule that [of "fst (linked_flash env (art_binary a) sections)"
          "fst (linked_ram config (parse_memory_regions map_text) sections)" "parse_memory_regions map_text" config map_text])
       (use parts in \<open>auto simp: linked_figures_def linked\<close>)
qed

lemma linked_figures_unique:
  "linked_figures env build_dir f r rs \<Longrightarrow> linked_figures env build_dir f' r' rs' \<Longrightarrow> f' = f \<and> r' = r \<and> rs' = rs"
  by (auto simp: linked_figures_def)

lemma failing_total:
  "\<forall>row \<in> set rows. row_status row \<noteq> None \<Longrightarrow> \<exists>failed. failing rows = Inr failed"
proof (induction rows)
  case Nil
  then show ?case by (simp add: failing_def)
next
  case (Cons row rows)
  from Cons obtain failed where "failing rows = Inr failed" by auto
  moreover from Cons.prems obtain s where "subscript row ''status'' = Inr s"
    by (cases row) (auto simp: row_status_def subscript_def getitem_def split: option.splits)
  ultimately show ?case by (auto simp: failing_def bindE_eq_Inr)
qed

lemma postlink_decides:
  assumes plan: "map_of plan ''status'' = Some (JStr ''PASS'')" "map_of plan ''checks'' = Some (JArr rows)"
      "\<forall>row \<in> set rows. check_like row" "\<not> list_ex failed_row rows"
      "map_of plan ''deployment'' \<noteq> None" "map_of plan ''target'' \<noteq> None" "map_of plan ''backend'' \<noteq> None"
      "map_of plan ''budgets'' = Some (JObj [(''flash_bytes'', JInt flash_budget), (''ram_bytes'', JInt ram_budget)])"
      "map_of plan ''planned'' = Some (JObj planned)"
      "map_of planned ''application_reservations'' = Some (JObj [(''static_reserve_bytes'', JInt reserve)])"
    and linked: "map_of linked ''flash_bytes'' = Some (JInt flash)" "map_of linked ''static_ram_bytes'' = Some (JInt ram)"
      "map_of linked ''memory_regions'' = Some (JObj (map region_json regions))"
  obtains target backend deployment failed checks where
    "build_postlink_report env plan linked runtime =
       Inr (report_document plan target backend deployment (JObj planned)
         (JObj [(''flash_bytes'', JInt flash_budget), (''ram_bytes'', JInt ram_budget)]) linked runtime failed checks)"
    "\<forall>row \<in> set checks. check_like row"
    "failed = [] \<longleftrightarrow> linked_fits flash ram flash_budget ram_budget reserve regions"
proof -
  let ?b = "JObj [(''flash_bytes'', JInt flash_budget), (''ram_bytes'', JInt ram_budget)]"
  have b: "subscript ?b ''flash_bytes'' = Inr (JInt flash_budget)" "subscript ?b ''ram_bytes'' = Inr (JInt ram_budget)"
    by (simp_all add: subscript_def getitem_def)
  from budget_checks_int [OF linked(1,2) b, of env reserve] obtain bs where
    bs: "budget_checks env linked ?b (JInt reserve) = Inr bs"
      "list_ex failed_row bs \<longleftrightarrow> \<not> (flash \<le> flash_budget \<and> ram + reserve \<le> ram_budget)"
      "\<forall>row \<in> set bs. check_like row" by (elim exE conjE)
  from region_checks_int [OF b, of regions] obtain rs where
    rs: "region_checks (map region_json regions) ?b = Inr rs"
      "list_ex failed_row rs \<longleftrightarrow> \<not> (within_region flash_budget (map_of regions ''FLASH'') \<and>
         within_region ram_budget (ram_region regions))"
      "\<forall>row \<in> set rs. check_like row" by (elim exE conjE)
  have like: "\<forall>row \<in> set (rows @ bs @ rs). check_like row" using plan(3) bs(3) rs(3) by (simp only: set_append ball_Un)
  then have "\<forall>row \<in> set (rows @ bs @ rs). row_status row \<noteq> None" using check_like_status by blast
  from failing_total [OF this] obtain failed where f: "failing (rows @ bs @ rs) = Inr failed" by (elim exE)
  have failed: "failed = [] \<longleftrightarrow> linked_fits flash ram flash_budget ram_budget reserve regions"
    using failing_rows [OF f] plan(4) bs(2) rs(2) by (simp only: list_ex_append linked_fits_def) blast
  from plan(5-7) obtain d t k where l: "map_of plan ''deployment'' = Some d" "map_of plan ''target'' = Some t"
    "map_of plan ''backend'' = Some k" by (simp only: not_None_eq) (elim exE)
  have s: "subscript (JObj planned) ''application_reservations'' = Inr (JObj [(''static_reserve_bytes'', JInt reserve)])"
    "subscript (JObj [(''static_reserve_bytes'', JInt reserve)]) ''static_reserve_bytes'' = Inr (JInt reserve)"
    using plan(10) by (simp_all add: subscript_def getitem_def)
  have "build_postlink_report env plan linked runtime =
      Inr (report_document plan t k d (JObj planned) ?b linked runtime failed (rows @ bs @ rs))"
    unfolding build_postlink_report_def dict_get_def dict_get_default_def getitem_def plan linked l option.case bindE_simps s iter_def
      json.case bs(1) rs(1) Let_def f by simp
  from this like failed show ?thesis by (rule that)
qed

section \<open>The Markdown of a report\<close>

definition slice_like :: "json \<Rightarrow> bool" where
  "slice_like row \<longleftrightarrow> (\<exists>name n source. row = reservation name (JInt n) source)"

lemma slice_like_reservation [simp]: "slice_like (reservation name (JInt n) source)"
  unfolding slice_like_def by (intro exI) (rule refl)

lemma slice_rows_total:
  assumes "\<forall>row \<in> set rows. slice_like row"
  shows "\<exists>lines. slice_rows env kind (JArr rows) = Inr lines"
  unfolding slice_rows_def iter_def json.case bindE_simps
proof (rule mapE_total)
  fix row
  assume "row \<in> set rows"
  with assms obtain name n source where "row = reservation name (JInt n) source" by (auto simp: slice_like_def)
  then show "\<exists>y. bindE (subscript row ''name'') (\<lambda>name.
       bindE (subscript row ''bytes'') (\<lambda>bytes.
       bindE (format_bytes env bytes) (\<lambda>text.
       bindE (subscript row ''source'') (\<lambda>source.
       Inr (''| '' @ kind @ '' | '' @ str_json name @ '' | '' @ text @ '' | '' @ str_json source
            @ '' |''))))) = Inr y"
    by (simp add: reservation_def subscript_def getitem_def format_bytes_def)
qed

lemma check_row_fields:
  "subscript (check_row i c r a s d) ''id'' = Inr (JStr i)" "subscript (check_row i c r a s d) ''code'' = Inr (JStr c)"
  "subscript (check_row i c r a s d) ''required'' = Inr r" "subscript (check_row i c r a s d) ''available'' = Inr a"
  "subscript (check_row i c r a s d) ''status'' = Inr (JStr s)" "subscript (check_row i c r a s d) ''detail'' = Inr (JStr d)"
  by (simp_all add: check_row_def subscript_def getitem_def)

lemma check_rows_total:
  assumes "\<forall>row \<in> set rows. check_like row"
  shows "\<exists>lines. check_rows (JArr rows) = Inr lines"
  unfolding check_rows_def iter_def json.case bindE_simps
proof (rule mapE_total)
  fix row
  assume "row \<in> set rows"
  with assms obtain i c r a s d where row: "row = check_row i c r a s d" unfolding check_like_def by blast
  show "\<exists>y. bindE (subscript row ''id'') (\<lambda>check_id.
       bindE (subscript row ''required'') (\<lambda>required.
       bindE (subscript row ''available'') (\<lambda>available.
       bindE (subscript row ''status'') (\<lambda>status.
       Inr (''| '' @ str_json check_id @ '' | '' @ str_json required @ '' | ''
            @ (if available = JNull then ''missing'' else str_json available) @ '' | ''
            @ str_json status @ '' |''))))) = Inr y"
    unfolding row check_row_fields bindE_simps by (rule exI, rule refl)
qed

lemma linked_slices:
  "\<forall>row \<in> set (linked_heaps config map_text). slice_like row" "\<forall>row \<in> set (parse_linked_stacks map_text). slice_like row"
proof -
  show "\<forall>row \<in> set (linked_heaps config map_text). slice_like row"
    unfolding linked_heaps_def by (auto split: option.splits)
  have "\<exists>es. parse_linked_stacks map_text = stack_rows es"
    unfolding parse_linked_stacks_def
    by (subst map_steps_rows) (auto simp: sound_state_def pending_rows_def)
  then show "\<forall>row \<in> set (parse_linked_stacks map_text). slice_like row"
    by (auto simp: stack_rows_def stack_row_def)
qed

lemma runtime_lines_total:
  assumes "parse_runtime_log env path = Inr runtime"
  shows "\<exists>lines. runtime_lines (JObj runtime) = Inr lines"
proof (cases path)
  case None
  with assms have "runtime = [(''status'', JStr ''not_provided'')]" by (simp add: parse_runtime_log_def)
  then show ?thesis by (simp add: runtime_lines_def subscript_def getitem_def)
next
  case (Some p)
  with assms obtain records where r: "runtime = [(''status'', JStr (if records \<noteq> [] then ''measured'' else ''no_resource_markers'')),
      (''source'', JStr p), (''records'', JArr records)]" and m: "\<forall>r \<in> set records. \<exists>a b. r = JObj [(''marker'', a), (''values'', b)]"
    by (auto simp: parse_runtime_log_def Let_def resource_reject_def log_record_def split: sum.splits)
  have f: "subscript (JObj runtime) ''status'' = Inr (JStr (if records \<noteq> [] then ''measured'' else ''no_resource_markers''))"
    "subscript (JObj runtime) ''source'' = Inr (JStr p)" "subscript (JObj runtime) ''records'' = Inr (JArr records)"
    by (simp_all add: r subscript_def getitem_def)
  have "\<exists>lines. mapE (\<lambda>record. bindE (subscript record ''marker'') (\<lambda>marker.
      bindE (subscript record ''values'') (\<lambda>fields.
      Inr (''- '' @ str_json marker @ '': '' @ str_json fields)))) records = Inr lines"
  proof (rule mapE_total)
    fix x
    assume "x \<in> set records"
    with m obtain a b where "x = JObj [(''marker'', a), (''values'', b)]" by blast
    then show "\<exists>y. bindE (subscript x ''marker'') (\<lambda>marker. bindE (subscript x ''values'') (\<lambda>fields.
      Inr (''- '' @ str_json marker @ '': '' @ str_json fields))) = Inr y"
      by (simp add: subscript_def getitem_def)
  qed
  then obtain lines where "mapE (\<lambda>record. bindE (subscript record ''marker'') (\<lambda>marker.
      bindE (subscript record ''values'') (\<lambda>fields.
      Inr (''- '' @ str_json marker @ '': '' @ str_json fields)))) records = Inr lines" by (elim exE)
  then show ?thesis
    unfolding runtime_lines_def f bindE_simps by (simp add: iter_def)
qed


lemma headroom_row_total:
  "\<exists>line. headroom_row env label (JInt a) (Inr (JInt b)) (Inr (JInt c)) = Inr line"
  by (simp add: headroom_row_def format_bytes_def)

lemma budget_rows_total:
  assumes "map_of linked ''flash_bytes'' = Some (JInt flash)" "map_of linked ''static_ram_bytes'' = Some (JInt ram)"
  shows "\<exists>lines. budget_rows env (JObj [(''flash_bytes'', JInt f), (''ram_bytes'', JInt r)]) (JObj linked) (JInt reserve) = Inr lines"
proof -
  have "subscript (JObj linked) ''flash_bytes'' = Inr (JInt flash)" "subscript (JObj linked) ''static_ram_bytes'' = Inr (JInt ram)"
    "subscript (JObj [(''flash_bytes'', JInt f), (''ram_bytes'', JInt r)]) ''flash_bytes'' = Inr (JInt f)"
    "subscript (JObj [(''flash_bytes'', JInt f), (''ram_bytes'', JInt r)]) ''ram_bytes'' = Inr (JInt r)"
    using assms by (simp_all add: subscript_def getitem_def)
  then show ?thesis
    by (simp add: budget_rows_def Let_def num_sub_def num_add_def headroom_row_def format_bytes_def)
qed

lemma report_markdown_total:
  assumes linked: "map_of linked ''flash_bytes'' = Some (JInt flash)" "map_of linked ''static_ram_bytes'' = Some (JInt ram)"
      "map_of linked ''thread_stacks'' = Some (JArr stacks)" "\<forall>row \<in> set stacks. slice_like row"
      "map_of linked ''heap_backing'' = Some (JArr heaps)" "\<forall>row \<in> set heaps. slice_like row"
    and reserve: "map_of planned ''application_reservations'' = Some (JObj [(''static_reserve_bytes'', JInt reserve)])"
    and runtime: "parse_runtime_log env path = Inr runtime" and rows: "\<forall>row \<in> set rows. check_like row"
  shows "\<exists>markdown. report_markdown env (report_document plan target backend deployment (JObj planned)
    (JObj [(''flash_bytes'', JInt f), (''ram_bytes'', JInt r)]) linked runtime failed rows) = Inr markdown"
proof -
  let ?r = "report_document plan target backend deployment (JObj planned)
    (JObj [(''flash_bytes'', JInt f), (''ram_bytes'', JInt r)]) linked runtime failed rows"
  have fields: "getitem ?r ''linked'' = Inr (JObj linked)"
    "getitem ?r ''status'' = Inr (JStr (if failed \<noteq> [] then ''FAIL'' else ''PASS''))"
    "getitem ?r ''deployment'' = Inr deployment" "getitem ?r ''target'' = Inr target" "getitem ?r ''backend'' = Inr backend"
    "getitem ?r ''budgets'' = Inr (JObj [(''flash_bytes'', JInt f), (''ram_bytes'', JInt r)])"
    "getitem ?r ''runtime_measured'' = Inr (JObj runtime)" "getitem ?r ''checks'' = Inr (JArr rows)"
    "getitem ?r ''accounting_note'' = Inr (JStr accounting_note)"
    "path_get (JObj ?r) [''planned'', ''application_reservations'', ''static_reserve_bytes''] = Inr (JInt reserve)"
    using reserve by (simp_all add: report_document_def getitem_def subscript_def)
  have s: "subscript (JObj linked) ''thread_stacks'' = Inr (JArr stacks)" "subscript (JObj linked) ''heap_backing'' = Inr (JArr heaps)"
    using linked by (simp_all add: subscript_def getitem_def)
  obtain l1 l2 l3 l4 l5 where "budget_rows env (JObj [(''flash_bytes'', JInt f), (''ram_bytes'', JInt r)]) (JObj linked) (JInt reserve) = Inr l1"
    "slice_rows env ''stack'' (JArr stacks) = Inr l2" "slice_rows env ''heap'' (JArr heaps) = Inr l3"
    "runtime_lines (JObj runtime) = Inr l4" "check_rows (JArr rows) = Inr l5"
    using budget_rows_total [OF linked(1,2), of env f r reserve] slice_rows_total [OF linked(4), of env "''stack''"]
      slice_rows_total [OF linked(6), of env "''heap''"] runtime_lines_total [OF runtime] check_rows_total [OF rows]
    by (elim exE) (rule that)
  then show ?thesis unfolding report_markdown_def fields s bindE_simps by (simp only: bindE_simps) (rule exI, rule refl)
qed


lemma conclude_total:
  assumes "build_postlink_report env plan linked runtime = Inr report"
    and "map_of report ''checks'' = Some (JArr rows)" and "\<forall>row \<in> set rows. check_like row"
  shows "\<exists>err line code. conclude report m = Inr (err, line, code)"
proof -
  from link_report.first_failed_report [of "(env, plan, linked, runtime)" report] assms(1,2)
  have f: "first_failed report = Inr (List.find failed_row rows)"
    and s: "map_of report ''status'' = Some (JStr (if List.find failed_row rows = None then ''PASS'' else ''FAIL''))"
    by simp_all
  show ?thesis
  proof (cases "List.find failed_row rows")
    case None
    with s have "map_of report ''status'' = Some (JStr ''PASS'')" by simp
    with link_report.conclude_pass [of "(env, plan, linked, runtime)" report m] assms(1) show ?thesis by auto
  next
    case (Some row)
    then have "row \<in> set rows" by (auto simp: find_Some_iff)
    with assms(3) obtain i c r a s d where row: "row = check_row i c r a s d" unfolding check_like_def by blast
    show ?thesis
      unfolding conclude_def f Some row bindE_simps option.case check_row_fields by (intro exI) (rule refl)
  qed
qed

lemma verify_report:
  assumes plan: "deployment_of document = Some D" "valid_sync backend sync"
      "map_of capability ''workers'' = Some (JObj wk)" "map_of wk ''minimum'' = Some (JInt m)"
      "map_of (dep_targets D) (chosen_target config D target) = Some b" "admits D config backend m b"
      "build_prelink_plan (plan_dict backend document capability) config target sync = Inr P"
    and args: "ra_command args = Verify path build_dir rlog" "resource_load_json (files env) path = Inr P"
    and linked: "measure_linked env build_dir = Inr linked" "linked_figures env build_dir flash ram regions"
    and runtime: "parse_runtime_log env rlog = Inr runtime"
  obtains report markdown err line code where
    "build_report env (ra_command args) = Inr (report, markdown, ''ROS2_ZEPHYR_RESOURCE_VERIFY'')"
    "conclude report ''ROS2_ZEPHYR_RESOURCE_VERIFY'' = Inr (err, line, code)"
    "report_status report ''PASS'' \<longleftrightarrow> linked_fits flash ram (bud_flash b) (bud_ram b) (dep_reserve D) regions"
proof -
  from prelink_plan_decides [OF plan(1-5)] plan(6,7) obtain planned where
    P: "map_of P ''status'' = Some (JStr ''PASS'')"
      "map_of P ''budgets'' = Some (JObj [(''flash_bytes'', JInt (bud_flash b)), (''ram_bytes'', JInt (bud_ram b))])"
      "map_of P ''planned'' = Some (JObj planned)"
      "map_of planned ''application_reservations'' = Some (JObj [(''static_reserve_bytes'', JInt (dep_reserve D))])"
    by (auto simp: verdict_def)
  from prelink_plan_report(1) [OF plan(7)] obtain rows where rows: "map_of P ''checks'' = Some (JArr rows)"
    "\<forall>row \<in> set rows. check_like row" "map_of P ''status'' = Some (JStr (status_of rows))" by (elim exE conjE)
  have "\<not> list_ex failed_row rows"
    using rows(2,3) P(1) status_of_failed [of rows] check_like_status by fastforce
  note plan_rows = P(1) rows(1,2) this
  have labels: "map_of P ''deployment'' \<noteq> None" "map_of P ''target'' \<noteq> None" "map_of P ''backend'' \<noteq> None"
    by (rule prelink_plan_report(2) [OF plan(7)], simp)+
  obtain flash' ram' regions' config' map_text where figures: "linked_figures env build_dir flash' ram' regions'"
    and l: "map_of linked ''flash_bytes'' = Some (JInt flash')" "map_of linked ''static_ram_bytes'' = Some (JInt ram')"
    "map_of linked ''memory_regions'' = Some (JObj (map region_json regions'))"
    "map_of linked ''heap_backing'' = Some (JArr (linked_heaps config' map_text))"
    "map_of linked ''thread_stacks'' = Some (JArr (parse_linked_stacks map_text))"
    by (rule measured_figures [OF linked(1)])
  have eq: "flash' = flash" "ram' = ram" "regions' = regions" using linked_figures_unique [OF linked(2) figures] by simp_all
  obtain t k d failed checks where r: "build_postlink_report env P linked runtime =
       Inr (report_document P t k d (JObj planned)
         (JObj [(''flash_bytes'', JInt (bud_flash b)), (''ram_bytes'', JInt (bud_ram b))]) linked runtime failed checks)"
      "\<forall>row \<in> set checks. check_like row"
    and fits: "failed = [] \<longleftrightarrow> linked_fits flash' ram' (bud_flash b) (bud_ram b) (dep_reserve D) regions'"
    by (rule postlink_decides [OF plan_rows labels P(2-4) l(1-3)])
  let ?r = "report_document P t k d (JObj planned)
         (JObj [(''flash_bytes'', JInt (bud_flash b)), (''ram_bytes'', JInt (bud_ram b))]) linked runtime failed checks"
  from report_markdown_total [OF l(1,2,5) linked_slices(2) l(4) linked_slices(1) P(4) runtime r(2)]
  obtain markdown where md: "report_markdown env ?r = Inr markdown" by blast
  have c: "map_of ?r ''checks'' = Some (JArr checks)"
    "report_status ?r ''PASS'' \<longleftrightarrow> failed = []"
    by (simp_all add: report_document_def report_status_def)
  have b: "build_report env (ra_command args) = Inr (?r, markdown, ''ROS2_ZEPHYR_RESOURCE_VERIFY'')"
    unfolding args(1) build_report_def command.case args(2) linked(1) runtime r(1) bindE_simps md ..
  from conclude_total [OF r(1) c(1) r(2)] obtain err line code where
    "conclude ?r ''ROS2_ZEPHYR_RESOURCE_VERIFY'' = Inr (err, line, code)" by blast
  from b this fits [folded c(2), unfolded eq] show ?thesis by (rule that)
qed

section \<open>A build\<close>

definition example_text :: elf_section where
  "example_text = \<lparr>sec_name = ''text'', sec_address = 4096, sec_size = 512, sec_type = 1, sec_flags = 6\<rparr>"

definition example_build :: "dict \<Rightarrow> renv" where
  "example_build plan =
     \<lparr>files = (\<lambda>p. if p = ''plan'' then Regular ((text_file [])\<lparr>decoded := Json_document (JObj plan)\<rparr>)
        else if p = ''b/zephyr.elf'' then Regular ((text_file [])\<lparr>content := elf_image False True [example_text]\<rparr>)
        else if p = ''b/zephyr.map'' \<or> p = ''b/.config'' then Regular (text_file []) else Absent ''missing''),
      decode_name = ascii_dec, mkdir_fails = (\<lambda>_. None), write_fails = (\<lambda>_. None),
      float_plus = (\<lambda>a b. a), float_minus = (\<lambda>a b. a), float_grouped = (\<lambda>_. [])\<rparr>"

definition example_verify :: resource_args where
  "example_verify = \<lparr>ra_command = Verify ''plan'' ''b'' None, ra_json = ''r.json'', ra_markdown = ''r.md''\<rparr>"

lemma example_figures:
  "\<exists>linked. measure_linked (example_build plan) ''b'' = Inr linked"
  "linked_figures (example_build plan) ''b'' (sum_sizes occupies_flash (with_names [example_text]))
     (sum_sizes occupies_ram (with_names [example_text])) []"
proof -
  let ?a = "\<lparr>art_elf = ''b/zephyr.elf'', art_map = ''b/zephyr.map'', art_config = ''b/.config'', art_binary = ''b/zephyr.bin''\<rparr>"
  have "image_ok False [example_text]"
    by (simp add: example_text_def image_ok_def section_ok_def name_ok_def word_size_def name_bytes_def)
  note elf = parse_elf_image [OF ascii_dec_ok this]
  have f: "find_artifacts (example_build plan) ''b'' = Inr ?a"
    by (simp add: find_artifacts_def Let_def is_dir_def is_file_def example_build_def path_join_def startswith_def endswith_def)
  have p: "parse_elf_sections (decode_name (example_build plan)) (files (example_build plan)) (art_elf ?a) =
      Inr (with_names [example_text])"
    by (simp add: parse_elf_sections_def example_build_def open_file_def elf)
  have m: "read_lossy (example_build plan) (art_map ?a) = Inr []" "parse_config (files (example_build plan)) (art_config ?a) = Inr []"
    "parse_memory_regions [] = []" "linked_flash (example_build plan) (art_binary ?a) secs =
      (sum_sizes occupies_flash secs, ''ELF allocated file-backed sections'')"
    "linked_ram [] [] secs = (sum_sizes occupies_ram secs, ''ELF allocated writable sections'')" for secs
    by (simp_all add: read_lossy_def parse_config_def example_build_def open_file_def text_file_def parse_config_text_def
        splitlines_def parse_memory_regions_def linked_flash_def linked_ram_def)
  show "\<exists>linked. measure_linked (example_build plan) ''b'' = Inr linked"
    unfolding measure_linked_def f bindE_simps p m Let_def by (simp only: prod.case) (rule exI, rule refl)
  show "linked_figures (example_build plan) ''b'' (sum_sizes occupies_flash (with_names [example_text]))
     (sum_sizes occupies_ram (with_names [example_text])) []"
    unfolding linked_figures_def using f p m by (metis fst_conv)
qed

lemma example_fits:
  "linked_fits (sum_sizes occupies_flash (with_names [example_text])) (sum_sizes occupies_ram (with_names [example_text]))
     500000 400000 1024 []"
  by (simp add: linked_fits_def within_region_def ram_region_def sum_sizes_def with_names_def Let_def example_text_def
      occupies_flash_def occupies_ram_def alloc_def writable_def)

lemma example_plan:
  obtains P where "build_prelink_plan (plan_dict ''rmw_cyclonedds_c'' (deployment_json example_deployment)
      cyclonedds_capability) example_config ''native_sim'' ''posix'' = Inr P"
  using prelink_plan_decides [OF deployment_of_json [of example_deployment], of "''rmw_cyclonedds_c''" "''posix''"
      cyclonedds_capability "[(''minimum'', JInt 5), (''configuration'', JStr ''CONFIG_ROS2_ZEPHYR_CYCLONEDDS_THREAD_COUNT'')]"
      5 example_config "''native_sim''" "\<lparr>bud_flash = 500000, bud_ram = 400000\<rparr>"]
  by (simp add: valid_sync_def cyclonedds_capability_def chosen_target_def example_config_def)
     (simp add: example_deployment_def, blast)

lemma example_build_facts:
  "\<exists>linked. measure_linked (example_build P) ''b'' = Inr linked"
  "valid_sync ''rmw_cyclonedds_c'' ''posix''"
  "map_of cyclonedds_capability ''workers'' = Some (JObj [(''minimum'', JInt 5),
      (''configuration'', JStr ''CONFIG_ROS2_ZEPHYR_CYCLONEDDS_THREAD_COUNT'')])"
  "map_of [(''minimum'', JInt 5), (''configuration'', JStr ''CONFIG_ROS2_ZEPHYR_CYCLONEDDS_THREAD_COUNT'')] ''minimum''
      = Some (JInt 5)"
  "map_of (dep_targets example_deployment) (chosen_target example_config example_deployment ''native_sim'') =
      Some \<lparr>bud_flash = 500000, bud_ram = 400000\<rparr>"
  "ra_command example_verify = Verify ''plan'' ''b'' None"
  "resource_load_json (files (example_build P)) ''plan'' = Inr P"
  "parse_runtime_log (example_build P) None = Inr [(''status'', JStr ''not_provided'')]"
  "\<forall>p. mkdir_fails (example_build P) p = None" "\<forall>p. write_fails (example_build P) p = None"
  "dep_reserve example_deployment = 1024"
  by (rule example_figures, simp_all add: valid_sync_def cyclonedds_capability_def chosen_target_def example_config_def
      example_deployment_def example_verify_def resource_load_json_def example_build_def open_file_def text_file_def
      parse_runtime_log_def)

section \<open>Properties\<close>

text \<open>
  Property C29. When no write fails, \<open>verify_resources.py\<close> exits with 0 exactly when the report of its
  command is built and has status \<open>PASS\<close>; its effects are then the two report files, the JSON document
  and the Markdown, each after the creation of its directory.
\<close>

theorem resource_main_exit:
  assumes "\<forall>p. mkdir_fails env p = None" and "\<forall>p. write_fails env p = None"
  shows "(\<exists>line. resource_main env args = (log, Inr (False, line, 0))) \<longleftrightarrow>
    (\<exists>report markdown marker. build_report env (ra_command args) = Inr (report, markdown, marker) \<and>
       report_status report ''PASS'' \<and> log = report_effects args report markdown)"
proof
  assume "\<exists>line. resource_main env args = (log, Inr (False, line, 0))"
  then show "\<exists>report markdown marker. build_report env (ra_command args) = Inr (report, markdown, marker) \<and>
       report_status report ''PASS'' \<and> log = report_effects args report markdown"
    by (elim exE) (drule resource_main_Inr, simp, blast)
next
  assume "\<exists>report markdown marker. build_report env (ra_command args) = Inr (report, markdown, marker) \<and>
       report_status report ''PASS'' \<and> log = report_effects args report markdown"
  then obtain report markdown marker where b: "build_report env (ra_command args) = Inr (report, markdown, marker)"
    and p: "report_status report ''PASS''" and log: "log = report_effects args report markdown" by (elim exE conjE)
  from conclude_passes [OF b p, of marker] obtain line where "conclude report marker = Inr (False, line, 0)" by (elim exE)
  then show "\<exists>line. resource_main env args = (log, Inr (False, line, 0))"
    using b assms by (simp add: resource_main_def resource_run_def write_report_ok log report_effects_def)
qed

theorem resource_main_exit_witness:
  "\<exists>P report markdown line. report_status report ''PASS'' \<and>
     resource_main (example_build P) example_verify = (report_effects example_verify report markdown, Inr (False, line, 0))"
proof -
  obtain P where P: "build_prelink_plan (plan_dict ''rmw_cyclonedds_c'' (deployment_json example_deployment)
      cyclonedds_capability) example_config ''native_sim'' ''posix'' = Inr P" by (rule example_plan)
  note ex = example_build_facts
  from ex(1) obtain linked where linked: "measure_linked (example_build P) ''b'' = Inr linked" by blast
  obtain report markdown err line code where
    r: "build_report (example_build P) (ra_command example_verify) = Inr (report, markdown, ''ROS2_ZEPHYR_RESOURCE_VERIFY'')"
    and "report_status report ''PASS'' \<longleftrightarrow> linked_fits (sum_sizes occupies_flash (with_names [example_text]))
       (sum_sizes occupies_ram (with_names [example_text])) 500000 400000 1024 []"
    by (rule verify_report [OF deployment_of_json ex(2-5) example_admitted P ex(6,7) linked example_figures(2) ex(8)])
       (simp add: ex(11))
  then have "report_status report ''PASS''" using example_fits by simp
  with r resource_main_exit [OF ex(9,10), of P example_verify "report_effects example_verify report markdown"]
  show ?thesis by blast
qed

text \<open>
  Property C30. From the deployment to the linked image: let a deployment be accepted, the
  configuration admit it, and the plan be the one \<open>plan\<close> made of it. When the artifacts of a build and
  the runtime log are readable and no write fails, \<open>verify\<close> returns, and its exit status is 0 exactly
  when the measured flash is within the target's budget, the measured RAM with the deployment's
  reserve is within its RAM budget, and both budgets fit the memory regions of the linker map;
  otherwise it is 2.
\<close>

theorem verify_decides:
  assumes plan: "deployment_of document = Some D" "valid_sync backend sync"
      "map_of capability ''workers'' = Some (JObj wk)" "map_of wk ''minimum'' = Some (JInt m)"
      "map_of (dep_targets D) (chosen_target config D target) = Some b" "admits D config backend m b"
      "build_prelink_plan (plan_dict backend document capability) config target sync = Inr P"
    and args: "ra_command args = Verify path build_dir rlog" "resource_load_json (files env) path = Inr P"
    and linked: "measure_linked env build_dir = Inr linked" "linked_figures env build_dir flash ram regions"
    and runtime: "parse_runtime_log env rlog = Inr runtime"
    and writes: "\<forall>p. mkdir_fails env p = None" "\<forall>p. write_fails env p = None"
  shows "\<exists>log line. resource_main env args = (log, Inr
    (if linked_fits flash ram (bud_flash b) (bud_ram b) (dep_reserve D) regions then (False, line, 0) else (True, line, 2)))"
proof -
  let ?fits = "linked_fits flash ram (bud_flash b) (bud_ram b) (dep_reserve D) regions"
  obtain report markdown err line code where
    r: "build_report env (ra_command args) = Inr (report, markdown, ''ROS2_ZEPHYR_RESOURCE_VERIFY'')"
      "conclude report ''ROS2_ZEPHYR_RESOURCE_VERIFY'' = Inr (err, line, code)"
      "report_status report ''PASS'' \<longleftrightarrow> ?fits"
    by (rule verify_report [OF plan args linked runtime])
  have "resource_main env args = (report_effects args report markdown, Inr (err, line, code))"
    using writes by (simp add: resource_main_def resource_run_def r(1,2) write_report_ok report_effects_def)
  moreover have "report_status report ''FAIL'' \<Longrightarrow> \<not> report_status report ''PASS''" by (simp add: report_status_def)
  then have "(err, line, code) = (if ?fits then (False, line, 0) else (True, line, 2))"
    using conclude_agrees [OF r(1,2)] r(3) by auto
  ultimately show ?thesis by simp
qed

theorem verify_decides_witness:
  "\<exists>P log line. build_prelink_plan (plan_dict ''rmw_cyclonedds_c'' (deployment_json example_deployment)
      cyclonedds_capability) example_config ''native_sim'' ''posix'' = Inr P \<and>
    resource_main (example_build P) example_verify = (log, Inr (False, line, 0))"
proof -
  obtain P where P: "build_prelink_plan (plan_dict ''rmw_cyclonedds_c'' (deployment_json example_deployment)
      cyclonedds_capability) example_config ''native_sim'' ''posix'' = Inr P" by (rule example_plan)
  note ex = example_build_facts
  from ex(1) obtain linked where linked: "measure_linked (example_build P) ''b'' = Inr linked" by blast
  from verify_decides [OF deployment_of_json ex(2-5) example_admitted P ex(6,7) linked example_figures(2) ex(8-10)]
    example_fits ex(11) P show ?thesis by auto
qed

end
