(* ===== verification/Py_Loop.thy ===== *)
theory Py_Loop
  imports Py_Base
begin

text \<open>
  The polling loop that the capture tool and the desktop peers share:
  \<open>while guard and time.monotonic() < deadline: body\<close>. The clock and the devices behind the body
  belong to a world outside the program, so the loop need not return; a round that returns nothing
  goes on. Clock readings are integers, in microseconds. Two rules carry all the proofs: a state
  that every round keeps, and that the loop returns when every round takes time.
\<close>

partial_function (option) poll ::
  "('s \<Rightarrow> bool \<times> 's) \<Rightarrow> ('s \<Rightarrow> int \<times> 's) \<Rightarrow> ('s \<Rightarrow> 'r option \<times> 's) \<Rightarrow> int \<Rightarrow> 's \<Rightarrow> ('r option \<times> 's) option" where
  "poll guard clock body deadline s =
     (case guard s of (go, s0) \<Rightarrow>
      if \<not> go then Some (None, s0) else
      case clock s0 of (now, s1) \<Rightarrow>
      if \<not> now < deadline then Some (None, s1) else
      case body s1 of (result, s2) \<Rightarrow>
      (case result of Some r \<Rightarrow> Some (Some r, s2) | None \<Rightarrow> poll guard clock body deadline s2))"

text \<open>The loop without a condition of its own.\<close>

definition always :: "'s \<Rightarrow> bool \<times> 's" where
  "always s = (True, s)"

lemma always_simps [simp]: "fst (always s)" "snd (always s) = s"
  by (simp_all add: always_def)

text \<open>
  Partial correctness: \<open>I\<close> holds before every round. A loop that stops without a result has found
  the guard false or the deadline passed.
\<close>

lemma poll_rule:
  fixes guard :: "'s \<Rightarrow> bool \<times> 's" and Q :: "'r option \<Rightarrow> 's \<Rightarrow> bool"
  assumes "poll guard clock body deadline s = Some (result, s')" and "I s"
    and guard: "\<And>s. I s \<Longrightarrow> I (snd (guard s))"
    and clock: "\<And>s. I s \<Longrightarrow> I (snd (clock s))"
    and body: "\<And>s s'. I s \<Longrightarrow> body s = (None, s') \<Longrightarrow> I s'"
    and stop: "\<And>s r s'. I s \<Longrightarrow> body s = (Some r, s') \<Longrightarrow> Q (Some r) s'"
    and idle: "\<And>s. I s \<Longrightarrow> Q None s"
  shows "Q result s'"
proof -
  define P where "P = (\<lambda>g c b d s (out :: 'r option \<times> 's). g = guard \<longrightarrow> c = clock \<longrightarrow> b = body \<longrightarrow> d = deadline \<longrightarrow>
    I s \<longrightarrow> Q (fst out) (snd out))"
  from assms(1) have "P guard clock body deadline s (result, s')"
  proof (rule poll.raw_induct [rotated])
    fix rec and g :: "'s \<Rightarrow> bool \<times> 's" and c :: "'s \<Rightarrow> int \<times> 's" and b d s out
    assume IH: "\<And>g c b d s out. rec g c b d s = Some out \<Longrightarrow> P g c b d s out"
      and eq: "(case g s of (go, s0) \<Rightarrow> if \<not> go then Some (None, s0) else
        case c s0 of (now, s1) \<Rightarrow> if \<not> now < d then Some (None, s1) else
        case b s1 of (result, s2) \<Rightarrow>
        (case result of Some r \<Rightarrow> Some (Some r, s2) | None \<Rightarrow> rec g c b d s2)) = Some out"
    obtain go s0 where g: "g s = (go, s0)" by (cases "g s")
    obtain now s1 where c: "c s0 = (now, s1)" by (cases "c s0")
    obtain res s2 where b: "b s1 = (res, s2)" by (cases "b s1")
    show "P g c b d s out"
      unfolding P_def
    proof (intro impI)
      assume p: "g = guard" "c = clock" "b = body" "d = deadline" and I: "I s"
      have I0: "I s0" using guard [OF I] g p by simp
      have I1: "I s1" using clock [OF I0] c p by simp
      show "Q (fst out) (snd out)"
      proof (cases "go \<and> now < d")
        case False
        with eq g c idle [OF I0] idle [OF I1] show ?thesis by (auto split: if_splits)
      next
        case True
        show ?thesis
        proof (cases res)
          case None
          with True eq g c b have "rec g c b d s2 = Some out" by simp
          from IH [OF this] p body [OF I1 b [unfolded None p]] show ?thesis by (simp add: P_def)
        next
          case (Some r)
          with True eq g c b p stop [OF I1] show ?thesis by auto
        qed
      qed
    qed
  qed
  with assms(2) show ?thesis by (simp add: P_def)
qed

text \<open>
  Termination: when every round that goes on takes time, the loop returns. \<open>now\<close> is the time of a
  state; a reading of the clock is the time after it.
\<close>

definition reads_time :: "('s \<Rightarrow> int) \<Rightarrow> ('s \<Rightarrow> int \<times> 's) \<Rightarrow> bool" where
  "reads_time now clock \<longleftrightarrow> (\<forall>s. fst (clock s) = now (snd (clock s)) \<and> now s \<le> now (snd (clock s)))"

lemma poll_returns:
  assumes clock: "reads_time now clock"
    and guard: "\<And>s. now s \<le> now (snd (guard s))"
    and body: "\<And>s s'. body s = (None, s') \<Longrightarrow> now s < now s'"
  shows "\<exists>result s'. poll guard clock body deadline s = Some (result, s')"
proof (induction "nat (deadline - now s)" arbitrary: s rule: less_induct)
  case less
  obtain go s0 where g: "guard s = (go, s0)" by (cases "guard s")
  obtain t s1 where c: "clock s0 = (t, s1)" by (cases "clock s0")
  obtain res s2 where b: "body s1 = (res, s2)" by (cases "body s1")
  show ?case
  proof (cases "go \<and> t < deadline \<and> res = None")
    case True
    from guard [of s] g have "now s \<le> now s0" by simp
    moreover from clock c have "now s0 \<le> now s1" "t = now s1" unfolding reads_time_def by (metis fst_conv snd_conv)+
    moreover from body b True have "now s1 < now s2" by simp
    ultimately have "nat (deadline - now s2) < nat (deadline - now s)" using True by simp
    from less [OF this] True g c b show ?thesis by (subst poll.simps) simp
  next
    case False
    with g c b show ?thesis by (subst poll.simps) (auto split: option.splits)
  qed
qed

end
