(* ===== verification/Serial_Capture.thy ===== *)
theory Serial_Capture
  imports Py_Loop Py_Text "HOL-Library.Word"
begin

text \<open>
  \<open>src/samples/loopback/capture_esp32.py\<close>: the capture of a serial port until a marker was seen in
  enough lines. The serial library, the reset and the clock are operations on a world that is a
  parameter; the errors \<open>OSError\<close> and \<open>SerialException\<close>, which is one, are \<open>OSError\<close> here. The tool is
  shown to return on every device, and to count exactly the complete lines with the marker as long as
  lines are no longer than what it keeps when it cuts its buffer.
\<close>

section \<open>Searching bytes\<close>

type_synonym octets = "8 word list"

text \<open>\<open>s.find(sub)\<close> and \<open>s.find(sub, start)\<close>.\<close>

fun find_in :: "'a list \<Rightarrow> 'a list \<Rightarrow> nat option" where
  "find_in sub [] = (if sub = [] then Some 0 else None)"
| "find_in sub (c # cs) =
     (if take (length sub) (c # cs) = sub then Some 0 else map_option Suc (find_in sub cs))"

definition find_from :: "'a list \<Rightarrow> 'a list \<Rightarrow> nat \<Rightarrow> nat option" where
  "find_from sub s start =
     (if length s < start then None else map_option (\<lambda>i. start + i) (find_in sub (drop start s)))"

text \<open>\<open>str.encode()\<close> on code points up to 255.\<close>

definition utf8_char :: "char \<Rightarrow> octets" where
  "utf8_char c =
     (if ord c < 128 then [of_nat (ord c)] else [of_nat (192 + ord c div 64), of_nat (128 + ord c mod 64)])"

definition encode :: "string \<Rightarrow> octets" where
  "encode s = concat (map utf8_char s)"

section \<open>The buffer\<close>

definition newline :: "8 word" where "newline = 10"

lemma find_from_bounds: "find_from sub s start = Some i \<Longrightarrow> start \<le> i"
  by (auto simp: find_from_def split: if_splits)

lemma find_in_bound: "find_in sub s = Some i \<Longrightarrow> i + length sub \<le> length s"
proof (induction s arbitrary: i)
  case (Cons c cs)
  show ?case
  proof (cases "take (length sub) (c # cs) = sub")
    case True
    with Cons.prems have "i = 0" by simp
    moreover from True have "length sub \<le> length (c # cs)" by (metis length_take min.cobounded1)
    ultimately show ?thesis by simp
  qed (use Cons in auto)
qed (auto split: if_splits)

text \<open>
  The inner loop: count a marker whose line is complete, drop everything up to the end of that line,
  and stop as soon as there are enough.
\<close>

function drain :: "octets \<Rightarrow> int \<Rightarrow> int \<Rightarrow> octets \<Rightarrow> bool \<times> int \<times> octets" where
  "drain marker minimum matches recent =
     (case find_in marker recent of
        None \<Rightarrow> (False, matches, recent)
      | Some marker_index \<Rightarrow>
          (case find_from [newline] recent (marker_index + length marker) of
             None \<Rightarrow> (False, matches, recent)
           | Some line_end \<Rightarrow>
               if minimum \<le> matches + 1 then (True, matches + 1, drop (line_end + 1) recent)
               else drain marker minimum (matches + 1) (drop (line_end + 1) recent)))"
  by pat_completeness auto
termination
proof (relation "measure (\<lambda>(marker, minimum, matches, recent). length recent)", goal_cases)
  case (2 marker minimum matches recent marker_index line_end)
  then have "recent \<noteq> []" by (auto simp: find_from_def split: if_splits)
  then show ?case by simp
qed simp

declare drain.simps [simp del]

definition trim :: "octets \<Rightarrow> octets" where
  "trim recent = (if 4096 < length recent then drop (length recent - 2048) recent else recent)"

section \<open>The tool\<close>

record 'w serial_env =
  sv_clock :: "'w \<Rightarrow> int \<times> 'w"
  sv_create :: "'w \<Rightarrow> unit res \<times> 'w"
  sv_open :: "'w \<Rightarrow> unit res \<times> 'w"
  sv_reset :: "'w \<Rightarrow> unit res \<times> 'w"
  sv_read :: "'w \<Rightarrow> octets res \<times> 'w"
  sv_close :: "'w \<Rightarrow> 'w"
  sv_sleep :: "int \<Rightarrow> 'w \<Rightarrow> 'w"

record capture_args =
  ca_device :: string
  ca_timeout :: int
  ca_until :: string
  ca_minimum :: int
  ca_no_reset :: bool
  ca_reconnect :: bool

record 'w capture =
  cs_world :: 'w
  cs_port :: bool
  cs_reset :: bool
  cs_recent :: octets
  cs_matches :: int
  cs_out :: octets

definition call :: "('w \<Rightarrow> 'a \<times> 'w) \<Rightarrow> 'w capture \<Rightarrow> 'a \<times> 'w capture" where
  "call f st = (case f (cs_world st) of (x, w) \<Rightarrow> (x, st\<lparr>cs_world := w\<rparr>))"

text \<open>The creation of the port, its opening with DTR low, and the reset that is still due.\<close>

definition attach :: "'w serial_env \<Rightarrow> 'w capture \<Rightarrow> unit res \<times> 'w capture" where
  "attach env st =
     (if cs_port st then (Inr (), st) else
      case call (sv_create env) st of
        (Inl e, st1) \<Rightarrow> (Inl e, st1)
      | (Inr _, st1) \<Rightarrow>
          (case call (sv_open env) (st1\<lparr>cs_port := True\<rparr>) of
             (Inl e, st2) \<Rightarrow> (Inl e, st2)
           | (Inr _, st2) \<Rightarrow>
               if \<not> cs_reset st2 then (Inr (), st2) else
               (case call (sv_reset env) st2 of
                  (Inl e, st3) \<Rightarrow> (Inl e, st3)
                | (Inr _, st3) \<Rightarrow> (Inr (), st3\<lparr>cs_reset := False\<rparr>))))"

definition next_chunk :: "'w serial_env \<Rightarrow> 'w capture \<Rightarrow> octets res \<times> 'w capture" where
  "next_chunk env st =
     (case attach env st of (Inl e, st1) \<Rightarrow> (Inl e, st1) | (Inr _, st1) \<Rightarrow> call (sv_read env) st1)"

definition close_port :: "'w serial_env \<Rightarrow> 'w capture \<Rightarrow> 'w capture" where
  "close_port env st = (if cs_port st then st\<lparr>cs_world := sv_close env (cs_world st)\<rparr> else st)"

text \<open>One round of the outer loop: the message and the exit status, or an exception, or nothing yet.\<close>

definition capture_round ::
  "'w serial_env \<Rightarrow> capture_args \<Rightarrow> 'w capture \<Rightarrow> (string \<times> int) res option \<times> 'w capture" where
  "capture_round env a st =
     (case next_chunk env st of
        (Inl (OSError err), st1) \<Rightarrow>
          let st2 = (close_port env st1)\<lparr>cs_port := False\<rparr> in
          if \<not> ca_reconnect a
          then (Some (Inr (''serial error on '' @ ca_device a @ '': '' @ err, 1)), st2)
          else (None, st2\<lparr>cs_world := sv_sleep env 200000 (cs_world st2)\<rparr>)
      | (Inl e, st1) \<Rightarrow> (Some (Inl e), st1)
      | (Inr chunk, st1) \<Rightarrow>
          if chunk = [] then (None, st1) else
          case drain (encode (ca_until a)) (ca_minimum a) (cs_matches st1) (cs_recent st1 @ chunk) of
            (enough, matches, recent) \<Rightarrow>
              let st2 = st1\<lparr>cs_out := cs_out st1 @ chunk, cs_matches := matches, cs_recent := recent\<rparr> in
              if enough then (Some (Inr ([], 0)), close_port env st2)
              else (None, st2\<lparr>cs_recent := trim recent\<rparr>))"

definition capture_start :: "capture_args \<Rightarrow> 'w \<Rightarrow> 'w capture" where
  "capture_start a w =
     \<lparr>cs_world = w, cs_port = False, cs_reset = (\<not> ca_no_reset a), cs_recent = [], cs_matches = 0, cs_out = []\<rparr>"

definition timeout_message :: "capture_args \<Rightarrow> int \<Rightarrow> string" where
  "timeout_message a matches =
     ''serial timeout: observed '' @ show_int matches @ ''/'' @ show_int (ca_minimum a) @ '' complete ''
     @ repr_str (ca_until a) @ '' markers on '' @ ca_device a"

definition capture_main ::
  "'w serial_env \<Rightarrow> capture_args \<Rightarrow> 'w \<Rightarrow> ((string \<times> int) res \<times> 'w capture) option" where
  "capture_main env a w =
     (if ca_minimum a < 1
      then Some (Inr (''--minimum-matches must be positive'', 2), capture_start a w)
      else
      case call (sv_clock env) (capture_start a w) of (now, st) \<Rightarrow>
      (case poll always (call (sv_clock env)) (capture_round env a) (now + ca_timeout a) st of
         None \<Rightarrow> None
       | Some (Some result, st1) \<Rightarrow> Some (result, st1)
       | Some (None, st1) \<Rightarrow>
           Some (Inr (timeout_message a (cs_matches st1), 1), close_port env st1)))"

section \<open>Occurrences\<close>

definition occurs :: "'a list \<Rightarrow> 'a list \<Rightarrow> bool" where
  "occurs sub s \<longleftrightarrow> (\<exists>a b. s = a @ sub @ b)"

lemma occurs_append: "occurs sub s \<Longrightarrow> occurs sub (a @ s @ b)"
  unfolding occurs_def by (metis append.assoc)

lemma find_in_Some:
  assumes "find_in sub s = Some i"
  shows "s = take i s @ sub @ drop (i + length sub) s" and "s = a @ sub @ b \<Longrightarrow> i \<le> length a"
proof -
  show "s = take i s @ sub @ drop (i + length sub) s"
    using assms
  proof (induction s arbitrary: i)
    case (Cons c cs)
    show ?case
    proof (cases "take (length sub) (c # cs) = sub")
      case True
      with Cons.prems have "i = 0" by simp
      with True show ?thesis by (metis append_take_drop_id append_Nil plus_nat.add_0 take0)
    next
      case False
      with Cons.prems obtain j where "i = Suc j" "find_in sub cs = Some j" by auto
      with Cons.IH [of j] show ?thesis by simp
    qed
  qed (auto split: if_splits)
  show "i \<le> length a" if "s = a @ sub @ b"
    using assms that
  proof (induction s arbitrary: i a)
    case (Cons c cs)
    show ?case
    proof (cases "take (length sub) (c # cs) = sub")
      case False
      with Cons.prems(1) obtain j where "i = Suc j" "find_in sub cs = Some j" by (simp only: find_in.simps) auto
      moreover from False Cons.prems(2) obtain a' where "a = c # a'" "cs = a' @ sub @ b" by (cases a) auto
      ultimately show ?thesis using Cons.IH by auto
    next
      case True
      with Cons.prems(1) have "i = 0" by (simp only: find_in.simps if_P option.inject)
      then show ?thesis by simp
    qed
  qed (auto split: if_splits)
qed

lemma find_in_prefix: "find_in sub (sub @ b) = Some 0"
  by (cases "sub @ b") (simp_all, metis append_eq_conv_conj)

lemma find_in_iff: "find_in sub s \<noteq> None \<longleftrightarrow> occurs sub s"
proof
  assume "find_in sub s \<noteq> None"
  then show "occurs sub s" unfolding occurs_def using find_in_Some(1) by blast
next
  assume "occurs sub s"
  then obtain a b where "s = a @ sub @ b" unfolding occurs_def by blast
  then show "find_in sub s \<noteq> None"
  proof (induction a arbitrary: s)
    case Nil
    then show ?case by (simp add: find_in_prefix)
  next
    case (Cons c a)
    then show ?case by (cases s) auto
  qed
qed

section \<open>Lines\<close>

text \<open>The complete lines of a stream, and the line that is still open at its end.\<close>

function lines_of :: "octets \<Rightarrow> octets list" where
  "lines_of s =
     (if newline \<in> set s
      then takeWhile (\<lambda>c. c \<noteq> newline) s # lines_of (tl (dropWhile (\<lambda>c. c \<noteq> newline) s)) else [])"
  by pat_completeness auto
termination
proof (relation "measure length", goal_cases)
  case (2 s)
  then have "dropWhile (\<lambda>c. c \<noteq> newline) s \<noteq> []" by auto
  then have "length (tl (dropWhile (\<lambda>c. c \<noteq> newline) s)) < length (dropWhile (\<lambda>c. c \<noteq> newline) s)" by simp
  also have "\<dots> \<le> length s" by (rule length_dropWhile_le)
  finally show ?case by simp
qed simp

declare lines_of.simps [simp del]

definition open_line :: "octets \<Rightarrow> octets" where
  "open_line s = rev (takeWhile (\<lambda>c. c \<noteq> newline) (rev s))"

definition marked :: "octets \<Rightarrow> octets \<Rightarrow> nat" where
  "marked marker s = length (filter (occurs marker) (lines_of s))"

lemma lines_of_line: "newline \<notin> set l \<Longrightarrow> lines_of (l @ newline # s) = l # lines_of s"
proof -
  assume "newline \<notin> set l"
  then have "takeWhile (\<lambda>c. c \<noteq> newline) (l @ newline # s) = l" "dropWhile (\<lambda>c. c \<noteq> newline) (l @ newline # s) = newline # s"
    by (induction l) auto
  then show ?thesis by (subst lines_of.simps) simp
qed

lemma lines_of_open: "newline \<notin> set l \<Longrightarrow> lines_of l = []"
  by (subst lines_of.simps) simp

lemma open_line_simps:
  "newline \<notin> set l \<Longrightarrow> open_line l = l" "newline \<notin> set l \<Longrightarrow> open_line (s @ newline # l) = l"
proof -
  have whole: "takeWhile (\<lambda>c. c \<noteq> newline) r = r" if "newline \<notin> set r" for r
    using that by (induction r) auto
  have prefix: "takeWhile (\<lambda>c. c \<noteq> newline) (r @ newline # t) = r" if "newline \<notin> set r" for r t
    using that by (induction r) auto
  show "open_line l = l" if "newline \<notin> set l"
    unfolding open_line_def using whole [of "rev l"] that by (metis rev_rev_ident set_rev)
  show "open_line (s @ newline # l) = l" if "newline \<notin> set l"
    unfolding open_line_def using prefix [of "rev l" "rev s"] that by simp
qed

text \<open>A stream without a newline, or its last newline and the open line.\<close>

lemma stream_cases:
  obtains "newline \<notin> set s" | a l where "s = a @ newline # l" "newline \<notin> set l"
  by (metis split_list_last)

lemma lines_of_append: "lines_of (a @ newline # s) = lines_of (a @ [newline]) @ lines_of s"
proof (induction a rule: length_induct)
  case (1 a)
  show ?case
  proof (cases "newline \<in> set a")
    case True
    then obtain l r where a: "a = l @ newline # r" "newline \<notin> set l" by (metis split_list_first)
    with "1.IH" have "lines_of (r @ newline # s) = lines_of (r @ [newline]) @ lines_of s" by simp
    with a show ?thesis by (simp add: lines_of_line)
  next
    case False
    then show ?thesis by (simp add: lines_of_line lines_of_open)
  qed
qed

lemma lines_of_extend: "lines_of (s @ t) = lines_of s @ lines_of (open_line s @ t)"
proof (cases s rule: stream_cases)
  case 1
  then show ?thesis by (simp add: lines_of_open open_line_simps)
next
  case (2 a l)
  then show ?thesis
    using lines_of_append [of a "l @ t"] lines_of_append [of a l] by (simp add: lines_of_open open_line_simps)
qed

lemma open_line_extend: "open_line (s @ t) = open_line (open_line s @ t)"
proof (cases t rule: stream_cases)
  case 1
  show ?thesis
  proof (cases s rule: stream_cases)
    case 1
    then show ?thesis by (simp add: open_line_simps)
  next
    case (2 a l)
    with \<open>newline \<notin> set t\<close> show ?thesis
      using open_line_simps(2) [of "l @ t" a] by (simp add: open_line_simps)
  qed
next
  case (2 a l)
  then show ?thesis using open_line_simps(2) [of l "s @ a"] open_line_simps(2) [of l "open_line s @ a"] by simp
qed

lemma marked_extend: "marked marker (s @ t) = marked marker s + marked marker (open_line s @ t)"
  by (simp add: marked_def lines_of_extend [of s t])


lemma lines_of_mem: "l \<in> set (lines_of s) \<Longrightarrow> \<exists>a b. s = a @ l @ newline # b"
proof (induction s rule: lines_of.induct)
  case (1 s)
  show ?case
  proof (cases "newline \<in> set s")
    case True
    then obtain l0 r where s: "s = l0 @ newline # r" "newline \<notin> set l0" by (metis split_list_first)
    then have tl: "tl (dropWhile (\<lambda>c. c \<noteq> newline) s) = r" by (induction l0 arbitrary: s) auto
    from "1.prems" s have "l = l0 \<or> l \<in> set (lines_of r)" by (simp add: lines_of_line)
    then show ?thesis
    proof
      assume "l \<in> set (lines_of r)"
      with "1.IH" [OF True] tl obtain a b where "r = a @ l @ newline # b" by auto
      with s have "s = (l0 @ newline # a) @ l @ newline # b" by simp
      then show ?thesis by blast
    qed (use s in blast)
  qed (use "1.prems" lines_of_open in simp)
qed

lemma marked_open: "newline \<notin> set s \<Longrightarrow> marked marker s = 0"
  by (simp add: marked_def lines_of_open)

lemma newline_open_line: "newline \<notin> set (open_line s)"
  by (auto simp: open_line_def dest: set_takeWhileD)

text \<open>Nothing is marked before the first occurrence.\<close>

lemma marked_before:
  assumes "find_in marker s = Some i"
  shows "marked marker (take i s) = 0"
proof (rule ccontr)
  assume "marked marker (take i s) \<noteq> 0"
  then obtain l where "l \<in> set (lines_of (take i s))" "occurs marker l"
    by (auto simp: marked_def filter_empty_conv)
  with lines_of_mem obtain a b x y where t: "take i s = a @ (x @ marker @ y) @ newline # b"
    unfolding occurs_def by metis
  then have "s = (a @ x) @ marker @ (y @ newline # b @ drop i s)"
    using append_take_drop_id [of i s] by simp
  from find_in_Some(2) [OF assms this] have "i \<le> length a + length x" by simp
  moreover have "length (take i s) \<le> i" by simp
  ultimately show False unfolding t by simp
qed

lemma not_occurs_marked: "\<not> occurs marker s \<Longrightarrow> marked marker s = 0"
proof -
  assume no: "\<not> occurs marker s"
  have "\<not> occurs marker l" if l: "l \<in> set (lines_of s)" for l
  proof
    assume "occurs marker l"
    moreover from lines_of_mem [OF l] obtain a b where "s = a @ l @ newline # b" by blast
    ultimately show False using occurs_append no by blast
  qed
  then show ?thesis by (simp add: marked_def)
qed

lemma find_newline:
  assumes "start \<le> length s"
  shows "find_from [newline] s start = None \<Longrightarrow> newline \<notin> set (drop start s)"
    and "find_from [newline] s start = Some e \<Longrightarrow> \<exists>c. s = take start s @ c @ newline # drop (e + 1) s \<and> newline \<notin> set c"
proof -
  show "newline \<notin> set (drop start s)" if "find_from [newline] s start = None"
  proof
    assume "newline \<in> set (drop start s)"
    then have "occurs [newline] (drop start s)" unfolding occurs_def using split_list by fastforce
    with find_in_iff [of "[newline]" "drop start s"] that assms show False by (auto simp: find_from_def)
  qed
  show "\<exists>c. s = take start s @ c @ newline # drop (e + 1) s \<and> newline \<notin> set c" if "find_from [newline] s start = Some e"
  proof -
    from that assms obtain j where j: "find_in [newline] (drop start s) = Some j" "e = start + j"
      by (auto simp: find_from_def)
    let ?c = "take j (drop start s)"
    have d: "drop start s = ?c @ newline # drop (e + 1) s"
      using find_in_Some(1) [OF j(1)] j(2) by (simp add: add.commute)
    have "newline \<notin> set ?c"
    proof
      assume "newline \<in> set ?c"
      then obtain a b where c: "?c = a @ newline # b" by (metis split_list)
      with d have "drop start s = a @ [newline] @ (b @ newline # drop (e + 1) s)" by simp
      from find_in_Some(2) [OF j(1) this] have "j \<le> length a" .
      moreover have "length ?c \<le> j" by simp
      ultimately show False unfolding c by simp
    qed
    with d append_take_drop_id [of start s] show ?thesis by metis
  qed
qed

text \<open>One round of the inner loop: a marker without a complete line, or one marked line and the rest.\<close>

lemma drain_step:
  assumes "newline \<notin> set marker" and "find_in marker recent = Some i"
  shows "find_from [newline] recent (i + length marker) = None \<Longrightarrow> marked marker recent = 0"
    and "find_from [newline] recent (i + length marker) = Some e \<Longrightarrow>
      marked marker recent = Suc (marked marker (drop (e + 1) recent)) \<and> open_line (drop (e + 1) recent) = open_line recent"
proof -
  let ?b = "take i recent" and ?k = "i + length marker"
  note k = find_in_bound [OF assms(2)]
  have r: "recent = ?b @ marker @ drop ?k recent" by (rule find_in_Some(1) [OF assms(2)])
  have m: "marked marker recent = marked marker (open_line ?b @ marker @ drop ?k recent)"
    by (subst r, subst marked_extend) (simp add: marked_before [OF assms(2)])
  show "marked marker recent = 0" if "find_from [newline] recent ?k = None"
    unfolding m by (rule marked_open) (use find_newline(1) [OF k that] newline_open_line assms(1) in auto)
  show "marked marker recent = Suc (marked marker (drop (e + 1) recent)) \<and> open_line (drop (e + 1) recent) = open_line recent"
    if "find_from [newline] recent ?k = Some e"
  proof -
    from find_newline(2) [OF k that] obtain c where
      c: "recent = take ?k recent @ c @ newline # drop (e + 1) recent" "newline \<notin> set c" by blast
    have "take ?k recent @ drop ?k recent = take ?k recent @ c @ newline # drop (e + 1) recent"
      using c(1) by simp
    then have d: "drop ?k recent = c @ newline # drop (e + 1) recent" by (simp only: append_same_eq same_append_eq)
    let ?l = "open_line ?b @ marker @ c"
    have "newline \<notin> set ?l" using newline_open_line assms(1) c(2) by auto
    then have "lines_of (open_line ?b @ marker @ drop ?k recent) = ?l # lines_of (drop (e + 1) recent)"
      unfolding d using lines_of_line [of ?l] by simp
    moreover have "occurs marker ?l" unfolding occurs_def by blast
    ultimately have "marked marker recent = Suc (marked marker (drop (e + 1) recent))"
      unfolding m by (simp add: marked_def)
    moreover have "open_line recent = open_line (drop (e + 1) recent)"
      by (subst c(1)) (use open_line_simps(2) [of "[]" "take ?k recent @ c"]
          open_line_extend [of "take ?k recent @ c @ [newline]" "drop (e + 1) recent"] in simp)
    ultimately show ?thesis by simp
  qed
qed

lemma drain_counts:
  assumes "newline \<notin> set marker" and "drain marker minimum matches recent = (enough, m, r)"
    and "matches < minimum"
  shows "if enough then m = minimum \<and> minimum \<le> matches + int (marked marker recent)
    else m < minimum \<and> m = matches + int (marked marker recent) \<and> marked marker r = 0 \<and> open_line r = open_line recent"
  using assms
proof (induction marker minimum matches recent rule: drain.induct)
  case (1 marker minimum matches recent)
  note eq = "1.prems"(2) [unfolded drain.simps [of marker minimum matches recent]]
  show ?case
  proof (cases "find_in marker recent")
    case None
    then have "marked marker recent = 0" using find_in_iff [of marker recent] not_occurs_marked by blast
    with None eq "1.prems"(3) show ?thesis by auto
  next
    case (Some i)
    note step = drain_step [OF "1.prems"(1) Some]
    show ?thesis
    proof (cases "find_from [newline] recent (i + length marker)")
      case None
      with Some eq "1.prems"(3) step(1) show ?thesis by auto
    next
      case e: (Some e)
      show ?thesis
      proof (cases "minimum \<le> matches + 1")
        case True
        with Some e eq "1.prems"(3) step(2) show ?thesis by auto
      next
        case False
        with Some e eq have "drain marker minimum (matches + 1) (drop (e + 1) recent) = (enough, m, r)" by simp
        from "1.IH" [OF Some e False "1.prems"(1) this] False step(2) [OF e] show ?thesis by (simp split: if_splits)
      qed
    qed
  qed
qed

lemma suffix_unmarked:
  assumes "marked marker (a @ s) = 0"
  shows "marked marker s = 0"
proof (cases s rule: stream_cases)
  case (2 b l)
  then obtain f r where s: "s = f @ newline # r" "newline \<notin> set f" using split_list_first [of newline s] by auto
  let ?o = "open_line a"
  have "marked marker (?o @ s) = 0" using assms marked_extend [of marker a s] by simp
  moreover have "newline \<notin> set (?o @ f)" using newline_open_line s(2) by auto
  ultimately have "\<not> occurs marker (?o @ f)" "marked marker r = 0"
    using s lines_of_line [of "?o @ f" r] by (auto simp: marked_def split: if_splits)
  moreover from this(1) have "\<not> occurs marker f" using occurs_append [of marker f ?o "[]"] by auto
  ultimately show ?thesis using s lines_of_line [of f r] by (simp add: marked_def)
qed (simp add: marked_open)

lemma open_line_suffix:
  assumes "length (open_line (a @ d)) \<le> length d"
  shows "open_line d = open_line (a @ d)"
proof (cases d rule: stream_cases)
  case 1
  have "newline \<notin> set (open_line a @ d)" using 1 newline_open_line by auto
  then have "open_line (a @ d) = open_line a @ d" using open_line_extend [of a d] open_line_simps(1) by simp
  with assms 1 show ?thesis by (simp add: open_line_simps)
next
  case (2 b l)
  then show ?thesis using open_line_simps(2) [of l "a @ b"] open_line_simps(2) [of l b] by simp
qed

lemma trim_keeps:
  assumes "marked marker r = 0" and "length (open_line r) \<le> 2048"
  shows "marked marker (trim r) = 0 \<and> open_line (trim r) = open_line r"
proof (cases "4096 < length r")
  case True
  let ?k = "length r - 2048"
  have r: "r = take ?k r @ drop ?k r" by simp
  have "marked marker (drop ?k r) = 0" using assms(1) suffix_unmarked [of marker "take ?k r" "drop ?k r"] by simp
  moreover have "open_line (drop ?k r) = open_line r"
    using open_line_suffix [of "take ?k r" "drop ?k r"] assms(2) True by simp
  ultimately show ?thesis using True by (simp add: trim_def)
qed (use assms in \<open>simp add: trim_def\<close>)

text \<open>Every line of the stream, the open one included, fits what \<open>trim\<close> keeps.\<close>

definition short_lines :: "octets \<Rightarrow> bool" where
  "short_lines s \<longleftrightarrow> (\<forall>l \<in> set (lines_of s). length l \<le> 2048) \<and> length (open_line s) \<le> 2048"

lemma short_lines_prefix:
  assumes "short_lines (s @ t)"
  shows "short_lines s"
proof -
  have "length (open_line s) \<le> 2048"
  proof (cases "newline \<in> set t")
    case True
    then obtain f r where t: "t = f @ newline # r" "newline \<notin> set f" by (metis split_list_first)
    with newline_open_line [of s] have "open_line s @ f \<in> set (lines_of (s @ t))"
      using lines_of_extend [of s t] lines_of_line [of "open_line s @ f" r] by simp
    with assms show ?thesis by (force simp: short_lines_def)
  next
    case False
    with newline_open_line [of s] have "open_line (s @ t) = open_line s @ t"
      using open_line_extend [of s t] by (simp add: open_line_simps)
    with assms show ?thesis by (simp add: short_lines_def)
  qed
  moreover have "\<forall>l \<in> set (lines_of s). length l \<le> 2048"
    using assms lines_of_extend [of s t] by (simp add: short_lines_def)
  ultimately show ?thesis by (simp add: short_lines_def)
qed

section \<open>The loop\<close>

lemma call_frame:
  "call f st = (x, st') \<Longrightarrow> cs_out st' = cs_out st \<and> cs_recent st' = cs_recent st \<and> cs_matches st' = cs_matches st"
  by (auto simp: call_def split: prod.splits)

lemma attach_frame:
  "attach env st = (x, st') \<Longrightarrow> cs_out st' = cs_out st \<and> cs_recent st' = cs_recent st \<and> cs_matches st' = cs_matches st"
  by (auto simp: attach_def call_def split: prod.splits sum.splits if_splits)

lemma next_chunk_frame:
  "next_chunk env st = (x, st') \<Longrightarrow> cs_out st' = cs_out st \<and> cs_recent st' = cs_recent st \<and> cs_matches st' = cs_matches st"
  by (auto simp: next_chunk_def split: prod.splits sum.splits dest!: attach_frame call_frame)

lemma close_port_frame [simp]:
  "cs_out (close_port env st) = cs_out st" "cs_recent (close_port env st) = cs_recent st"
  "cs_matches (close_port env st) = cs_matches st"
  by (simp_all add: close_port_def)

text \<open>The counter is exact as long as the lines are short.\<close>

definition counting :: "capture_args \<Rightarrow> 'w capture \<Rightarrow> bool" where
  "counting a st \<longleftrightarrow>
     (short_lines (cs_out st) \<longrightarrow>
       (let marker = encode (ca_until a) in
        cs_matches st < ca_minimum a \<and> cs_matches st = int (marked marker (cs_out st)) \<and>
        marked marker (cs_recent st) = 0 \<and> open_line (cs_recent st) = open_line (cs_out st)))"

definition judged :: "capture_args \<Rightarrow> (string \<times> int) res option \<Rightarrow> 'w capture \<Rightarrow> bool" where
  "judged a result st \<longleftrightarrow>
     (short_lines (cs_out st) \<longrightarrow>
       (case result of
          Some (Inl _) \<Rightarrow> True
        | Some (Inr (_, code)) \<Rightarrow> code = 0 \<longleftrightarrow> ca_minimum a \<le> int (marked (encode (ca_until a)) (cs_out st))
        | None \<Rightarrow> counting a st))"

lemma drain_stream:
  assumes "newline \<notin> set marker" and "drain marker minimum (int (marked marker out)) (recent @ chunk) = (enough, m, r)"
    and "int (marked marker out) < minimum" "marked marker recent = 0" "open_line recent = open_line out"
  shows "if enough then minimum \<le> int (marked marker (out @ chunk))
    else m < minimum \<and> m = int (marked marker (out @ chunk)) \<and> marked marker r = 0 \<and> open_line r = open_line (out @ chunk)"
proof -
  have "marked marker (recent @ chunk) = marked marker (open_line out @ chunk)"
    "marked marker (out @ chunk) = marked marker out + marked marker (open_line out @ chunk)"
    "open_line (recent @ chunk) = open_line (out @ chunk)"
    using marked_extend [of marker recent chunk] marked_extend [of marker out chunk] assms(4,5)
      open_line_extend [of recent chunk] open_line_extend [of out chunk] by simp_all
  with drain_counts [OF assms(1,2,3)] show ?thesis by (simp split: if_splits)
qed

lemma capture_round_counts:
  assumes marker: "newline \<notin> set (encode (ca_until a))" and "counting a st" and "capture_round env a st = (result, st')"
  shows "case result of None \<Rightarrow> counting a st' | Some r \<Rightarrow> judged a (Some r) st'"
proof -
  let ?marker = "encode (ca_until a)"
  obtain r st1 where n: "next_chunk env st = (r, st1)" by (cases "next_chunk env st")
  from next_chunk_frame [OF n] assms(2) have c: "counting a st1" by (simp add: counting_def)
  show ?thesis
  proof (cases r)
    case (Inl e)
    with assms(3) n c show ?thesis
      by (cases e) (auto simp: capture_round_def Let_def counting_def judged_def split: if_splits)
  next
    case (Inr chunk)
    show ?thesis
    proof (cases "chunk = [] \<or> \<not> short_lines (cs_out st1 @ chunk)")
      case True
      with assms(3) n c Inr show ?thesis
        by (auto simp: capture_round_def Let_def counting_def judged_def split: if_splits prod.splits)
    next
      case False
      then have short: "short_lines (cs_out st1 @ chunk)" and "short_lines (cs_out st1)" using short_lines_prefix by blast+
      with c have f: "cs_matches st1 = int (marked ?marker (cs_out st1))" "int (marked ?marker (cs_out st1)) < ca_minimum a"
        "marked ?marker (cs_recent st1) = 0" "open_line (cs_recent st1) = open_line (cs_out st1)"
        by (simp_all add: counting_def Let_def)
      obtain enough m rec where d: "drain ?marker (ca_minimum a) (int (marked ?marker (cs_out st1))) (cs_recent st1 @ chunk) = (enough, m, rec)"
        by (cases "drain ?marker (ca_minimum a) (int (marked ?marker (cs_out st1))) (cs_recent st1 @ chunk)" rule: prod_cases3)
      note drained = drain_stream [OF marker d f(2-4)]
      have keeps: "\<not> enough \<Longrightarrow> marked ?marker (trim rec) = 0 \<and> open_line (trim rec) = open_line (cs_out st1 @ chunk)"
        using drained short trim_keeps [of ?marker rec] by (simp add: short_lines_def)
      show ?thesis
        using assms(3) n Inr False d f(1) drained keeps
        by (cases enough) (auto simp: capture_round_def Let_def counting_def judged_def)
    qed
  qed
qed

text \<open>What takes time: reading the port and sleeping; nothing turns the clock back.\<close>

definition serial_time :: "('w \<Rightarrow> int) \<Rightarrow> 'w serial_env \<Rightarrow> bool" where
  "serial_time now env \<longleftrightarrow>
     reads_time now (sv_clock env) \<and> (\<forall>w. now w \<le> now (snd (sv_create env w))) \<and> (\<forall>w. now w \<le> now (snd (sv_open env w))) \<and>
     (\<forall>w. now w \<le> now (snd (sv_reset env w))) \<and> (\<forall>w. now w < now (snd (sv_read env w))) \<and>
     (\<forall>w. now w \<le> now (sv_close env w)) \<and> (\<forall>d w. now w < now (sv_sleep env d w))"

lemma call_time: "(\<And>w. now w \<le> now (snd (f w))) \<Longrightarrow> call f st = (x, st') \<Longrightarrow> now (cs_world st) \<le> now (cs_world st')"
  by (cases "f (cs_world st)") (auto simp: call_def, metis snd_conv)

lemma attach_time:
  assumes "serial_time now env" and "attach env st = (x, st')"
  shows "now (cs_world st) \<le> now (cs_world st')"
proof -
  obtain r1 s1 where c1: "call (sv_create env) st = (r1, s1)" by (cases "call (sv_create env) st")
  obtain r2 s2 where c2: "call (sv_open env) (s1\<lparr>cs_port := True\<rparr>) = (r2, s2)" by (cases "call (sv_open env) (s1\<lparr>cs_port := True\<rparr>)")
  obtain r3 s3 where c3: "call (sv_reset env) s2 = (r3, s3)" by (cases "call (sv_reset env) s2")
  have t: "now (cs_world st) \<le> now (cs_world s1)" "now (cs_world s1) \<le> now (cs_world s2)" "now (cs_world s2) \<le> now (cs_world s3)"
    using assms(1) call_time [OF _ c1, of now] call_time [OF _ c2, of now] call_time [OF _ c3, of now]
    by (auto simp: serial_time_def)
  show ?thesis
  proof (cases "cs_port st")
    case False
    then show ?thesis
      using assms(2) t unfolding attach_def c1 prod.case
      by (cases r1; cases r2; cases r3) (simp_all add: c2 c3 split: if_splits, auto)
  qed (use assms(2) in \<open>simp add: attach_def\<close>)
qed

lemma capture_round_time:
  assumes "serial_time now env" and "capture_round env a st = (None, st')"
  shows "now (cs_world st) < now (cs_world st')"
proof -
  obtain x st0 where at: "attach env st = (x, st0)" by (cases "attach env st")
  note t = attach_time [OF assms(1) at]
  obtain y st1 where rd: "call (sv_read env) st0 = (y, st1)" by (cases "call (sv_read env) st0")
  have r: "now (cs_world st0) < now (cs_world st1)"
    using assms(1) rd by (cases "sv_read env (cs_world st0)") (auto simp: call_def serial_time_def, metis snd_conv)
  have sleep: "now (cs_world s) < now (sv_sleep env d (cs_world (close_port env s)))" for s d
    using assms(1) by (auto simp: close_port_def serial_time_def intro: le_less_trans)
  show ?thesis
  proof (cases x)
    case (Inl e)
    with assms(2) at have "\<exists>err. e = OSError err"
      by (cases e) (simp_all add: capture_round_def next_chunk_def)
    with assms(2) at Inl show ?thesis
      using t sleep [of st0 200000] by (auto simp: capture_round_def next_chunk_def Let_def split: if_splits)
  next
    case (Inr u)
    show ?thesis
    proof (cases y)
      case e: (Inl e)
      with assms(2) at rd Inr have "\<exists>err. e = OSError err"
        by (cases e) (simp_all add: capture_round_def next_chunk_def)
      with assms(2) at rd Inr e show ?thesis
        using t r sleep [of st1 200000] by (auto simp: capture_round_def next_chunk_def Let_def split: if_splits)
    next
      case (Inr chunk)
      with assms(2) at rd \<open>x = Inr u\<close> show ?thesis
        using t r by (auto simp: capture_round_def next_chunk_def Let_def split: if_splits prod.splits)
    qed
  qed
qed

section \<open>A device\<close>

text \<open>A device that has a list of chunks to send, and a clock that counts the operations.\<close>

definition example_serial :: "(int \<times> octets list) serial_env" where
  "example_serial =
     \<lparr>sv_clock = (\<lambda>w. (fst w, w)), sv_create = (\<lambda>w. (Inr (), w)), sv_open = (\<lambda>w. (Inr (), w)),
      sv_reset = (\<lambda>w. (Inr (), w)),
      sv_read = (\<lambda>w. (Inr (case snd w of [] \<Rightarrow> [] | c # _ \<Rightarrow> c), (fst w + 1, drop 1 (snd w)))),
      sv_close = (\<lambda>w. w), sv_sleep = (\<lambda>d w. (fst w + 1, snd w))\<rparr>"

definition example_capture :: capture_args where
  "example_capture =
     \<lparr>ca_device = ''tty'', ca_timeout = 9, ca_until = ''OK'', ca_minimum = 2, ca_no_reset = False, ca_reconnect = False\<rparr>"

lemma example_serial_time: "serial_time fst example_serial"
  by (simp add: serial_time_def reads_time_def example_serial_def)

definition example_state :: "int \<Rightarrow> octets list \<Rightarrow> bool \<Rightarrow> int \<Rightarrow> octets \<Rightarrow> octets \<Rightarrow> (int \<times> octets list) capture" where
  "example_state t chunks opened matches recent out =
     \<lparr>cs_world = (t, chunks), cs_port = opened, cs_reset = (\<not> opened), cs_recent = recent, cs_matches = matches, cs_out = out\<rparr>"

lemma example_drain:
  "drain [79, 75] 2 0 [97, 32, 79, 75, 32, 98, 10] = (False, 1, [])"
  "drain [79, 75] 2 1 [79] = (False, 1, [79])" "drain [79, 75] 2 1 [79, 75, 10] = (True, 2, [])"
proof -
  have d: "drain [79, 75] 2 1 [] = (False, 1, [])" by (subst drain.simps) simp
  show "drain [79, 75] 2 0 [97, 32, 79, 75, 32, 98, 10] = (False, 1, [])"
    by (subst drain.simps) (simp add: find_from_def newline_def d)
  show "drain [79, 75] 2 1 [79] = (False, 1, [79])" "drain [79, 75] 2 1 [79, 75, 10] = (True, 2, [])"
    by (subst drain.simps; simp add: find_from_def newline_def)+
qed

lemma example_rounds:
  "capture_round example_serial example_capture (example_state 0 [[97, 32, 79, 75, 32, 98, 10], [79], [75, 10]] False 0 [] []) =
     (None, example_state 1 [[79], [75, 10]] True 1 [] [97, 32, 79, 75, 32, 98, 10])"
  "capture_round example_serial example_capture (example_state 1 [[79], [75, 10]] True 1 [] [97, 32, 79, 75, 32, 98, 10]) =
     (None, example_state 2 [[75, 10]] True 1 [79] [97, 32, 79, 75, 32, 98, 10, 79])"
  "capture_round example_serial example_capture (example_state 2 [[75, 10]] True 1 [79] [97, 32, 79, 75, 32, 98, 10, 79]) =
     (Some (Inr ([], 0)), example_state 3 [] True 2 [] [97, 32, 79, 75, 32, 98, 10, 79, 75, 10])"
  by (simp_all add: capture_round_def next_chunk_def attach_def call_def example_serial_def example_state_def
      example_capture_def encode_def utf8_char_def example_drain trim_def Let_def close_port_def)

lemma example_captured:
  "capture_main example_serial example_capture (0, [[97, 32, 79, 75, 32, 98, 10], [79], [75, 10]]) =
     Some (Inr ([], 0), example_state 3 [] True 2 [] [97, 32, 79, 75, 32, 98, 10, 79, 75, 10])"
proof -
  have c: "call (sv_clock example_serial) (example_state t q opened m r out) = (t, example_state t q opened m r out)"
    for t q opened m r out
    by (simp add: call_def example_serial_def example_state_def)
  have s: "capture_start example_capture (0, q) = example_state 0 q False 0 [] []" for q
    by (simp add: capture_start_def example_capture_def example_state_def)
  have t: "ca_timeout example_capture = 9" "ca_minimum example_capture = 2" by (simp_all add: example_capture_def)
  have "poll always (call (sv_clock example_serial)) (capture_round example_serial example_capture) 9
      (example_state 0 [[97, 32, 79, 75, 32, 98, 10], [79], [75, 10]] False 0 [] []) =
      Some (Some (Inr ([], 0)), example_state 3 [] True 2 [] [97, 32, 79, 75, 32, 98, 10, 79, 75, 10])"
    by (subst poll.simps, simp add: always_def c example_rounds(1), subst poll.simps, simp add: always_def c example_rounds(2),
        subst poll.simps, simp add: always_def c example_rounds(3))
  then show ?thesis by (simp add: capture_main_def s c t)
qed

section \<open>Properties\<close>

text \<open>
  On a host whose clock moves on while the port is read and while the tool sleeps, the
  capture returns for every behaviour of the device: every sequence of chunks, read errors, failed
  openings and reconnections ends in an exit status or an exception.
\<close>

lemma capture_returns:
  assumes "serial_time now env"
  shows "\<exists>result st. capture_main env a w = Some (result, st)"
proof (cases "ca_minimum a < 1")
  case False
  obtain t st where c: "call (sv_clock env) (capture_start a w) = (t, st)" by (cases "call (sv_clock env) (capture_start a w)")
  have "reads_time (now \<circ> cs_world) (call (sv_clock env))"
    using assms by (auto simp: serial_time_def reads_time_def call_def split: prod.splits) (metis fst_conv snd_conv)+
  then have "\<exists>r s. poll always (call (sv_clock env)) (capture_round env a) (t + ca_timeout a) st = Some (r, s)"
    by (rule poll_returns) (use capture_round_time [OF assms] in auto)
  with False c show ?thesis by (auto simp: capture_main_def split: option.splits)
qed (simp add: capture_main_def)

text \<open>
  Property C37. The cut buffer implements the line-by-line specification: for a marker without a
  newline, and a stream whose lines are at most 2048 bytes long, the capture exits with 0 exactly when
  the stream it passed on has at least the demanded number of complete lines that contain the marker,
  whatever the chunks it arrived in.
\<close>

theorem capture_exact:
  assumes "newline \<notin> set (encode (ca_until a))" and "1 \<le> ca_minimum a"
    and "capture_main env a w = Some (Inr (message, code), st)" and "short_lines (cs_out st)"
  shows "code = 0 \<longleftrightarrow> ca_minimum a \<le> int (marked (encode (ca_until a)) (cs_out st))"
proof -
  obtain t st0 where c: "call (sv_clock env) (capture_start a w) = (t, st0)" by (cases "call (sv_clock env) (capture_start a w)")
  have init: "counting a st0"
    using assms(2) call_frame [OF c]
    by (simp add: counting_def capture_start_def marked_def lines_of_open open_line_simps)
  from assms(2,3) c obtain r st1 where p: "poll always (call (sv_clock env)) (capture_round env a) (t + ca_timeout a) st0 = Some (r, st1)"
    and out: "case r of Some res \<Rightarrow> res = Inr (message, code) \<and> st = st1
      | None \<Rightarrow> code = 1 \<and> st = close_port env st1"
    by (auto simp: capture_main_def split: option.splits)
  have "judged a r st1"
  proof (rule poll_rule [where I = "counting a", OF p init])
    show "counting a (snd (call (sv_clock env) s))" if "counting a s" for s
      using that by (cases "sv_clock env (cs_world s)") (simp add: counting_def call_def)
    show "counting a s'" if "counting a s" "capture_round env a s = (None, s')" for s s'
      using capture_round_counts [OF assms(1) that] by simp
    show "judged a (Some res) s'" if "counting a s" "capture_round env a s = (Some res, s')" for s res s'
      using capture_round_counts [OF assms(1) that] by simp
    show "judged a None s" if "counting a s" for s using that by (simp add: judged_def)
  qed simp
  with out assms(4) show ?thesis
    by (auto simp: judged_def counting_def Let_def split: option.splits)
qed

theorem capture_exact_witness:
  "2 \<le> int (marked (encode ''OK'') [97, 32, 79, 75, 32, 98, 10, 79, 75, 10])"
proof -
  have "newline \<notin> set (encode (ca_until example_capture))" "1 \<le> ca_minimum example_capture"
    by (simp_all add: example_capture_def encode_def utf8_char_def newline_def)
  note exact = capture_exact [OF this example_captured]
  have "short_lines [97, 32, 79, 75, 32, 98, 10, 79, 75, 10]"
    by (simp add: short_lines_def open_line_def newline_def lines_of.simps)
  with exact show ?thesis by (simp add: example_state_def example_capture_def)
qed

end
