(* ===== verification/Control_Peer.thy ===== *)
theory Control_Peer
  imports Py_Loop Py_Text Py_Json
begin

text \<open>
  \<open>src/samples/static_control/peer.py\<close>: the desktop peer that exercises the command and state contract
  of the static control sample. The ROS client library and the clock are operations on a world that is
  a parameter. What the peer does and what it receives is kept in one trace, in order.
\<close>

section \<open>Messages and events\<close>

text \<open>The fields of \<open>ControlState\<close> that the peer reads, and its status constants.\<close>

record control_state =
  st_status :: nat
  st_sequence :: int

definition STATUS_DISABLED :: nat where "STATUS_DISABLED = 0"
definition STATUS_ACTIVE :: nat where "STATUS_ACTIVE = 1"
definition STATUS_STALE :: nat where "STATUS_STALE = 2"
definition STATUS_FAULT :: nat where "STATUS_FAULT = 3"

text \<open>The command that the peer sends: \<open>target=0.5\<close>.\<close>

definition TARGET :: fval where "TARGET = Dyadic 1 (-1)"

datatype control_event =
    Init
  | CreateNode
  | CreateSubscription
  | CreatePublisher
  | Got control_state
  | Said string
  | Sent fval int
  | DestroyPublisher
  | DestroySubscription
  | DestroyNode
  | Shutdown

record 'w control_env =
  ce_clock :: "'w \<Rightarrow> int \<times> 'w"
  ce_spin :: "int \<Rightarrow> 'w \<Rightarrow> control_state list \<times> 'w"
  ce_subscribers :: "'w \<Rightarrow> int \<times> 'w"
  ce_publish :: "fval \<Rightarrow> int \<Rightarrow> 'w \<Rightarrow> 'w"

record 'w control_peer =
  cp_world :: 'w
  cp_trace :: "control_event list"

fun states_of :: "control_event list \<Rightarrow> control_state list" where
  "states_of [] = []"
| "states_of (Got s # es) = s # states_of es"
| "states_of (_ # es) = states_of es"

definition emit :: "control_event list \<Rightarrow> 'w control_peer \<Rightarrow> 'w control_peer" where
  "emit es p = p\<lparr>cp_trace := cp_trace p @ es\<rparr>"

definition ask :: "('w \<Rightarrow> 'a \<times> 'w) \<Rightarrow> 'w control_peer \<Rightarrow> 'a \<times> 'w control_peer" where
  "ask f p = (case f (cp_world p) of (x, w) \<Rightarrow> (x, p\<lparr>cp_world := w\<rparr>))"

section \<open>The peer\<close>

text \<open>\<open>rclpy.spin_once\<close>: the states that arrive go to \<open>states.append\<close>.\<close>

definition spin_once :: "'w control_env \<Rightarrow> int \<Rightarrow> 'w control_peer \<Rightarrow> 'w control_peer" where
  "spin_once env timeout p = (case ask (ce_spin env timeout) p of (msgs, p1) \<Rightarrow> emit (map Got msgs) p1)"

definition wait_round ::
  "'w control_env \<Rightarrow> ('w control_peer \<Rightarrow> bool \<times> 'w control_peer) \<Rightarrow> 'w control_peer \<Rightarrow> unit option \<times> 'w control_peer" where
  "wait_round env predicate p =
     (case predicate (spin_once env 100000 p) of (ok, p1) \<Rightarrow> (if ok then Some () else None, p1))"

definition wait_for ::
  "'w control_env \<Rightarrow> int \<Rightarrow> ('w control_peer \<Rightarrow> bool \<times> 'w control_peer) \<Rightarrow> string \<Rightarrow> 'w control_peer \<Rightarrow>
     (bool \<times> 'w control_peer) option" where
  "wait_for env timeout predicate label p =
     (case ask (ce_clock env) p of (now, p1) \<Rightarrow>
      (case poll always (ask (ce_clock env)) (wait_round env predicate) (now + timeout) p1 of
         None \<Rightarrow> None
       | Some (Some _, p2) \<Rightarrow> Some (True, p2)
       | Some (None, p2) \<Rightarrow> Some (False, emit [Said (''STATIC_CONTROL_PEER_ERROR waiting_for='' @ label)] p2)))"

definition has_status :: "nat \<Rightarrow> control_state \<Rightarrow> bool" where
  "has_status status s \<longleftrightarrow> st_status s = status"

definition has_command :: "nat \<Rightarrow> int \<Rightarrow> control_state \<Rightarrow> bool" where
  "has_command status sequence s \<longleftrightarrow> st_status s = status \<and> st_sequence s = sequence"

definition seen :: "(control_state \<Rightarrow> bool) \<Rightarrow> 'w control_peer \<Rightarrow> bool \<times> 'w control_peer" where
  "seen P p = (list_ex P (states_of (cp_trace p)), p)"

definition discovered :: "'w control_env \<Rightarrow> 'w control_peer \<Rightarrow> bool \<times> 'w control_peer" where
  "discovered env p =
     (case ask (ce_subscribers env) p of (n, p1) \<Rightarrow>
      if 0 < n then seen (has_status STATUS_DISABLED) p1 else (False, p1))"

record control_args =
  ka_timeout :: int
  ka_sequence :: int

text \<open>The body of the \<open>try\<close>: a wait that fails ends it with status 1.\<close>

definition and_then :: "(bool \<times> 's) option \<Rightarrow> ('s \<Rightarrow> (int \<times> 's) option) \<Rightarrow> (int \<times> 's) option" where
  "and_then waited f = (case waited of None \<Rightarrow> None | Some (ok, p) \<Rightarrow> if ok then f p else Some (1, p))"

definition finish :: "control_args \<Rightarrow> 'w control_peer \<Rightarrow> int \<times> 'w control_peer" where
  "finish a p =
     (let p1 = emit [Said (''STATIC_CONTROL_PEER_STALE sequence='' @ show_int (ka_sequence a))] p;
          states = states_of (cp_trace p1)
      in if list_ex (has_status STATUS_FAULT) states
         then (1, emit [Said ''STATIC_CONTROL_PEER_ERROR fault_state''] p1)
         else (0, emit [Said (''STATIC_CONTROL_PEER_PASS state_samples='' @ show_int (int (length states)))] p1))"

definition await_stale :: "'w control_env \<Rightarrow> control_args \<Rightarrow> 'w control_peer \<Rightarrow> (int \<times> 'w control_peer) option" where
  "await_stale env a p =
     and_then (wait_for env (ka_timeout a) (seen (has_command STATUS_STALE (ka_sequence a))) ''stale_state''
         (emit [Said (''STATIC_CONTROL_PEER_ACTIVE sequence='' @ show_int (ka_sequence a))] p))
       (\<lambda>p. Some (finish a p))"

definition send_command :: "'w control_env \<Rightarrow> control_args \<Rightarrow> 'w control_peer \<Rightarrow> 'w control_peer" where
  "send_command env a p =
     (let p1 = emit [Said ''STATIC_CONTROL_PEER_DISABLED''] p
      in emit [Sent TARGET (ka_sequence a)] (p1\<lparr>cp_world := ce_publish env TARGET (ka_sequence a) (cp_world p1)\<rparr>))"

definition exercise :: "'w control_env \<Rightarrow> control_args \<Rightarrow> 'w control_peer \<Rightarrow> (int \<times> 'w control_peer) option" where
  "exercise env a p =
     and_then (wait_for env (ka_timeout a) (discovered env) ''discovery_and_disabled_state'' p) (\<lambda>p.
     and_then (wait_for env (ka_timeout a) (seen (has_command STATUS_ACTIVE (ka_sequence a))) ''active_state'' (send_command env a p))
       (await_stale env a))"

definition control_peer_main :: "'w control_env \<Rightarrow> control_args \<Rightarrow> 'w \<Rightarrow> (int \<times> 'w control_peer) option" where
  "control_peer_main env a w =
     map_option (apsnd (emit [DestroyPublisher, DestroySubscription, DestroyNode, Shutdown]))
       (exercise env a \<lparr>cp_world = w, cp_trace = [Init, CreateNode, CreateSubscription, CreatePublisher]\<rparr>)"

section \<open>Waiting\<close>

lemma states_of_append [simp]: "states_of (a @ b) = states_of a @ states_of b"
  by (induction a rule: states_of.induct) simp_all

lemma states_of_Got [simp]: "states_of (map Got msgs) = msgs"
  by (induction msgs) simp_all

lemma emit_simps [simp]: "cp_trace (emit es p) = cp_trace p @ es" "cp_world (emit es p) = cp_world p"
  by (simp_all add: emit_def)

lemma ask_trace: "ask f p = (x, p') \<Longrightarrow> cp_trace p' = cp_trace p"
  by (auto simp: ask_def split: prod.splits)

lemma spin_trace: "\<exists>msgs. cp_trace (spin_once env timeout p) = cp_trace p @ map Got msgs"
  by (auto simp: spin_once_def dest: ask_trace split: prod.splits)

text \<open>A predicate only looks: it leaves the trace alone, and when it holds, \<open>P\<close> holds of the states.\<close>

definition looks :: "('w control_peer \<Rightarrow> bool \<times> 'w control_peer) \<Rightarrow> (control_state \<Rightarrow> bool) \<Rightarrow> bool" where
  "looks predicate P \<longleftrightarrow>
     (\<forall>p ok p'. predicate p = (ok, p') \<longrightarrow> cp_trace p' = cp_trace p \<and> (ok \<longrightarrow> list_ex P (states_of (cp_trace p))))"

lemma looks_seen: "looks (seen P) P"
  by (simp add: looks_def seen_def)

lemma looks_discovered: "looks (discovered env) (has_status STATUS_DISABLED)"
  by (auto simp: looks_def discovered_def seen_def dest: ask_trace split: prod.splits if_splits)

definition extends :: "control_event list \<Rightarrow> 'w control_peer \<Rightarrow> bool" where
  "extends t p \<longleftrightarrow> (\<exists>msgs. cp_trace p = t @ map Got msgs)"

lemma extends_more: "extends t p \<Longrightarrow> cp_trace p' = cp_trace p @ map Got msgs \<Longrightarrow> extends t p'"
  unfolding extends_def by (metis append.assoc map_append)

lemma wait_for_result:
  assumes "looks predicate P" and "wait_for env timeout predicate label p = Some (ok, p')"
  obtains msgs where "ok" "cp_trace p' = cp_trace p @ map Got msgs" "list_ex P (states_of (cp_trace p'))"
  | msgs where "\<not> ok" "cp_trace p' = cp_trace p @ map Got msgs @ [Said (''STATIC_CONTROL_PEER_ERROR waiting_for='' @ label)]"
proof -
  let ?t = "cp_trace p"
  obtain now p1 where c: "ask (ce_clock env) p = (now, p1)" by (cases "ask (ce_clock env) p")
  from assms(2) c obtain r p2 where
    poll: "poll always (ask (ce_clock env)) (wait_round env predicate) (now + timeout) p1 = Some (r, p2)"
    and out: "case r of Some _ \<Rightarrow> ok \<and> p' = p2
      | None \<Rightarrow> \<not> ok \<and> p' = emit [Said (''STATIC_CONTROL_PEER_ERROR waiting_for='' @ label)] p2"
    by (auto simp: wait_for_def split: option.splits)
  have round: "extends ?t p'' \<and> (res \<noteq> None \<longrightarrow> list_ex P (states_of (cp_trace p'')))"
    if "extends ?t q" "wait_round env predicate q = (res, p'')" for q res p''
  proof -
    obtain msgs where m: "cp_trace (spin_once env 100000 q) = cp_trace q @ map Got msgs" using spin_trace by blast
    obtain b q1 where b: "predicate (spin_once env 100000 q) = (b, q1)" by (cases "predicate (spin_once env 100000 q)")
    with assms(1) have "cp_trace q1 = cp_trace (spin_once env 100000 q) \<and>
        (b \<longrightarrow> list_ex P (states_of (cp_trace (spin_once env 100000 q))))"
      unfolding looks_def by blast
    then have "cp_trace q1 = cp_trace q @ map Got msgs" "b \<longrightarrow> list_ex P (states_of (cp_trace q1))"
      unfolding m by simp_all
    with that b extends_more [OF that(1)] show ?thesis by (auto simp: wait_round_def split: if_splits)
  qed
  have "extends ?t p2 \<and> (r \<noteq> None \<longrightarrow> list_ex P (states_of (cp_trace p2)))"
  proof (rule poll_rule [where I = "extends ?t", OF poll])
    show "extends ?t p1" using ask_trace [OF c] by (auto simp: extends_def)
    show "extends ?t (snd (ask (ce_clock env) s))" if "extends ?t s" for s
      using that ask_trace [of "ce_clock env" s] by (cases "ask (ce_clock env) s") (simp add: extends_def)
  qed (use round in auto)
  with out that show thesis unfolding extends_def by (cases r) auto
qed

definition control_time :: "('w \<Rightarrow> int) \<Rightarrow> 'w control_env \<Rightarrow> bool" where
  "control_time now env \<longleftrightarrow>
     reads_time now (ce_clock env) \<and> (\<forall>d w. now w < now (snd (ce_spin env d w))) \<and>
     (\<forall>w. now w \<le> now (snd (ce_subscribers env w)))"

lemma wait_for_returns:
  assumes "control_time now env" and "\<And>p. now (cp_world p) \<le> now (cp_world (snd (predicate p)))"
  shows "\<exists>ok p'. wait_for env timeout predicate label p = Some (ok, p')"
proof -
  obtain t p1 where c: "ask (ce_clock env) p = (t, p1)" by (cases "ask (ce_clock env) p")
  have clock: "reads_time (now \<circ> cp_world) (ask (ce_clock env))"
    using assms(1) by (auto simp: control_time_def reads_time_def ask_def split: prod.splits) (metis fst_conv snd_conv)+
  have "\<exists>r p'. poll always (ask (ce_clock env)) (wait_round env predicate) (t + timeout) p1 = Some (r, p')"
  proof (rule poll_returns [OF clock])
    fix s s'
    assume "wait_round env predicate s = (None, s')"
    then have s': "s' = snd (predicate (spin_once env 100000 s))"
      by (auto simp: wait_round_def split: prod.splits if_splits)
    have "now (cp_world s) < now (cp_world (spin_once env 100000 s))"
      using assms(1) by (cases "ce_spin env 100000 (cp_world s)")
        (auto simp: spin_once_def ask_def control_time_def, metis snd_conv)
    also have "\<dots> \<le> now (cp_world s')" unfolding s' by (rule assms(2))
    finally show "(now \<circ> cp_world) s < (now \<circ> cp_world) s'" by simp
  qed simp
  with c show ?thesis by (auto simp: wait_for_def split: option.splits)
qed

section \<open>A device\<close>

text \<open>A device that reports a list of states, one with every spin, and is always matched.\<close>

definition example_control :: "(int \<times> control_state list) control_env" where
  "example_control =
     \<lparr>ce_clock = (\<lambda>w. (fst w, w)), ce_spin = (\<lambda>d w. (take 1 (snd w), (fst w + 1, drop 1 (snd w)))),
      ce_subscribers = (\<lambda>w. (1, w)), ce_publish = (\<lambda>t n w. w)\<rparr>"

definition example_states :: "control_state list" where
  "example_states = map (\<lambda>s. \<lparr>st_status = s, st_sequence = 7\<rparr>) [STATUS_DISABLED, STATUS_ACTIVE, STATUS_STALE]"

lemma example_control_time: "control_time fst example_control"
  by (simp add: control_time_def reads_time_def example_control_def)

definition example_peer :: "int \<Rightarrow> control_state list \<Rightarrow> control_event list \<Rightarrow> (int \<times> control_state list) control_peer" where
  "example_peer t states trace = \<lparr>cp_world = (t, states), cp_trace = trace\<rparr>"

text \<open>A wait that holds after the first spin.\<close>

lemma example_wait:
  assumes "t < t + timeout" and "predicate (example_peer (t + 1) ss (trace @ [Got s])) = (True, example_peer (t + 1) ss (trace @ [Got s]))"
  shows "wait_for example_control timeout predicate label (example_peer t (s # ss) trace) =
    Some (True, example_peer (t + 1) ss (trace @ [Got s]))"
proof -
  have c: "ask (ce_clock example_control) (example_peer t q e) = (t, example_peer t q e)" for t q e
    by (simp add: ask_def example_control_def example_peer_def)
  have "spin_once example_control 100000 (example_peer t (s # ss) trace) = example_peer (t + 1) ss (trace @ [Got s])"
    by (simp add: spin_once_def ask_def example_control_def example_peer_def emit_def)
  with assms(2) have "wait_round example_control predicate (example_peer t (s # ss) trace) = (Some (), example_peer (t + 1) ss (trace @ [Got s]))"
    by (simp add: wait_round_def)
  then have "poll always (ask (ce_clock example_control)) (wait_round example_control predicate) (t + timeout) (example_peer t (s # ss) trace) =
      Some (Some (), example_peer (t + 1) ss (trace @ [Got s]))"
    using assms(1) by (subst poll.simps) (simp add: always_def c)
  then show ?thesis by (simp add: wait_for_def c)
qed

lemma example_exercised:
  "\<exists>p. control_peer_main example_control \<lparr>ka_timeout = 9, ka_sequence = 7\<rparr> (0, example_states) = Some (0, p)"
proof -
  let ?a = "\<lparr>ka_timeout = 9, ka_sequence = 7\<rparr>" and ?s = "\<lambda>n. \<lparr>st_status = n, st_sequence = 7\<rparr>"
  let ?t0 = "[Init, CreateNode, CreateSubscription, CreatePublisher]"
  let ?t1 = "(?t0 @ [Got (?s 0)]) @ [Said ''STATIC_CONTROL_PEER_DISABLED''] @ [Sent TARGET 7]"
  let ?t2 = "(?t1 @ [Got (?s 1)]) @ [Said (''STATIC_CONTROL_PEER_ACTIVE sequence='' @ show_int 7)]"
  have seen: "seen P (example_peer t q e) = (list_ex P (states_of e), example_peer t q e)" for P t q e
    by (simp add: seen_def example_peer_def)
  have d: "discovered example_control (example_peer t q e) = seen (has_status STATUS_DISABLED) (example_peer t q e)" for t q e
    by (simp add: discovered_def ask_def example_control_def example_peer_def)
  have e: "send_command example_control ?a (example_peer t q e) = example_peer t q (e @ [Said ''STATIC_CONTROL_PEER_DISABLED''] @ [Sent TARGET 7])"
    "emit es (example_peer t q e) = example_peer t q (e @ es)" for t q e es
    by (simp_all add: send_command_def example_control_def example_peer_def emit_def)
  have w1: "wait_for example_control 9 (discovered example_control) l (example_peer 0 (map ?s [0, 1, 2]) ?t0) =
      Some (True, example_peer 1 (map ?s [1, 2]) (?t0 @ [Got (?s 0)]))" for l
    using example_wait [of 0 9 "discovered example_control" "map ?s [1, 2]" ?t0 "?s 0" l]
    by (simp add: d seen has_status_def STATUS_DISABLED_def)
  have w2: "wait_for example_control 9 (seen (has_command STATUS_ACTIVE 7)) l (example_peer 1 (map ?s [1, 2]) ?t1) =
      Some (True, example_peer 2 (map ?s [2]) (?t1 @ [Got (?s 1)]))" for l
    using example_wait [of 1 9 "seen (has_command STATUS_ACTIVE 7)" "map ?s [2]" ?t1 "?s 1" l]
    by (simp add: seen has_command_def STATUS_ACTIVE_def)
  have w3: "wait_for example_control 9 (seen (has_command STATUS_STALE 7)) l (example_peer 2 (map ?s [2]) ?t2) =
      Some (True, example_peer 3 [] (?t2 @ [Got (?s 2)]))" for l
    using example_wait [of 2 9 "seen (has_command STATUS_STALE 7)" "[]" ?t2 "?s 2" l]
    by (simp add: seen has_command_def STATUS_STALE_def)
  have f: "fst (finish ?a (example_peer 3 [] (?t2 @ [Got (?s 2)]))) = 0"
    by (simp add: finish_def example_peer_def has_status_def STATUS_FAULT_def)
  obtain p where p: "finish ?a (example_peer 3 [] (?t2 @ [Got (?s 2)])) = (0, p)" using f by (metis prod.collapse)
  have "exercise example_control ?a (example_peer 0 (map ?s [0, 1, 2]) ?t0) = Some (0, p)"
    unfolding exercise_def await_stale_def control_args.select_convs w1 w2 w3 e and_then_def option.case prod.case if_True p ..
  moreover have "example_peer 0 (map ?s [0, 1, 2]) ?t0 = \<lparr>cp_world = (0, example_states), cp_trace = ?t0\<rparr>"
    by (simp add: example_peer_def example_states_def STATUS_DISABLED_def STATUS_ACTIVE_def STATUS_STALE_def)
  ultimately show ?thesis by (simp add: control_peer_main_def)
qed

section \<open>Properties\<close>

text \<open>
  On a host whose clock moves on while the node spins, the peer returns for every
  behaviour of the device, and whatever happened, the last four things it does are to destroy the
  publisher, the subscription and the node and to shut the client library down.
\<close>

lemma control_peer_returns:
  assumes "control_time now env"
  shows "\<exists>code w' t. control_peer_main env a w =
    Some (code, \<lparr>cp_world = w', cp_trace = t @ [DestroyPublisher, DestroySubscription, DestroyNode, Shutdown]\<rparr>)"
proof -
  have s: "now (cp_world p) \<le> now (cp_world (snd (seen P p)))" for P p by (simp add: seen_def)
  have d: "now (cp_world p) \<le> now (cp_world (snd (discovered env p)))" for p
    using assms by (cases "ce_subscribers env (cp_world p)")
      (auto simp: discovered_def ask_def seen_def control_time_def, (metis snd_conv)+)
  note waits = wait_for_returns [OF assms d] wait_for_returns [OF assms s]
  have then_returns: "\<exists>r. and_then waited f = Some r" if "\<exists>ok p. waited = Some (ok, p)" "\<And>p. \<exists>r. f p = Some r"
    for waited :: "(bool \<times> 'a control_peer) option" and f
    using that by (auto simp: and_then_def)
  have "\<exists>r. exercise env a p = Some r" for p
    unfolding exercise_def await_stale_def by (intro then_returns waits) simp_all
  then obtain code p where "exercise env a \<lparr>cp_world = w, cp_trace = [Init, CreateNode, CreateSubscription, CreatePublisher]\<rparr> = Some (code, p)"
    by (metis surj_pair)
  then show ?thesis by (cases p) (auto simp: control_peer_main_def emit_def)
qed

text \<open>
  Property C38. When the peer exits with 0, it had received a \<open>DISABLED\<close> state before it sent
  anything, it sent one command, with the target 0.5 and the chosen sequence number, and only after
  that did it report, having received them, an \<open>ACTIVE\<close> and a \<open>STALE\<close> state with this number; no
  state it received was a \<open>FAULT\<close>.
\<close>

theorem control_peer_contract:
  assumes "control_peer_main env a w = Some (0, p)"
  shows "\<exists>as bs cs. states_of (cp_trace p) = as @ bs @ cs \<and>
    cp_trace p = [Init, CreateNode, CreateSubscription, CreatePublisher] @ map Got as
      @ [Said ''STATIC_CONTROL_PEER_DISABLED'', Sent TARGET (ka_sequence a)] @ map Got bs
      @ [Said (''STATIC_CONTROL_PEER_ACTIVE sequence='' @ show_int (ka_sequence a))] @ map Got cs
      @ [Said (''STATIC_CONTROL_PEER_STALE sequence='' @ show_int (ka_sequence a)),
         Said (''STATIC_CONTROL_PEER_PASS state_samples='' @ show_int (int (length (as @ bs @ cs)))),
         DestroyPublisher, DestroySubscription, DestroyNode, Shutdown] \<and>
    list_ex (has_status STATUS_DISABLED) as \<and>
    list_ex (has_command STATUS_ACTIVE (ka_sequence a)) (as @ bs) \<and>
    list_ex (has_command STATUS_STALE (ka_sequence a)) (as @ bs @ cs) \<and>
    \<not> list_ex (has_status STATUS_FAULT) (as @ bs @ cs)"
proof -
  have then_0: "\<exists>q. waited = Some (True, q) \<and> f q = Some (0, r)" if "and_then waited f = Some (0, r)"
    for waited :: "(bool \<times> 'a control_peer) option" and f r
    using that by (auto simp: and_then_def split: option.splits if_splits)
  let ?start = "[Init, CreateNode, CreateSubscription, CreatePublisher]"
  let ?wait = "\<lambda>n. seen (has_command n (ka_sequence a))"
  from assms obtain p0 where ex: "exercise env a \<lparr>cp_world = w, cp_trace = ?start\<rparr> = Some (0, p0)"
    and p: "cp_trace p = cp_trace p0 @ [DestroyPublisher, DestroySubscription, DestroyNode, Shutdown]"
    by (auto simp: control_peer_main_def)
  from then_0 [OF ex [unfolded exercise_def]] obtain p1 where
    w1: "wait_for env (ka_timeout a) (discovered env) ''discovery_and_disabled_state'' \<lparr>cp_world = w, cp_trace = ?start\<rparr> = Some (True, p1)"
    and e1: "and_then (wait_for env (ka_timeout a) (?wait STATUS_ACTIVE) ''active_state'' (send_command env a p1)) (await_stale env a) = Some (0, p0)"
    by (elim exE conjE)
  from then_0 [OF e1] obtain p2 where
    w2: "wait_for env (ka_timeout a) (?wait STATUS_ACTIVE) ''active_state'' (send_command env a p1) = Some (True, p2)"
    and e2: "await_stale env a p2 = Some (0, p0)" by (elim exE conjE)
  let ?p3 = "emit [Said (''STATIC_CONTROL_PEER_ACTIVE sequence='' @ show_int (ka_sequence a))] p2"
  from then_0 [OF e2 [unfolded await_stale_def]] obtain p4 where
    w3: "wait_for env (ka_timeout a) (?wait STATUS_STALE) ''stale_state'' ?p3 = Some (True, p4)"
    and e3: "Some (finish a p4) = Some (0, p0)" by (elim exE conjE)
  from wait_for_result [OF looks_discovered w1] obtain as where
    as: "cp_trace p1 = ?start @ map Got as" "list_ex (has_status STATUS_DISABLED) as" by auto
  from wait_for_result [OF looks_seen w2] obtain bs where
    bs: "cp_trace p2 = cp_trace (send_command env a p1) @ map Got bs" "list_ex (has_command STATUS_ACTIVE (ka_sequence a)) (states_of (cp_trace p2))"
    by metis
  from wait_for_result [OF looks_seen w3] obtain cs where
    cs: "cp_trace p4 = cp_trace ?p3 @ map Got cs" "list_ex (has_command STATUS_STALE (ka_sequence a)) (states_of (cp_trace p4))"
    by metis
  have st: "states_of (cp_trace p1) = as" "states_of (cp_trace p2) = as @ bs" "states_of (cp_trace p4) = as @ bs @ cs"
    using as(1) bs(1) cs(1) by (simp_all add: send_command_def Let_def)
  from e3 st(3) have fin: "\<not> list_ex (has_status STATUS_FAULT) (as @ bs @ cs)"
    "cp_trace p0 = cp_trace p4 @ [Said (''STATIC_CONTROL_PEER_STALE sequence='' @ show_int (ka_sequence a)),
       Said (''STATIC_CONTROL_PEER_PASS state_samples='' @ show_int (int (length (as @ bs @ cs))))]"
    by (simp_all add: finish_def Let_def split: if_splits) auto
  show ?thesis
    by (rule exI [of _ as], rule exI [of _ bs], rule exI [of _ cs])
       (use as bs cs st fin p in \<open>simp add: send_command_def Let_def\<close>)
qed

theorem control_peer_contract_witness:
  "\<exists>p as bs cs. control_peer_main example_control \<lparr>ka_timeout = 9, ka_sequence = 7\<rparr> (0, example_states) = Some (0, p) \<and>
     states_of (cp_trace p) = as @ bs @ cs \<and> list_ex (has_command STATUS_ACTIVE 7) (as @ bs)"
proof -
  obtain p where p: "control_peer_main example_control \<lparr>ka_timeout = 9, ka_sequence = 7\<rparr> (0, example_states) = Some (0, p)"
    using example_exercised by blast
  from control_peer_contract [OF p] p show ?thesis by (simp only: control_args.select_convs) blast
qed

end
