(* ===== verification/Py_Io.thy ===== *)
theory Py_Io
  imports Py_Loop
begin

text \<open>
  Programs with effects: a function of the state that may not return, and that returns a value or an
  exception with the new state. The combinators are the control structures of the peers: sequencing,
  \<open>try\<close>/\<open>finally\<close>, and the polling loop. The collection \<open>returns\<close> has the rules that a program
  returns, the collection \<open>keeps\<close> the rules that a relation between the states before and after holds.
\<close>

type_synonym ('s, 'a) io = "'s \<Rightarrow> ('a res \<times> 's) option"

definition returnI :: "'a \<Rightarrow> ('s, 'a) io" where
  "returnI x s = Some (Inr x, s)"

definition raiseI :: "pyexn \<Rightarrow> ('s, 'a) io" where
  "raiseI e s = Some (Inl e, s)"

definition bindI :: "('s, 'a) io \<Rightarrow> ('a \<Rightarrow> ('s, 'b) io) \<Rightarrow> ('s, 'b) io" where
  "bindI m f s =
     (case m s of None \<Rightarrow> None | Some (Inl e, s1) \<Rightarrow> Some (Inl e, s1) | Some (Inr x, s1) \<Rightarrow> f x s1)"

text \<open>An update of the state, and an operation that answers.\<close>

definition doI :: "('s \<Rightarrow> 's) \<Rightarrow> ('s, unit) io" where
  "doI f s = Some (Inr (), f s)"

definition askI :: "('s \<Rightarrow> 'a \<times> 's) \<Rightarrow> ('s, 'a) io" where
  "askI f s = (case f s of (x, s1) \<Rightarrow> Some (Inr x, s1))"

definition tryI :: "('s \<Rightarrow> 'a res \<times> 's) \<Rightarrow> ('s, 'a) io" where
  "tryI f s = Some (f s)"

text \<open>\<open>try: m finally: c\<close>, where \<open>c\<close> raises nothing.\<close>

definition finallyI :: "('s, 'a) io \<Rightarrow> ('s \<Rightarrow> 's) \<Rightarrow> ('s, 'a) io" where
  "finallyI m c s = map_option (apsnd c) (m s)"

definition pollI ::
  "('s \<Rightarrow> bool \<times> 's) \<Rightarrow> ('s \<Rightarrow> int \<times> 's) \<Rightarrow> ('s \<Rightarrow> 'a res option \<times> 's) \<Rightarrow> int \<Rightarrow> ('s, 'a option) io" where
  "pollI guard clock body deadline s =
     (case poll guard clock body deadline s of
        None \<Rightarrow> None
      | Some (None, s1) \<Rightarrow> Some (Inr None, s1)
      | Some (Some (Inl e), s1) \<Rightarrow> Some (Inl e, s1)
      | Some (Some (Inr x), s1) \<Rightarrow> Some (Inr (Some x), s1))"

fun forI :: "('a \<Rightarrow> ('s, unit) io) \<Rightarrow> 'a list \<Rightarrow> ('s, unit) io" where
  "forI f [] = returnI ()"
| "forI f (x # xs) = bindI (f x) (\<lambda>_. forI f xs)"

text \<open>What a run that returned has done.\<close>

named_theorems io_simps \<open>inversion of runs that returned\<close>

lemma bindI_Some [io_simps]:
  "bindI m f s = Some (r, s') \<longleftrightarrow>
     (\<exists>e. m s = Some (Inl e, s') \<and> r = Inl e) \<or> (\<exists>x s1. m s = Some (Inr x, s1) \<and> f x s1 = Some (r, s'))"
  by (auto simp: bindI_def split: option.splits sum.splits)

lemma basic_Some [io_simps]:
  "returnI x s = Some (r, s') \<longleftrightarrow> r = Inr x \<and> s' = s"
  "raiseI e s = Some (r, s') \<longleftrightarrow> r = Inl e \<and> s' = s"
  "askI g s = Some (r, s') \<longleftrightarrow> r = Inr (fst (g s)) \<and> s' = snd (g s)"
  "tryI h s = Some (r, s') \<longleftrightarrow> r = fst (h s) \<and> s' = snd (h s)"
  by (auto simp: returnI_def raiseI_def askI_def tryI_def split: prod.splits)

lemma doI_Some [io_simps]: "doI f s = Some (r, s') \<longleftrightarrow> r = Inr () \<and> s' = f s"
  by (auto simp: doI_def)

lemma finallyI_Some [io_simps]:
  "finallyI m c s = Some (r, s') \<longleftrightarrow> (\<exists>s1. m s = Some (r, s1) \<and> s' = c s1)"
  by (auto simp: finallyI_def)

section \<open>Programs that return\<close>

named_theorems returns \<open>a program returns\<close>

definition returns :: "('s, 'a) io \<Rightarrow> bool" where
  "returns m \<longleftrightarrow> (\<forall>s. m s \<noteq> None)"

lemma returnsD: "returns m \<Longrightarrow> \<exists>r s'. m s = Some (r, s')"
  by (auto simp: returns_def)

lemma returns_basic [returns]:
  "returns (returnI x)" "returns (raiseI e)" "returns (doI f)" "returns (askI g)" "returns (tryI h)"
  by (simp_all add: returns_def returnI_def raiseI_def doI_def askI_def tryI_def split: prod.splits)

lemma returns_bindI [returns]: "returns m \<Longrightarrow> (\<And>x. returns (f x)) \<Longrightarrow> returns (bindI m f)"
  by (auto simp: returns_def bindI_def split: option.splits sum.splits)

lemma returns_finallyI [returns]: "returns m \<Longrightarrow> returns (finallyI m c)"
  by (simp add: returns_def finallyI_def)

lemma returns_if [returns]: "returns m \<Longrightarrow> returns n \<Longrightarrow> returns (if b then m else n)"
  by simp

lemma returns_forI [returns]: "(\<And>x. returns (f x)) \<Longrightarrow> returns (forI f xs)"
  by (induction xs) (auto intro: returns)

lemma returns_pollI:
  assumes "reads_time now clock" and "\<And>s. now s \<le> now (snd (guard s))"
    and "\<And>s s'. body s = (None, s') \<Longrightarrow> now s < now s'"
  shows "returns (pollI guard clock body deadline)"
  unfolding returns_def
proof
  fix s
  from poll_returns [OF assms] obtain r s' where "poll guard clock body deadline s = Some (r, s')" by blast
  then show "pollI guard clock body deadline s \<noteq> None"
    by (auto simp: pollI_def split: option.splits sum.splits)
qed

section \<open>What a program keeps\<close>

named_theorems keeps \<open>a program keeps a relation\<close>

text \<open>A relation that holds between the states before and after, whether the program raises or not.\<close>

definition keeps :: "('s \<Rightarrow> 's \<Rightarrow> bool) \<Rightarrow> ('s, 'a) io \<Rightarrow> bool" where
  "keeps R m \<longleftrightarrow> (\<forall>s r s'. m s = Some (r, s') \<longrightarrow> R s s')"

lemma keepsD: "keeps R m \<Longrightarrow> m s = Some (r, s') \<Longrightarrow> R s s'"
  by (auto simp: keeps_def)

definition preorder_on_states :: "('s \<Rightarrow> 's \<Rightarrow> bool) \<Rightarrow> bool" where
  "preorder_on_states R \<longleftrightarrow> reflp R \<and> transp R"

lemma keeps_basic [keeps]:
  assumes "preorder_on_states R"
  shows "keeps R (returnI x)" "keeps R (raiseI e)"
  using assms by (auto simp: keeps_def returnI_def raiseI_def preorder_on_states_def reflp_def)

lemma keeps_doI [keeps]: "(\<And>s. R s (f s)) \<Longrightarrow> keeps R (doI f)"
  by (simp add: keeps_def doI_def)

lemma keeps_askI [keeps]: "(\<And>s. R s (snd (f s))) \<Longrightarrow> keeps R (askI f)"
  by (auto simp: keeps_def askI_def split: prod.splits) (metis snd_conv)

lemma keeps_tryI [keeps]: "(\<And>s. R s (snd (f s))) \<Longrightarrow> keeps R (tryI f)"
  by (auto simp: keeps_def tryI_def) (metis snd_conv)

lemma keeps_bindI [keeps]:
  assumes "preorder_on_states R" and "keeps R m" and "\<And>x. keeps R (f x)"
  shows "keeps R (bindI m f)"
proof -
  have "transp R" using assms(1) by (simp add: preorder_on_states_def)
  then have trans: "R x y \<Longrightarrow> R y z \<Longrightarrow> R x z" for x y z by (blast dest: transpD)
  show ?thesis
    unfolding keeps_def
  proof (intro allI impI)
    fix s r s'
    assume "bindI m f s = Some (r, s')"
    then consider e where "m s = Some (Inl e, s')" | x s1 where "m s = Some (Inr x, s1)" "f x s1 = Some (r, s')"
      by (auto simp: bindI_def split: option.splits sum.splits)
    then show "R s s'"
      by cases (auto dest: keepsD [OF assms(2)] keepsD [OF assms(3)] intro: trans)
  qed
qed

lemma keeps_if [keeps]: "keeps R m \<Longrightarrow> keeps R n \<Longrightarrow> keeps R (if b then m else n)"
  by simp

lemma keeps_forI [keeps]: "preorder_on_states R \<Longrightarrow> (\<And>x. keeps R (f x)) \<Longrightarrow> keeps R (forI f xs)"
  by (induction xs) (auto intro: keeps)

lemma keeps_pollI [keeps]:
  assumes R: "preorder_on_states R" and "\<And>s. R s (snd (guard s))" "\<And>s. R s (snd (clock s))" "\<And>s. R s (snd (body s))"
  shows "keeps R (pollI guard clock body deadline)"
  unfolding keeps_def
proof (intro allI impI)
  fix s r s'
  assume "pollI guard clock body deadline s = Some (r, s')"
  then obtain res where p: "poll guard clock body deadline s = Some (res, s')"
    by (auto simp: pollI_def split: option.splits sum.splits prod.splits)
  have refl: "R x x" and trans: "R x y \<Longrightarrow> R y z \<Longrightarrow> R x z" for x y z
    using R by (auto simp: preorder_on_states_def reflp_def dest: transpD)
  show "R s s'"
    by (rule poll_rule [where I = "R s" and Q = "\<lambda>_. R s", OF p])
       (use assms(2-4) in \<open>auto intro: refl elim: trans, (metis snd_conv trans)+\<close>)
qed

text \<open>An invariant of the loop holds when it stops, whatever stops it.\<close>

lemma pollI_invariant:
  assumes "pollI guard clock body deadline s = Some (r, s')" and "I s"
    and "\<And>s. I s \<Longrightarrow> I (snd (guard s))" "\<And>s. I s \<Longrightarrow> I (snd (clock s))" "\<And>s. I s \<Longrightarrow> I (snd (body s))"
  shows "I s'"
proof -
  from assms(1) obtain res where p: "poll guard clock body deadline s = Some (res, s')"
    by (auto simp: pollI_def split: option.splits sum.splits prod.splits)
  have body: "I s''" if "I q" "body q = (x, s'')" for q x s'' using assms(5) [OF that(1)] that(2) by simp
  show ?thesis
    by (rule poll_rule [where I = I and Q = "\<lambda>_. I", OF p assms(2)]) (use assms(3,4) body in auto)
qed

lemma pollI_no_raise:
  assumes "pollI guard clock body deadline s = Some (r, s')" and "\<And>s. fst (body s) = None"
  shows "r = Inr None"
proof -
  from assms(1) obtain res where p: "poll guard clock body deadline s = Some (res, s')"
    and r: "res = None \<longrightarrow> r = Inr None"
    by (auto simp: pollI_def split: option.splits sum.splits prod.splits)
  have "res = None"
    by (rule poll_rule [where I = "\<lambda>_. True" and Q = "\<lambda>res _. res = None", OF p])
       (use assms(2) in \<open>auto, (metis fst_conv option.distinct(1))?\<close>)
  with r show ?thesis by simp
qed


section \<open>Loops of programs\<close>

text \<open>\<open>for (;;)\<close> around a program: it goes on while the body returns nothing.\<close>

partial_function (option) loopI :: "('s, 'a option) io \<Rightarrow> 's \<Rightarrow> ('a res \<times> 's) option" where
  "loopI body s =
     (case body s of
        None \<Rightarrow> None
      | Some (Inl e, s1) \<Rightarrow> Some (Inl e, s1)
      | Some (Inr None, s1) \<Rightarrow> loopI body s1
      | Some (Inr (Some x), s1) \<Rightarrow> Some (Inr x, s1))"

lemma loopI_rule:
  fixes Q :: "'a res \<Rightarrow> 's \<Rightarrow> bool"
  assumes "loopI body s = Some (r, s')" and "I s"
    and step: "\<And>s s'. I s \<Longrightarrow> body s = Some (Inr None, s') \<Longrightarrow> I s'"
    and stop: "\<And>s x s'. I s \<Longrightarrow> body s = Some (Inr (Some x), s') \<Longrightarrow> Q (Inr x) s'"
    and raised: "\<And>s e s'. I s \<Longrightarrow> body s = Some (Inl e, s') \<Longrightarrow> Q (Inl e) s'"
  shows "Q r s'"
proof -
  define P where "P = (\<lambda>b s (out :: 'a res \<times> 's). b = body \<longrightarrow> I s \<longrightarrow> Q (fst out) (snd out))"
  from assms(1) have "P body s (r, s')"
  proof (rule loopI.raw_induct [rotated])
    fix rec b s out
    assume IH: "\<And>b s out. rec b s = Some out \<Longrightarrow> P b s out"
      and eq: "(case b s of None \<Rightarrow> None | Some (Inl e, s1) \<Rightarrow> Some (Inl e, s1) | Some (Inr None, s1) \<Rightarrow> rec b s1
        | Some (Inr (Some x), s1) \<Rightarrow> Some (Inr x, s1)) = Some out"
    show "P b s out"
      unfolding P_def
    proof (intro impI)
      assume b: "b = body" and I: "I s"
      from eq consider (raised) e s1 where "b s = Some (Inl e, s1)" "out = (Inl e, s1)"
        | (go) s1 where "b s = Some (Inr None, s1)" "rec b s1 = Some out"
        | (stop) x s1 where "b s = Some (Inr (Some x), s1)" "out = (Inr x, s1)"
        by (auto split: option.splits sum.splits)
      then show "Q (fst out) (snd out)"
      proof cases
        case go
        with IH [OF go(2)] b I step show ?thesis by (simp add: P_def)
      qed (use b I stop assms(5) in auto)
    qed
  qed
  with assms(2) show ?thesis by (simp add: P_def)
qed

lemma keeps_loopI [keeps]:
  assumes R: "preorder_on_states R" and "keeps R body"
  shows "keeps R (loopI body)"
  unfolding keeps_def
proof (intro allI impI)
  fix s r s'
  assume loop: "loopI body s = Some (r, s')"
  have refl: "R x x" and trans: "R x y \<Longrightarrow> R y z \<Longrightarrow> R x z" for x y z
    using R by (auto simp: preorder_on_states_def reflp_def dest: transpD)
  show "R s s'"
    by (rule loopI_rule [where I = "R s" and Q = "\<lambda>_. R s", OF loop]) (use keepsD [OF assms(2)] refl trans in blast)+
qed

lemma returns_loopI:
  fixes m :: "'s \<Rightarrow> nat"
  assumes "returns body" and "\<And>s s'. body s = Some (Inr None, s') \<Longrightarrow> m s' < m s"
  shows "returns (loopI body)"
  unfolding returns_def
proof
  fix s
  show "loopI body s \<noteq> None"
  proof (induction "m s" arbitrary: s rule: less_induct)
    case less
    from returnsD [OF assms(1), of s] obtain r s1 where "body s = Some (r, s1)" by blast
    with less assms(2) [of s s1] show ?case
      by (subst loopI.simps) (auto split: sum.split option.split)
  qed
qed

end
