(* ===== verification/Wifi_Peer.thy ===== *)
theory Wifi_Peer
  imports Py_Io Py_Text
begin

text \<open>
  \<open>src/samples/wifi/peer.py\<close>: the desktop half of the Wi-Fi acceptance test, the roles that talk to
  the device through one node (publisher, subscriber, observer of the outbound graph). The ROS client
  library and the clock are operations on a world that is a parameter; they answer or raise. What the
  peer does, prints and receives is kept in one trace, in order. Times are integers in microseconds.
\<close>

section \<open>Constants, endpoints and events\<close>

definition EXPECTED_SAMPLES :: nat where "EXPECTED_SAMPLES = 18"
definition MAX_RECOVERY_SAMPLES :: int where "MAX_RECOVERY_SAMPLES = 10"
definition DESKTOP_TO_DEVICE_VALUE :: int where "DESKTOP_TO_DEVICE_VALUE = 314159265"
definition DEVICE_TO_DESKTOP_VALUE :: int where "DEVICE_TO_DESKTOP_VALUE = 271828182"
definition RATE_CASES :: "(int \<times> int) list" where "RATE_CASES = [(1, 3), (10, 5), (100, 10)]"
definition TRANSIENT_HISTORY_LAST_VALUE :: int where "TRANSIENT_HISTORY_LAST_VALUE = 5"
definition TRANSIENT_LIVE_VALUE :: int where "TRANSIENT_LIVE_VALUE = 6"
definition DEVICE_NODE :: "string \<times> string" where "DEVICE_NODE = (''ros2_zephyr_esp32s3'', ''/'')"
definition GRAPH_LOCAL_TOPIC :: string where "GRAPH_LOCAL_TOPIC = ''/ros2_zephyr/graph_local''"
definition GRAPH_REMOTE_A :: string where "GRAPH_REMOTE_A = ''/ros2_zephyr/graph_remote_a''"
definition GRAPH_REMOTE_B :: string where "GRAPH_REMOTE_B = ''/ros2_zephyr/graph_remote_b''"
definition GRAPH_HOLD_SECONDS :: int where "GRAPH_HOLD_SECONDS = 12000000"
definition GRAPH_LOSS_HOLD_SECONDS :: int where "GRAPH_LOSS_HOLD_SECONDS = 20000000"

datatype durability_policy = DurabilityPolicy_TRANSIENT_LOCAL | DurabilityPolicy_VOLATILE
datatype history_policy = HistoryPolicy_KEEP_LAST
datatype reliability_policy = ReliabilityPolicy_RELIABLE | ReliabilityPolicy_BEST_EFFORT

record qos_profile =
  qp_depth :: int
  qp_durability :: durability_policy
  qp_history :: history_policy
  qp_reliability :: reliability_policy

definition endpoint_qos :: "string \<Rightarrow> string \<Rightarrow> int \<Rightarrow> qos_profile" where
  "endpoint_qos reliability durability depth =
     \<lparr>qp_depth = depth,
      qp_durability = (if durability = ''transient_local'' then DurabilityPolicy_TRANSIENT_LOCAL else DurabilityPolicy_VOLATILE),
      qp_history = HistoryPolicy_KEEP_LAST,
      qp_reliability = (if reliability = ''reliable'' then ReliabilityPolicy_RELIABLE else ReliabilityPolicy_BEST_EFFORT)\<rparr>"

text \<open>
  Workers and their pipes are numbered: 0 is \<open>alpha\<close>, 1 is \<open>beta\<close>, 2 is \<open>restarted\<close>. \<open>Alive\<close> records
  an answer of \<open>is_alive\<close>. An endpoint without a profile is created with the plain depth 10.
\<close>

datatype wifi_event =
    Usage_error string
  | Rcl_init
  | Create_node string "string option"
  | Create_publisher string "qos_profile option"
  | Create_subscription string "qos_profile option"
  | Publish int
  | Received int int
  | Out string
  | Err string
  | Destroy_publisher string
  | Destroy_subscription string
  | Destroy_node
  | Rcl_shutdown
  | Open_pipe nat
  | Started nat string
  | Close_child nat
  | Send nat string
  | Alive nat bool
  | Kill nat
  | Join nat int
  | Close nat
  | Sleep int

text \<open>
  The operations of the world. \<open>wv_act\<close> is what an event that asks nothing does to it; the others
  answer. The questions about a node raise when the node is not in the graph, sending raises when the
  pipe is broken, receiving when it has ended, opening a pipe when there are no descriptors left, and
  starting when the process cannot be made.
\<close>

record 'w wifi_env =
  wv_clock :: "'w \<Rightarrow> int \<times> 'w"
  wv_spin :: "int \<Rightarrow> 'w \<Rightarrow> int list \<times> 'w"
  wv_act :: "wifi_event \<Rightarrow> 'w \<Rightarrow> 'w"
  wv_subscribers :: "'w \<Rightarrow> int \<times> 'w"
  wv_publishers :: "string \<Rightarrow> 'w \<Rightarrow> string list \<times> 'w"
  wv_nodes :: "'w \<Rightarrow> (string \<times> string) list \<times> 'w"
  wv_publishers_of :: "string \<times> string \<Rightarrow> 'w \<Rightarrow> (string \<times> string list) list res \<times> 'w"
  wv_subscribers_of :: "string \<times> string \<Rightarrow> 'w \<Rightarrow> (string \<times> string list) list res \<times> 'w"
  wv_pipe :: "nat \<Rightarrow> 'w \<Rightarrow> unit res \<times> 'w"
  wv_start :: "nat \<Rightarrow> string \<Rightarrow> 'w \<Rightarrow> unit res \<times> 'w"
  wv_alive :: "nat \<Rightarrow> 'w \<Rightarrow> bool \<times> 'w"
  wv_poll :: "nat \<Rightarrow> int \<Rightarrow> 'w \<Rightarrow> bool \<times> 'w"
  wv_recv :: "nat \<Rightarrow> 'w \<Rightarrow> string res \<times> 'w"
  wv_send :: "nat \<Rightarrow> string \<Rightarrow> 'w \<Rightarrow> unit res \<times> 'w"

text \<open>
  The peer: the world, the trace, and the local variables that a loop changes: whether the
  subscription is open, the number of recovery samples, and whether there is a restarted worker.
\<close>

record 'w wifi_peer =
  wp_world :: 'w
  wp_trace :: "wifi_event list"
  wp_receiving :: bool
  wp_recovery :: int
  wp_restarted :: bool

definition wifi_start :: "'w \<Rightarrow> 'w wifi_peer" where
  "wifi_start w = \<lparr>wp_world = w, wp_trace = [], wp_receiving = False, wp_recovery = 0, wp_restarted = False\<rparr>"

definition say :: "wifi_event list \<Rightarrow> 'w wifi_peer \<Rightarrow> 'w wifi_peer" where
  "say es p = p\<lparr>wp_trace := wp_trace p @ es\<rparr>"

definition query :: "('w \<Rightarrow> 'a \<times> 'w) \<Rightarrow> 'w wifi_peer \<Rightarrow> 'a \<times> 'w wifi_peer" where
  "query f p = (case f (wp_world p) of (x, w) \<Rightarrow> (x, p\<lparr>wp_world := w\<rparr>))"

definition act :: "'w wifi_env \<Rightarrow> wifi_event \<Rightarrow> 'w wifi_peer \<Rightarrow> 'w wifi_peer" where
  "act env e p = say [e] (p\<lparr>wp_world := wv_act env e (wp_world p)\<rparr>)"

definition clock :: "'w wifi_env \<Rightarrow> 'w wifi_peer \<Rightarrow> int \<times> 'w wifi_peer" where
  "clock env = query (wv_clock env)"

text \<open>The values and the times that the callback of the subscription has stored.\<close>

fun received_values :: "wifi_event list \<Rightarrow> int list" where
  "received_values [] = []"
| "received_values (Received v t # es) = v # received_values es"
| "received_values (_ # es) = received_values es"

fun received_at :: "wifi_event list \<Rightarrow> int list" where
  "received_at [] = []"
| "received_at (Received v t # es) = t # received_at es"
| "received_at (_ # es) = received_at es"

definition receive :: "'w wifi_env \<Rightarrow> int \<Rightarrow> 'w wifi_peer \<Rightarrow> 'w wifi_peer" where
  "receive env value p =
     (case clock env p of (now, p1) \<Rightarrow>
      let p2 = say [Received value now] p1
      in say [Out (''ROS2_ZEPHYR_PEER_RECEIVED value='' @ show_int value @ '' sequence='' @
           show_int (int (length (received_at (wp_trace p2)))))] p2)"

text \<open>\<open>rclpy.spin_once\<close>: the samples that arrive go to the callback of an open subscription.\<close>

definition wifi_spin :: "'w wifi_env \<Rightarrow> int \<Rightarrow> 'w wifi_peer \<Rightarrow> 'w wifi_peer" where
  "wifi_spin env timeout p =
     (case query (wv_spin env timeout) p of (msgs, p1) \<Rightarrow>
      if wp_receiving p1 then fold (receive env) msgs p1 else p1)"

text \<open>\<open>f"{x * 1000:.3f}"\<close> of a time in seconds, and the \<open>str\<close> of a list of integers.\<close>

definition show_ms :: "int \<Rightarrow> string" where
  "show_ms us =
     (let n = nat \<bar>us\<bar>; frac = show_nat (n mod 1000)
      in (if us < 0 then ''-'' else '''') @ show_nat (n div 1000) @ ''.'' @ replicate (3 - length frac) (CHR ''0'') @ frac)"

definition show_list :: "int list \<Rightarrow> string" where
  "show_list xs = ''['' @ join '', '' (map show_int xs) @ '']''"

section \<open>Waiting\<close>

definition wait_step ::
  "'w wifi_env \<Rightarrow> ('w wifi_peer \<Rightarrow> bool res \<times> 'w wifi_peer) \<Rightarrow> 'w wifi_peer \<Rightarrow> unit res option \<times> 'w wifi_peer" where
  "wait_step env condition p =
     (case condition (wifi_spin env 100000 p) of
        (Inl e, p1) \<Rightarrow> (Some (Inl e), p1)
      | (Inr ok, p1) \<Rightarrow> (if ok then Some (Inr ()) else None, p1))"

definition wait_for_condition ::
  "'w wifi_env \<Rightarrow> ('w wifi_peer \<Rightarrow> bool res \<times> 'w wifi_peer) \<Rightarrow> int \<Rightarrow> ('w wifi_peer, bool) io" where
  "wait_for_condition env condition timeout =
     bindI (askI (clock env)) (\<lambda>now.
     bindI (pollI always (clock env) (wait_step env condition) (now + timeout)) (\<lambda>found.
     returnI (found \<noteq> None)))"

definition has_subscriber :: "'w wifi_env \<Rightarrow> 'w wifi_peer \<Rightarrow> bool \<times> 'w wifi_peer" where
  "has_subscriber env p = apfst (\<lambda>n. 0 < n) (query (wv_subscribers env) p)"

definition wait_for_subscriber :: "'w wifi_env \<Rightarrow> int \<Rightarrow> ('w wifi_peer, bool) io" where
  "wait_for_subscriber env = wait_for_condition env (\<lambda>p. apfst Inr (has_subscriber env p))"

definition wait_for_publisher :: "'w wifi_env \<Rightarrow> string \<Rightarrow> int \<Rightarrow> ('w wifi_peer, bool) io" where
  "wait_for_publisher env topic =
     wait_for_condition env (\<lambda>p. apfst (\<lambda>infos. Inr (infos \<noteq> [])) (query (wv_publishers env topic) p))"

text \<open>\<open>while time.monotonic() < deadline: rclpy.spin_once(node, timeout_sec=step)\<close>\<close>

definition idle_step :: "'w wifi_env \<Rightarrow> int \<Rightarrow> 'w wifi_peer \<Rightarrow> unit res option \<times> 'w wifi_peer" where
  "idle_step env step p = (None, wifi_spin env step p)"

definition spin_for :: "'w wifi_env \<Rightarrow> int \<Rightarrow> int \<Rightarrow> ('w wifi_peer, unit) io" where
  "spin_for env duration step =
     bindI (askI (clock env)) (\<lambda>now.
     bindI (pollI always (clock env) (idle_step env step) (now + duration)) (\<lambda>_. returnI ()))"

section \<open>The outbound graph\<close>

definition device_node_visible :: "'w wifi_env \<Rightarrow> 'w wifi_peer \<Rightarrow> bool \<times> 'w wifi_peer" where
  "device_node_visible env p = apfst (\<lambda>names. DEVICE_NODE \<in> set names) (query (wv_nodes env) p)"

definition names_local :: "(string \<times> string list) list \<Rightarrow> bool" where
  "names_local topics = list_ex (\<lambda>(name, _). name = GRAPH_LOCAL_TOPIC) topics"

definition device_topic_state :: "'w wifi_env \<Rightarrow> 'w wifi_peer \<Rightarrow> (bool \<times> bool) option res \<times> 'w wifi_peer" where
  "device_topic_state env p =
     (case device_node_visible env p of (visible, p1) \<Rightarrow>
      if \<not> visible then (Inr None, p1) else
      (case query (wv_publishers_of env DEVICE_NODE) p1 of
         (Inl e, p2) \<Rightarrow> (Inl e, p2)
       | (Inr publishers, p2) \<Rightarrow>
         (case query (wv_subscribers_of env DEVICE_NODE) p2 of
            (Inl e, p3) \<Rightarrow> (Inl e, p3)
          | (Inr subscribers, p3) \<Rightarrow> (Inr (Some (names_local publishers, names_local subscribers)), p3))))"

definition topic_state_is :: "'w wifi_env \<Rightarrow> bool \<times> bool \<Rightarrow> 'w wifi_peer \<Rightarrow> bool res \<times> 'w wifi_peer" where
  "topic_state_is env expected p = apfst (map_sum id (\<lambda>state. state = Some expected)) (device_topic_state env p)"

definition show_bool :: "bool \<Rightarrow> string" where
  "show_bool b = (if b then ''True'' else ''False'')"

definition show_observed :: "(bool \<times> bool) option \<Rightarrow> string" where
  "show_observed state =
     (case state of None \<Rightarrow> ''None'' | Some (p, s) \<Rightarrow> ''('' @ show_bool p @ '', '' @ show_bool s @ '')'')"

definition GRAPH_PHASES :: "(string \<times> bool \<times> bool) list" where
  "GRAPH_PHASES = [(''pubsub'', True, True), (''subscription_only'', False, True), (''node_only'', False, False)]"

definition outbound_pass :: "string \<Rightarrow> int \<Rightarrow> wifi_event" where
  "outbound_pass phase cycle =
     Out (''ROS2_ZEPHYR_PEER_GRAPH_PASS direction=outbound phase='' @ phase @ '' cycle='' @ show_int cycle)"

fun outbound_phases ::
  "'w wifi_env \<Rightarrow> int \<Rightarrow> int \<Rightarrow> (string \<times> bool \<times> bool) list \<Rightarrow> ('w wifi_peer, bool) io" where
  "outbound_phases env timeout cycle [] = returnI True"
| "outbound_phases env timeout cycle ((phase, expected) # phases) =
     bindI (wait_for_condition env (topic_state_is env expected) timeout) (\<lambda>ok.
     if ok then
       bindI (doI (say [outbound_pass phase cycle])) (\<lambda>_. outbound_phases env timeout cycle phases)
     else
       bindI (tryI (device_topic_state env)) (\<lambda>observed.
       bindI (doI (say [Err (''ROS2_ZEPHYR_PEER_ERROR role=graph-outbound phase='' @ phase @
         '' observed='' @ show_observed observed)])) (\<lambda>_. returnI False)))"

definition run_graph_outbound :: "'w wifi_env \<Rightarrow> int \<Rightarrow> int \<Rightarrow> ('w wifi_peer, int) io" where
  "run_graph_outbound env timeout cycle =
     bindI (outbound_phases env timeout cycle GRAPH_PHASES) (\<lambda>ok.
     if \<not> ok then returnI 1 else
     bindI (wait_for_condition env (\<lambda>p. apfst (\<lambda>visible. Inr (\<not> visible)) (device_node_visible env p)) timeout) (\<lambda>gone.
     if \<not> gone then
       bindI (doI (say [Err ''ROS2_ZEPHYR_PEER_ERROR role=graph-outbound phase=node_cleanup''])) (\<lambda>_. returnI 1)
     else
       bindI (doI (say [outbound_pass ''node_cleanup'' cycle])) (\<lambda>_. returnI 0)))"

section \<open>The publisher\<close>

record wifi_args =
  wa_role :: string
  wa_timeout :: int
  wa_reliability :: string
  wa_durability :: string
  wa_depth :: int
  wa_cycles :: int
  wa_skip_match :: bool

definition transient :: "wifi_args \<Rightarrow> bool" where
  "transient a \<longleftrightarrow> wa_durability a = ''transient_local''"

definition args_qos :: "wifi_args \<Rightarrow> qos_profile option" where
  "args_qos a = Some (endpoint_qos (wa_reliability a) (wa_durability a) (wa_depth a))"

definition publish_history_value :: "'w wifi_env \<Rightarrow> int \<Rightarrow> ('w wifi_peer, unit) io" where
  "publish_history_value env v =
     doI (\<lambda>p. say [Out (''ROS2_ZEPHYR_PEER_SENT phase=history value='' @ show_int v)]
                (wifi_spin env 20000 (act env (Publish v) p)))"

definition publish_history :: "'w wifi_env \<Rightarrow> wifi_args \<Rightarrow> ('w wifi_peer, unit) io" where
  "publish_history env a =
     bindI (forI (publish_history_value env) [1..TRANSIENT_HISTORY_LAST_VALUE]) (\<lambda>_.
     doI (say [Out (''ROS2_ZEPHYR_PEER_HISTORY_READY role=pub depth='' @ show_int (wa_depth a) @
       '' history_last='' @ show_int TRANSIENT_HISTORY_LAST_VALUE)]))"

definition match_subscriber :: "'w wifi_env \<Rightarrow> wifi_args \<Rightarrow> int \<Rightarrow> ('w wifi_peer, bool) io" where
  "match_subscriber env a started =
     (if wa_skip_match a then
        bindI (doI (say [Out ''ROS2_ZEPHYR_PEER_MATCH role=pub discovery_ms=unavailable''])) (\<lambda>_. returnI True)
      else
        bindI (wait_for_subscriber env (wa_timeout a)) (\<lambda>ok.
        if ok then
          bindI (askI (clock env)) (\<lambda>now.
          bindI (doI (say [Out (''ROS2_ZEPHYR_PEER_MATCH role=pub discovery_ms='' @ show_ms (now - started))])) (\<lambda>_.
          returnI True))
        else
          bindI (doI (say [Err ''ROS2_ZEPHYR_PEER_ERROR role=pub reason=match_timeout''])) (\<lambda>_. returnI False)))"

text \<open>The samples of the rate cases: the rate and the sequence number of each.\<close>

definition rate_schedule :: "(int \<times> int) list" where
  "rate_schedule = concat (map (\<lambda>(rate, count). map (Pair rate) [1..count]) RATE_CASES)"

fun publish_rates :: "'w wifi_env \<Rightarrow> int \<Rightarrow> (int \<times> int) list \<Rightarrow> ('w wifi_peer, int) io" where
  "publish_rates env sent [] = returnI sent"
| "publish_rates env sent ((rate, sequence) # rest) =
     bindI (doI (\<lambda>p. wifi_spin env (1000000 div rate)
       (say [Out (''ROS2_ZEPHYR_PEER_SENT value='' @ show_int DESKTOP_TO_DEVICE_VALUE @ '' rate_hz='' @ show_int rate @
          '' sequence='' @ show_int sequence)] (act env (Publish DESKTOP_TO_DEVICE_VALUE) p)))) (\<lambda>_.
     publish_rates env (sent + 1) rest)"

definition publish_samples :: "'w wifi_env \<Rightarrow> wifi_args \<Rightarrow> ('w wifi_peer, int) io" where
  "publish_samples env a =
     (if transient a then
        bindI (spin_for env 500000 50000) (\<lambda>_.
        bindI (doI (\<lambda>p. say [Out (''ROS2_ZEPHYR_PEER_SENT phase=live value='' @ show_int TRANSIENT_LIVE_VALUE)]
          (act env (Publish TRANSIENT_LIVE_VALUE) p))) (\<lambda>_.
        returnI (TRANSIENT_HISTORY_LAST_VALUE + 1)))
      else publish_rates env 0 rate_schedule)"

definition recovers :: "wifi_args \<Rightarrow> 'w wifi_peer \<Rightarrow> bool" where
  "recovers a p \<longleftrightarrow> wa_durability a = ''volatile'' \<and> wa_reliability a = ''best_effort'' \<and> wp_recovery p < MAX_RECOVERY_SAMPLES"

definition recovery_step :: "'w wifi_env \<Rightarrow> wifi_args \<Rightarrow> 'w wifi_peer \<Rightarrow> unit res option \<times> 'w wifi_peer" where
  "recovery_step env a p =
     idle_step env 100000
       (if recovers a p then (act env (Publish DESKTOP_TO_DEVICE_VALUE) p)\<lparr>wp_recovery := wp_recovery p + 1\<rparr> else p)"

definition complete_publisher :: "'w wifi_env \<Rightarrow> wifi_args \<Rightarrow> ('w wifi_peer, bool) io" where
  "complete_publisher env a =
     bindI (doI (\<lambda>p. p\<lparr>wp_recovery := 0\<rparr>)) (\<lambda>_.
     if wa_skip_match a then bindI (spin_for env 2000000 100000) (\<lambda>_. returnI True)
     else
       bindI (askI (clock env)) (\<lambda>now.
       bindI (pollI (has_subscriber env) (clock env) (recovery_step env a) (now + 10000000)) (\<lambda>_.
       bindI (askI (has_subscriber env)) (\<lambda>still. returnI (\<not> still)))))"

definition publisher_verdict :: "wifi_args \<Rightarrow> int \<Rightarrow> bool \<Rightarrow> 'w wifi_peer \<Rightarrow> 'w wifi_peer" where
  "publisher_verdict a sent completed p =
     say [(if completed
           then Out (''ROS2_ZEPHYR_PEER_PASS role=pub reliability='' @ wa_reliability a @ '' durability='' @ wa_durability a @
             '' depth='' @ show_int (wa_depth a) @ '' scheduled='' @ show_int sent @ '' recovery='' @ show_int (wp_recovery p))
           else Err (''ROS2_ZEPHYR_PEER_ERROR role=pub reason=device_did_not_complete scheduled='' @ show_int sent @
             '' recovery='' @ show_int (wp_recovery p)))] p"

definition publish_all :: "'w wifi_env \<Rightarrow> wifi_args \<Rightarrow> ('w wifi_peer, int) io" where
  "publish_all env a =
     bindI (publish_samples env a) (\<lambda>sent.
     bindI (complete_publisher env a) (\<lambda>completed.
     bindI (doI (publisher_verdict a sent completed)) (\<lambda>_.
     returnI (if completed then 0 else 1))))"

definition run_publisher :: "'w wifi_env \<Rightarrow> wifi_args \<Rightarrow> ('w wifi_peer, int) io" where
  "run_publisher env a =
     bindI (doI (act env (Create_publisher ''/ros2_zephyr/desktop_to_device'' (args_qos a)))) (\<lambda>_.
     bindI (if transient a then publish_history env a else returnI ()) (\<lambda>_.
     bindI (askI (clock env)) (\<lambda>started.
     bindI (match_subscriber env a started) (\<lambda>matched.
     if matched then publish_all env a else returnI 1))))"

section \<open>The subscriber\<close>

definition DEVICE_TOPIC :: string where "DEVICE_TOPIC = ''/ros2_zephyr/device_to_desktop''"

definition await_history :: "'w wifi_env \<Rightarrow> wifi_args \<Rightarrow> ('w wifi_peer, bool) io" where
  "await_history env a =
     bindI (wait_for_publisher env DEVICE_TOPIC (wa_timeout a)) (\<lambda>ok.
     if ok then
       bindI (doI (say [Out ''ROS2_ZEPHYR_PEER_PUBLISHER_READY role=sub''])) (\<lambda>_.
       bindI (spin_for env 500000 50000) (\<lambda>_. returnI True))
     else
       bindI (doI (say [Err ''ROS2_ZEPHYR_PEER_ERROR role=sub reason=publisher_discovery_timeout''])) (\<lambda>_.
       returnI False))"

definition expected_values :: "wifi_args \<Rightarrow> int list" where
  "expected_values a =
     (if transient a
      then let retained = min (wa_depth a) TRANSIENT_HISTORY_LAST_VALUE in [TRANSIENT_LIVE_VALUE - retained..TRANSIENT_LIVE_VALUE]
      else replicate EXPECTED_SAMPLES DEVICE_TO_DESKTOP_VALUE)"

definition needs_more :: "wifi_args \<Rightarrow> 'w wifi_peer \<Rightarrow> bool \<times> 'w wifi_peer" where
  "needs_more a p = (length (received_at (wp_trace p)) < length (expected_values a), p)"

definition intervals :: "int list \<Rightarrow> string" where
  "intervals arrivals = join '','' (map (\<lambda>(previous, current). show_ms (current - previous)) (zip arrivals (tl arrivals)))"

definition subscriber_verdict :: "wifi_args \<Rightarrow> 'w wifi_peer \<Rightarrow> int res \<times> 'w wifi_peer" where
  "subscriber_verdict a p =
     (let values = received_values (wp_trace p); arrivals = received_at (wp_trace p)
      in if values \<noteq> expected_values a
         then (Inr 1, say [Err (''ROS2_ZEPHYR_PEER_ERROR role=sub expected='' @ show_list (expected_values a) @
                '' received='' @ show_list values)] p)
         else (Inr 0, say [Out (''ROS2_ZEPHYR_PEER_PASS role=sub reliability='' @ wa_reliability a @ '' durability='' @
                wa_durability a @ '' depth='' @ show_int (wa_depth a) @ '' samples='' @ show_int (int (length arrivals)) @
                '' values='' @ show_list values @ '' arrival_intervals_ms='' @ intervals arrivals)] p))"

definition collect :: "'w wifi_env \<Rightarrow> wifi_args \<Rightarrow> ('w wifi_peer, int) io" where
  "collect env a =
     bindI (doI (\<lambda>p. (act env (Create_subscription DEVICE_TOPIC (args_qos a)) p)\<lparr>wp_receiving := True\<rparr>)) (\<lambda>_.
     bindI (askI (clock env)) (\<lambda>now.
     bindI (pollI (needs_more a) (clock env) (idle_step env 100000) (now + wa_timeout a)) (\<lambda>_.
     bindI (doI (\<lambda>p. (act env (Destroy_subscription DEVICE_TOPIC) p)\<lparr>wp_receiving := False\<rparr>)) (\<lambda>_.
     tryI (subscriber_verdict a)))))"

definition run_subscriber :: "'w wifi_env \<Rightarrow> wifi_args \<Rightarrow> ('w wifi_peer, int) io" where
  "run_subscriber env a =
     bindI (if transient a then await_history env a else returnI True) (\<lambda>ok.
     if ok then collect env a else returnI 1)"

section \<open>Time\<close>

text \<open>
  The clock never runs backwards, an operation of the client library or of a process takes no negative
  time, and spinning takes some time.
\<close>

definition wifi_time :: "('w \<Rightarrow> int) \<Rightarrow> 'w wifi_env \<Rightarrow> bool" where
  "wifi_time now env \<longleftrightarrow>
     reads_time now (wv_clock env) \<and> (\<forall>d w. now w < now (snd (wv_spin env d w))) \<and>
     (\<forall>e w. now w \<le> now (wv_act env e w)) \<and> (\<forall>w. now w \<le> now (snd (wv_subscribers env w))) \<and>
     (\<forall>t w. now w \<le> now (snd (wv_publishers env t w))) \<and> (\<forall>w. now w \<le> now (snd (wv_nodes env w))) \<and>
     (\<forall>n w. now w \<le> now (snd (wv_publishers_of env n w))) \<and> (\<forall>n w. now w \<le> now (snd (wv_subscribers_of env n w)))"

definition later :: "('w \<Rightarrow> int) \<Rightarrow> 'w wifi_peer \<Rightarrow> 'w wifi_peer \<Rightarrow> bool" where
  "later now p p' \<longleftrightarrow> now (wp_world p) \<le> now (wp_world p')"

lemma later_trans: "later now p q \<Longrightarrow> later now q r \<Longrightarrow> later now p r"
  by (simp add: later_def)

lemma say_simps [simp]:
  "wp_world (say es p) = wp_world p" "wp_trace (say es p) = wp_trace p @ es"
  "wp_receiving (say es p) = wp_receiving p" "wp_recovery (say es p) = wp_recovery p" "wp_restarted (say es p) = wp_restarted p"
  by (simp_all add: say_def)

lemma query_simps [simp]:
  "fst (query f p) = fst (f (wp_world p))" "wp_world (snd (query f p)) = snd (f (wp_world p))"
  "wp_trace (snd (query f p)) = wp_trace p" "wp_receiving (snd (query f p)) = wp_receiving p"
  "wp_recovery (snd (query f p)) = wp_recovery p" "wp_restarted (snd (query f p)) = wp_restarted p"
  by (simp_all add: query_def split: prod.splits)

lemma act_simps [simp]:
  "wp_world (act env e p) = wv_act env e (wp_world p)" "wp_trace (act env e p) = wp_trace p @ [e]"
  "wp_receiving (act env e p) = wp_receiving p" "wp_recovery (act env e p) = wp_recovery p"
  "wp_restarted (act env e p) = wp_restarted p"
  by (simp_all add: act_def)

lemma reads_clock: "wifi_time now env \<Longrightarrow> reads_time (now \<circ> wp_world) (clock env)"
  by (simp add: wifi_time_def reads_time_def clock_def)

lemma clock_later: "wifi_time now env \<Longrightarrow> later now p (snd (clock env p))"
  by (simp add: wifi_time_def reads_time_def clock_def later_def)

lemma receive_later: "wifi_time now env \<Longrightarrow> later now p (receive env v p)"
  using clock_later [of now env p] by (auto simp: receive_def Let_def later_def split: prod.splits)

lemma receives_later: "wifi_time now env \<Longrightarrow> later now p (fold (receive env) msgs p)"
proof (induction msgs arbitrary: p)
  case (Cons v msgs)
  from later_trans [OF receive_later [OF Cons.prems] Cons.IH [OF Cons.prems]] show ?case by simp
qed (simp add: later_def)

lemma spin_later:
  assumes "wifi_time now env"
  shows "now (wp_world p) < now (wp_world (wifi_spin env d p))"
proof -
  obtain msgs p1 where q: "query (wv_spin env d) p = (msgs, p1)" by (cases "query (wv_spin env d) p")
  then have "p1 = snd (query (wv_spin env d) p)" by simp
  with assms have "now (wp_world p) < now (wp_world p1)" by (simp add: wifi_time_def)
  also have "\<dots> \<le> now (wp_world (fold (receive env) msgs p1))"
    using receives_later [OF assms] by (simp add: later_def)
  finally show ?thesis using q \<open>now (wp_world p) < now (wp_world p1)\<close> by (simp add: wifi_spin_def)
qed

lemma question_later:
  assumes "wifi_time now env"
  shows "later now p (snd (has_subscriber env p))" "later now p (snd (query (wv_publishers env t) p))"
    "later now p (snd (device_node_visible env p))"
  using assms by (simp_all add: later_def wifi_time_def has_subscriber_def device_node_visible_def)

lemma topic_state_later:
  assumes "wifi_time now env"
  shows "later now p (snd (device_topic_state env p))"
proof -
  let ?p1 = "snd (device_node_visible env p)"
  let ?p2 = "snd (query (wv_publishers_of env DEVICE_NODE) ?p1)"
  let ?p3 = "snd (query (wv_subscribers_of env DEVICE_NODE) ?p2)"
  have 1: "later now p ?p1" by (rule question_later [OF assms])
  have 2: "later now ?p1 ?p2" and 3: "later now ?p2 ?p3"
    using assms by (simp_all add: later_def wifi_time_def DEVICE_NODE_def)
  have "snd (device_topic_state env p) \<in> {?p1, ?p2, ?p3}"
    by (auto simp: device_topic_state_def split: prod.splits sum.splits)
  with 1 later_trans [OF 1 2] later_trans [OF later_trans [OF 1 2] 3] show ?thesis by auto
qed

lemma returns_wait:
  assumes time: "wifi_time now env" and "\<And>p. later now p (snd (condition p))"
  shows "returns (wait_for_condition env condition timeout)"
proof -
  have "(now \<circ> wp_world) p < (now \<circ> wp_world) p'" if "wait_step env condition p = (None, p')" for p p'
  proof -
    from that have "p' = snd (condition (wifi_spin env 100000 p))"
      by (auto simp: wait_step_def split: prod.splits sum.splits if_splits)
    with assms(2) [of "wifi_spin env 100000 p"] spin_later [OF time, of p 100000] show ?thesis by (simp add: later_def)
  qed
  then have "returns (pollI always (clock env) (wait_step env condition) d)" for d
    by (intro returns_pollI [OF reads_clock [OF time]]) simp_all
  then show ?thesis unfolding wait_for_condition_def by (intro returns)
qed

lemma returns_idle:
  assumes time: "wifi_time now env" and "\<And>p. later now p (snd (guard p))" and "\<And>p. later now p (f p)"
  shows "returns (pollI guard (clock env) (\<lambda>p. idle_step env step (f p)) d)"
proof (rule returns_pollI [OF reads_clock [OF time]])
  fix p p'
  assume "idle_step env step (f p) = (None, p')"
  with assms(3) [of p] spin_later [OF time, of "f p" step] show "(now \<circ> wp_world) p < (now \<circ> wp_world) p'"
    by (simp add: idle_step_def later_def)
qed (use assms(2) in \<open>simp add: later_def\<close>)

lemma returns_spin_for: "wifi_time now env \<Longrightarrow> returns (spin_for env duration step)"
  unfolding spin_for_def by (intro returns returns_idle [where f = "\<lambda>p. p"]) (simp_all add: later_def)

lemma returns_run_subscriber:
  assumes "wifi_time now env"
  shows "returns (run_subscriber env a)"
proof -
  have "returns (pollI (needs_more a) (clock env) (idle_step env 100000) d)" for d
    using assms by (intro returns_idle [where f = "\<lambda>p. p"]) (simp_all add: later_def needs_more_def)
  then show ?thesis
    unfolding run_subscriber_def await_history_def collect_def wait_for_publisher_def
    by (intro returns returns_spin_for [OF assms] returns_wait [OF assms]) (use question_later [OF assms] in simp)
qed

lemma returns_publish_rates: "returns (publish_rates env sent schedule)"
  by (induction schedule arbitrary: sent) (auto intro!: returns)

lemma returns_run_publisher:
  assumes "wifi_time now env"
  shows "returns (run_publisher env a)"
proof -
  have step: "recovery_step env a = (\<lambda>p. idle_step env 100000
      (if recovers a p then (act env (Publish DESKTOP_TO_DEVICE_VALUE) p)\<lparr>wp_recovery := wp_recovery p + 1\<rparr> else p))"
    by (simp add: recovery_step_def fun_eq_iff)
  have "returns (pollI (has_subscriber env) (clock env) (recovery_step env a) d)" for d
    unfolding step
  proof (rule returns_idle [OF assms question_later(1) [OF assms]])
    show "later now p (if recovers a p then (act env (Publish DESKTOP_TO_DEVICE_VALUE) p)\<lparr>wp_recovery := wp_recovery p + 1\<rparr> else p)"
      for p using assms by (simp add: later_def wifi_time_def)
  qed
  then show ?thesis
    unfolding run_publisher_def publish_history_def publish_history_value_def match_subscriber_def wait_for_subscriber_def
      publish_all_def publish_samples_def complete_publisher_def
    by (intro returns returns_spin_for [OF assms] returns_wait [OF assms] returns_publish_rates)
       (use question_later [OF assms] in simp)
qed

lemma returns_run_graph_outbound:
  assumes "wifi_time now env"
  shows "returns (run_graph_outbound env timeout cycle)"
proof -
  have "returns (outbound_phases env timeout cycle phases)" for phases
    by (induction phases) (auto intro!: returns returns_wait [OF assms] simp: topic_state_is_def topic_state_later [OF assms])
  then show ?thesis
    unfolding run_graph_outbound_def
    by (intro returns returns_wait [OF assms]) (simp_all add: question_later(3) [OF assms])
qed


section \<open>What the waits leave alone\<close>

fun published :: "wifi_event list \<Rightarrow> int list" where
  "published [] = []"
| "published (Publish v # es) = v # published es"
| "published (_ # es) = published es"

lemma published_append [simp]: "published (a @ b) = published a @ published b"
  by (induction a rule: published.induct) simp_all

lemma received_append [simp]:
  "received_values (a @ b) = received_values a @ received_values b" "received_at (a @ b) = received_at a @ received_at b"
  by (induction a rule: received_values.induct) simp_all

text \<open>A relation that reading the clock and spinning keep; then the waits keep it, too.\<close>

locale waiting =
  fixes env :: "'w wifi_env" and R :: "'w wifi_peer \<Rightarrow> 'w wifi_peer \<Rightarrow> bool"
  assumes preorder: "preorder_on_states R"
    and clock_keeps: "R p (snd (clock env p))"
    and spin_keeps: "R p (wifi_spin env d p)"
begin

lemma refl_trans: "R x x" "R x y \<Longrightarrow> R y z \<Longrightarrow> R x z"
  using preorder by (auto simp: preorder_on_states_def reflp_def dest: transpD)

lemma keeps_wait:
  assumes "\<And>p. R p (snd (condition p))"
  shows "keeps R (wait_for_condition env condition timeout)"
proof -
  have "snd (wait_step env condition p) = snd (condition (wifi_spin env 100000 p))" for p
    by (simp add: wait_step_def split: prod.splits sum.splits)
  then have step: "R p (snd (wait_step env condition p))" for p
    using refl_trans(2) [OF spin_keeps assms] by simp
  show ?thesis
    unfolding wait_for_condition_def by (intro keeps preorder clock_keeps step) (simp add: refl_trans)
qed

lemma keeps_idle:
  assumes "\<And>p. R p (snd (guard p))"
  shows "keeps R (pollI guard (clock env) (idle_step env step) deadline)"
  by (intro keeps preorder clock_keeps assms) (simp add: idle_step_def spin_keeps)

lemma keeps_spin_for: "keeps R (spin_for env duration step)"
  unfolding spin_for_def by (intro keeps preorder clock_keeps keeps_idle) (simp add: refl_trans)

end

lemma wait_no_raise:
  assumes "wait_for_condition env (\<lambda>p. apfst (\<lambda>x. Inr (f x)) (g p)) timeout p = Some (r, p')"
  shows "\<exists>ok. r = Inr ok"
proof -
  have no: "res \<noteq> Some (Inl e)"
    if "poll always (clock env) (wait_step env (\<lambda>p. apfst (\<lambda>x. Inr (f x)) (g p))) d q = Some (res, q')" for d q res q' e
    by (rule poll_rule [where I = "\<lambda>_. True" and Q = "\<lambda>res _. res \<noteq> Some (Inl e)", OF that])
       (auto simp: wait_step_def apfst_def map_prod_def split: prod.splits sum.splits if_splits)
  then show ?thesis
    using assms by (auto simp: wait_for_condition_def pollI_def io_simps split: option.splits sum.splits prod.splits dest: no)
qed

lemma spin_for_no_raise: "spin_for env duration step p = Some (r, p') \<Longrightarrow> r = Inr ()"
  by (auto simp: spin_for_def io_simps idle_step_def dest: pollI_no_raise)

text \<open>Nothing is published and the count of recovery samples stays.\<close>

definition quiet :: "'w wifi_peer \<Rightarrow> 'w wifi_peer \<Rightarrow> bool" where
  "quiet p p' \<longleftrightarrow> published (wp_trace p') = published (wp_trace p) \<and> wp_recovery p' = wp_recovery p"

text \<open>The trace grows, and without an open subscription nothing is received.\<close>

definition heard :: "'w wifi_peer \<Rightarrow> 'w wifi_peer \<Rightarrow> bool" where
  "heard p p' \<longleftrightarrow> wp_receiving p' = wp_receiving p \<and>
     (\<exists>t. wp_trace p' = wp_trace p @ t \<and> (\<not> wp_receiving p \<longrightarrow> received_values t = []))"

lemma heardI: "wp_receiving p' = wp_receiving p \<Longrightarrow> wp_trace p' = wp_trace p @ t \<Longrightarrow>
    (\<not> wp_receiving p \<Longrightarrow> received_values t = []) \<Longrightarrow> heard p p'"
  by (auto simp: heard_def)

lemma preorders [simp]: "preorder_on_states quiet" "preorder_on_states (heard :: 'a wifi_peer \<Rightarrow> _)"
proof -
  show "preorder_on_states quiet" by (simp add: preorder_on_states_def reflp_def transp_def quiet_def)
  have "heard p r" if "heard p q" "heard q r" for p q r :: "'a wifi_peer"
  proof -
    from that(1) obtain t where t: "wp_trace q = wp_trace p @ t" "wp_receiving q = wp_receiving p"
      "\<not> wp_receiving p \<longrightarrow> received_values t = []" unfolding heard_def by blast
    from that(2) obtain u where "wp_trace r = wp_trace q @ u" "wp_receiving r = wp_receiving q"
      "\<not> wp_receiving q \<longrightarrow> received_values u = []" unfolding heard_def by blast
    with t show ?thesis by (intro heardI [where t = "t @ u"]) simp_all
  qed
  moreover have "heard p p" for p :: "'a wifi_peer" by (simp add: heard_def)
  ultimately show "preorder_on_states (heard :: 'a wifi_peer \<Rightarrow> _)"
    unfolding preorder_on_states_def reflp_def transp_def by blast
qed

lemma receive_trace:
  "\<exists>t s. wp_trace (receive env v p) = wp_trace p @ [Received v t, Out s]"
  "wp_recovery (receive env v p) = wp_recovery p" "wp_receiving (receive env v p) = wp_receiving p"
proof -
  obtain now p1 where c: "clock env p = (now, p1)" by (cases "clock env p")
  then have "p1 = snd (query (wv_clock env) p)" by (simp add: clock_def)
  with c show "\<exists>t s. wp_trace (receive env v p) = wp_trace p @ [Received v t, Out s]"
    "wp_recovery (receive env v p) = wp_recovery p" "wp_receiving (receive env v p) = wp_receiving p"
    by (simp_all add: receive_def Let_def)
qed

lemma receives_quiet:
  "quiet p (fold (receive env) msgs p) \<and> wp_receiving (fold (receive env) msgs p) = wp_receiving p \<and>
   (\<exists>t. wp_trace (fold (receive env) msgs p) = wp_trace p @ t)"
proof (induction msgs arbitrary: p)
  case (Cons v msgs)
  from receive_trace(1) obtain t s where t: "wp_trace (receive env v p) = wp_trace p @ [Received v t, Out s]" by blast
  with Cons.IH [of "receive env v p"] show ?case by (auto simp: quiet_def receive_trace(2,3))
qed (simp add: quiet_def)

lemma spin_facts: "quiet p (wifi_spin env d p)" "heard p (wifi_spin env d p)"
proof -
  obtain msgs p1 where q: "query (wv_spin env d) p = (msgs, p1)" by (cases "query (wv_spin env d) p")
  then have "p1 = snd (query (wv_spin env d) p)" by simp
  then have p1: "wp_trace p1 = wp_trace p" "wp_recovery p1 = wp_recovery p" "wp_receiving p1 = wp_receiving p" by simp_all
  from receives_quiet [of p1 env msgs] q show "quiet p (wifi_spin env d p)" "heard p (wifi_spin env d p)"
    by (auto simp: wifi_spin_def quiet_def heard_def p1)
qed

lemma spin_deaf:
  assumes "\<not> wp_receiving p"
  shows "wp_trace (wifi_spin env d p) = wp_trace p" "wp_receiving (wifi_spin env d p) = wp_receiving p"
proof -
  obtain msgs p1 where q: "query (wv_spin env d) p = (msgs, p1)" by (cases "query (wv_spin env d) p")
  then have "p1 = snd (query (wv_spin env d) p)" by simp
  then have "wp_trace p1 = wp_trace p" "wp_receiving p1 = wp_receiving p" by simp_all
  with q assms show "wp_trace (wifi_spin env d p) = wp_trace p" "wp_receiving (wifi_spin env d p) = wp_receiving p"
    by (simp_all add: wifi_spin_def)
qed

interpretation quiet: waiting env quiet for env
  by unfold_locales (simp_all add: spin_facts, simp add: clock_def quiet_def)

interpretation heard: waiting env heard for env
  by unfold_locales (simp_all add: spin_facts, simp add: clock_def heard_def)

lemma question_facts:
  "quiet p (snd (has_subscriber env p))" "heard p (snd (has_subscriber env p))"
  "quiet p (snd (query f p))" "heard p (snd (query f p))"
  by (simp_all add: quiet_def heard_def has_subscriber_def)


section \<open>What the publisher sends\<close>

lemma say_quiet: "published es = [] \<Longrightarrow> quiet p (say es p)"
  by (simp add: quiet_def)

lemma history_values_published:
  "forI (publish_history_value env) vs p = Some (r, p') \<Longrightarrow>
     r = Inr () \<and> published (wp_trace p') = published (wp_trace p) @ vs"
proof (induction vs arbitrary: p)
  case (Cons v vs)
  define q where "q = say [Out (''ROS2_ZEPHYR_PEER_SENT phase=history value='' @ show_int v)]
                (wifi_spin env 20000 (act env (Publish v) p))"
  have "published (wp_trace q) = published (wp_trace p) @ [v]"
    using spin_facts(1) [of "act env (Publish v) p" env 20000] by (simp add: q_def quiet_def)
  moreover have "publish_history_value env v p = Some (Inr (), q)" by (simp add: publish_history_value_def doI_def q_def)
  then have "forI (publish_history_value env) vs q = Some (r, p')" using Cons.prems by (simp add: io_simps)
  ultimately show ?case using Cons.IH by fastforce
qed (simp add: io_simps)

lemma rates_published:
  "publish_rates env sent schedule p = Some (r, p') \<Longrightarrow>
     r = Inr (sent + int (length schedule)) \<and>
     published (wp_trace p') = published (wp_trace p) @ replicate (length schedule) DESKTOP_TO_DEVICE_VALUE"
proof (induction env sent schedule arbitrary: p rule: publish_rates.induct)
  case (2 env sent rate sequence rest)
  define q0 where "q0 = say [Out (''ROS2_ZEPHYR_PEER_SENT value='' @ show_int DESKTOP_TO_DEVICE_VALUE @ '' rate_hz='' @ show_int rate @
          '' sequence='' @ show_int sequence)] (act env (Publish DESKTOP_TO_DEVICE_VALUE) p)"
  have "published (wp_trace (wifi_spin env (1000000 div rate) q0)) = published (wp_trace p) @ [DESKTOP_TO_DEVICE_VALUE]"
    using spin_facts(1) [of q0 env "1000000 div rate"] by (simp add: q0_def quiet_def)
  moreover from "2.prems" have "publish_rates env (sent + 1) rest (wifi_spin env (1000000 div rate) q0) = Some (r, p')"
    by (simp add: io_simps q0_def)
  ultimately show ?case using "2.IH" by fastforce
qed (simp add: io_simps)

lemma rate_schedule_length: "length rate_schedule = EXPECTED_SAMPLES"
  by (simp add: rate_schedule_def RATE_CASES_def EXPECTED_SAMPLES_def)

text \<open>The samples that a run to the end publishes, and how many of them it counts as scheduled.\<close>

definition scheduled_values :: "wifi_args \<Rightarrow> int list" where
  "scheduled_values a = (if transient a then [1..TRANSIENT_LIVE_VALUE] else replicate EXPECTED_SAMPLES DESKTOP_TO_DEVICE_VALUE)"

lemma samples_published:
  assumes "publish_samples env a p = Some (r, p')"
    and "published (wp_trace p) = (if transient a then [1..TRANSIENT_HISTORY_LAST_VALUE] else [])"
  shows "r = Inr (int (length (scheduled_values a)))" "published (wp_trace p') = scheduled_values a"
proof -
  have "r = Inr (int (length (scheduled_values a))) \<and> published (wp_trace p') = scheduled_values a"
  proof (cases "transient a")
    case True
    with assms(1) obtain q where q: "spin_for env 500000 50000 p = Some (Inr (), q)"
      and r: "r = Inr (TRANSIENT_HISTORY_LAST_VALUE + 1)" and p': "published (wp_trace p') = published (wp_trace q) @ [TRANSIENT_LIVE_VALUE]"
      by (auto simp: publish_samples_def io_simps dest: spin_for_no_raise)
    have "published (wp_trace q) = published (wp_trace p)"
      using keepsD [OF quiet.keeps_spin_for q] by (simp add: quiet_def)
    with True r p' assms(2) show ?thesis
      by (simp add: scheduled_values_def TRANSIENT_HISTORY_LAST_VALUE_def TRANSIENT_LIVE_VALUE_def upto.simps)
  next
    case False
    with assms rates_published [of env 0 rate_schedule p r p'] show ?thesis
      by (simp add: publish_samples_def scheduled_values_def rate_schedule_length)
  qed
  then show "r = Inr (int (length (scheduled_values a)))" "published (wp_trace p') = scheduled_values a" by simp_all
qed

text \<open>The recovery samples that have been sent are counted, at most ten, and only on best effort.\<close>

definition recovering :: "wifi_args \<Rightarrow> int list \<Rightarrow> 'w wifi_peer \<Rightarrow> bool" where
  "recovering a vs p \<longleftrightarrow> published (wp_trace p) = vs @ replicate (nat (wp_recovery p)) DESKTOP_TO_DEVICE_VALUE \<and>
     0 \<le> wp_recovery p \<and> wp_recovery p \<le> MAX_RECOVERY_SAMPLES \<and>
     (0 < wp_recovery p \<longrightarrow> wa_durability a = ''volatile'' \<and> wa_reliability a = ''best_effort'' \<and> \<not> wa_skip_match a)"

lemma recovering_quiet: "recovering a vs p \<Longrightarrow> quiet p p' \<Longrightarrow> recovering a vs p'"
  by (simp add: recovering_def quiet_def)

lemma recovering_step:
  assumes "recovering a vs p" and "\<not> wa_skip_match a"
  shows "recovering a vs (snd (recovery_step env a p))"
proof -
  let ?q = "if recovers a p then (act env (Publish DESKTOP_TO_DEVICE_VALUE) p)\<lparr>wp_recovery := wp_recovery p + 1\<rparr> else p"
  have "recovering a vs ?q"
    using assms by (auto simp: recovering_def recovers_def nat_add_distrib replicate_add simp flip: replicate_append_same)
  moreover have "quiet ?q (snd (recovery_step env a p))"
    by (simp add: recovery_step_def idle_step_def spin_facts(1))
  ultimately show ?thesis by (rule recovering_quiet)
qed

lemma complete_publisher_recovering:
  assumes "complete_publisher env a p = Some (r, p')"
  shows "recovering a (published (wp_trace p)) p'" "\<exists>ok. r = Inr ok"
proof -
  let ?vs = "published (wp_trace p)" and ?q = "p\<lparr>wp_recovery := 0\<rparr>"
  have start: "recovering a ?vs ?q" by (simp add: recovering_def MAX_RECOVERY_SAMPLES_def)
  have "recovering a ?vs p' \<and> (\<exists>ok. r = Inr ok)"
  proof (cases "wa_skip_match a")
    case True
    with assms have "spin_for env 2000000 100000 ?q = Some (Inr (), p')" "r = Inr True"
      by (auto simp: complete_publisher_def io_simps dest: spin_for_no_raise)
    with recovering_quiet [OF start] keepsD [OF quiet.keeps_spin_for] show ?thesis by blast
  next
    case False
    have no_raise: "x = Inr None" if "pollI (has_subscriber env) (clock env) (recovery_step env a) d q = Some (x, q')" for d q x q'
      using that by (rule pollI_no_raise) (simp add: recovery_step_def idle_step_def)
    from False assms obtain x q where
      loop: "pollI (has_subscriber env) (clock env) (recovery_step env a) (fst (clock env ?q) + 10000000) (snd (clock env ?q)) = Some (x, q)"
      and out: "r = Inr (\<not> fst (has_subscriber env q)) \<and> p' = snd (has_subscriber env q)"
      by (auto simp: complete_publisher_def io_simps dest: no_raise)
    have clock: "quiet q (snd (clock env q))" for q :: "'a wifi_peer" by (simp add: clock_def question_facts)
    have "recovering a ?vs q"
    proof (rule pollI_invariant [where I = "recovering a ?vs", OF loop])
      show "recovering a ?vs (snd (recovery_step env a s))" if "recovering a ?vs s" for s
        by (rule recovering_step [OF that False])
    qed (auto intro: recovering_quiet start clock question_facts)
    with out show ?thesis by (auto intro: recovering_quiet question_facts)
  qed
  then show "recovering a ?vs p'" "\<exists>ok. r = Inr ok" by simp_all
qed


lemma match_subscriber_quiet:
  assumes "match_subscriber env a started p = Some (r, p')"
  shows "quiet p p'" "\<exists>ok. r = Inr ok"
proof -
  have wait: "keeps quiet (wait_for_subscriber env t)" for t
    unfolding wait_for_subscriber_def by (rule quiet.keeps_wait) (simp add: question_facts)
  have "keeps quiet (match_subscriber env a started)"
    unfolding match_subscriber_def
    by (intro keeps preorders say_quiet wait) (simp_all add: clock_def question_facts)
  from keepsD [OF this assms] show "quiet p p'" .
  from assms show "\<exists>ok. r = Inr ok"
    by (auto simp: match_subscriber_def wait_for_subscriber_def io_simps split: if_splits dest: wait_no_raise [where f = "\<lambda>x. x", unfolded comp_def])
qed

text \<open>A run of the publisher does not raise; one that ends with 0 has published its schedule and the recovery samples.\<close>

lemma run_publisher_sends:
  assumes "run_publisher env a p = Some (r, p')" and "published (wp_trace p) = []"
  obtains "r = Inr 1"
  | q where "r = Inr 0" "recovering a (scheduled_values a) q"
      "p' = publisher_verdict a (int (length (scheduled_values a))) True q"
proof -
  let ?q0 = "act env (Create_publisher ''/ros2_zephyr/desktop_to_device'' (args_qos a)) p"
  from assms(1) obtain x q1 where q1: "(if transient a then publish_history env a else returnI ()) ?q0 = Some (x, q1)"
    unfolding run_publisher_def by (auto simp: bindI_def doI_def split: option.splits)
  have "x = Inr () \<and> published (wp_trace q1) = (if transient a then [1..TRANSIENT_HISTORY_LAST_VALUE] else [])"
    using q1 assms(2) by (auto simp: publish_history_def io_simps split: if_splits dest: history_values_published)
  then have x: "x = Inr ()" and q1p: "published (wp_trace q1) = (if transient a then [1..TRANSIENT_HISTORY_LAST_VALUE] else [])"
    by simp_all
  let ?started = "fst (clock env q1)" and ?q2 = "snd (clock env q1)"
  from assms(1) q1 x obtain m q3 where m: "match_subscriber env a ?started ?q2 = Some (m, q3)"
    unfolding run_publisher_def by (auto simp: bindI_def doI_def askI_def split: option.splits prod.splits)
  from match_subscriber_quiet [OF m] obtain matched where matched: "m = Inr matched" and "quiet ?q2 q3" by blast
  with q1p have q3p: "published (wp_trace q3) = (if transient a then [1..TRANSIENT_HISTORY_LAST_VALUE] else [])"
    by (simp add: quiet_def clock_def)
  have rest: "(if matched then publish_all env a else returnI 1) q3 = Some (r, p')"
    using assms(1) q1 x m matched unfolding run_publisher_def
    by (cases matched) (simp_all add: bindI_def doI_def askI_def split: prod.splits)
  show thesis
  proof (cases matched)
    case False
    with rest that(1) show ?thesis by (simp add: io_simps)
  next
    case True
    with rest samples_published [OF _ q3p] obtain q4 where q4: "published (wp_trace q4) = scheduled_values a"
      and c: "bindI (complete_publisher env a) (\<lambda>completed.
        bindI (doI (publisher_verdict a (int (length (scheduled_values a))) completed)) (\<lambda>_. returnI (if completed then 0 else 1))) q4 = Some (r, p')"
      by (simp add: publish_all_def bindI_Some) blast
    from c obtain x q5 where x: "complete_publisher env a q4 = Some (x, q5)" by (auto simp: bindI_Some)
    from complete_publisher_recovering [OF x] q4 obtain ok where ok: "recovering a (scheduled_values a) q5" "x = Inr ok" by auto
    with c x have "p' = publisher_verdict a (int (length (scheduled_values a))) ok q5" "r = Inr (if ok then 0 else 1)"
      by (auto simp: io_simps)
    with ok(1) show ?thesis by (cases ok) (auto intro: that)
  qed
qed


section \<open>What the subscriber accepts\<close>

lemma heard_cases:
  assumes "heard p p'" and "\<not> wp_receiving p"
  obtains t where "wp_trace p' = wp_trace p @ t" "received_values t = []" "\<not> wp_receiving p'"
  using assms unfolding heard_def by auto

lemma await_history_heard:
  assumes "await_history env a p = Some (r, p')"
  shows "heard p p'" "\<exists>ok. r = Inr ok"
proof -
  have "heard p (say [Out s] p)" "heard p (say [Err s] p)" for p :: "'a wifi_peer" and s
    by (auto intro!: heardI)
  moreover have "keeps heard (wait_for_publisher env t d)" for t d
    unfolding wait_for_publisher_def by (rule heard.keeps_wait) (simp add: question_facts)
  ultimately have "keeps heard (await_history env a)"
    unfolding await_history_def by (intro keeps preorders heard.keeps_spin_for) simp_all
  from keepsD [OF this assms] show "heard p p'" .
  from assms show "\<exists>ok. r = Inr ok"
    by (auto simp: await_history_def wait_for_publisher_def io_simps split: if_splits dest: wait_no_raise spin_for_no_raise)
qed

text \<open>
  A collection that starts before anything was received: the samples between the creation and the
  destruction of the subscription decide.
\<close>

lemma collect_result:
  assumes "collect env a p = Some (r, p')" and "received_values (wp_trace p) = []"
  shows "\<exists>t e. wp_trace p' = wp_trace p @ [Create_subscription DEVICE_TOPIC (args_qos a)] @ t @ [Destroy_subscription DEVICE_TOPIC, e] \<and>
     r = Inr (if received_values t = expected_values a then 0 else 1) \<and> received_values [e] = []"
proof -
  let ?q = "(act env (Create_subscription DEVICE_TOPIC (args_qos a)) p)\<lparr>wp_receiving := True\<rparr>"
  have no_raise: "x = Inr None" if "pollI (needs_more a) (clock env) (idle_step env 100000) d q = Some (x, q')" for d q x q'
    using that by (rule pollI_no_raise) (simp add: idle_step_def)
  define closed where "closed q = (act env (Destroy_subscription DEVICE_TOPIC) q)\<lparr>wp_receiving := False\<rparr>" for q
  from assms(1) obtain x q where
    loop: "pollI (needs_more a) (clock env) (idle_step env 100000) (fst (clock env ?q) + wa_timeout a) (snd (clock env ?q)) = Some (x, q)"
    and out: "(r, p') = subscriber_verdict a (closed q)"
    by (auto simp: collect_def io_simps closed_def dest: no_raise)
  have "keeps heard (pollI (needs_more a) (clock env) (idle_step env 100000) d)" for d
    by (rule heard.keeps_idle) (simp add: needs_more_def heard.refl_trans)
  from keepsD [OF this loop] obtain t where t: "wp_trace q = wp_trace ?q @ t"
    by (auto simp: heard_def clock_def)
  have trace: "wp_trace (closed q) = wp_trace p @ [Create_subscription DEVICE_TOPIC (args_qos a)] @ t @ [Destroy_subscription DEVICE_TOPIC]"
    by (simp add: closed_def t)
  then have "received_values (wp_trace (closed q)) = received_values t" by (simp add: assms(2))
  with out trace show ?thesis
    by (auto simp: subscriber_verdict_def Let_def split: if_splits)
qed

lemma expected_values_nonempty: "0 < wa_depth a \<Longrightarrow> expected_values a \<noteq> []"
  by (simp add: expected_values_def EXPECTED_SAMPLES_def TRANSIENT_LIVE_VALUE_def TRANSIENT_HISTORY_LAST_VALUE_def min_def)

text \<open>The subscriber does not raise; it ends with 0 or 1.\<close>

lemma run_subscriber_result:
  assumes "run_subscriber env a p = Some (r, p')" and "received_values (wp_trace p) = []" "\<not> wp_receiving p"
  obtains t where "r = Inr 1" "wp_trace p' = wp_trace p @ t" "received_values t = []"
  | t1 t2 e where "wp_trace p' = wp_trace p @ t1 @ [Create_subscription DEVICE_TOPIC (args_qos a)] @ t2 @ [Destroy_subscription DEVICE_TOPIC, e]"
      "received_values t1 = []" "received_values [e] = []" "r = Inr (if received_values t2 = expected_values a then 0 else 1)"
proof -
  let ?first = "if transient a then await_history env a else returnI True"
  from assms(1) obtain x q where q: "?first p = Some (x, q)"
    unfolding run_subscriber_def by (auto simp: bindI_def split: option.splits)
  have "heard p q \<and> (\<exists>ok. x = Inr ok)"
    using q await_history_heard [of env a p x q] by (auto simp: io_simps heard_def split: if_splits)
  then obtain ok where ok: "x = Inr ok" and "heard p q" by blast
  then obtain t1 where t1: "wp_trace q = wp_trace p @ t1" "received_values t1 = []" using assms(3) by (blast elim: heard_cases)
  have rest: "(if ok then collect env a else returnI 1) q = Some (r, p')"
    using assms(1) q ok unfolding run_subscriber_def by (cases ok) (simp_all add: bindI_def)
  show thesis
  proof (cases ok)
    case True
    with rest collect_result [of env a q r p'] t1 assms(2) that(2) show ?thesis by fastforce
  next
    case False
    with rest t1 that(1) show ?thesis by (auto simp: io_simps)
  qed
qed


end
