(* ===== verification/Wifi_Graph.thy ===== *)
theory Wifi_Graph
  imports Wifi_Peer
begin

text \<open>
  The inbound graph role of \<open>src/samples/wifi/peer.py\<close>: a parent that starts worker processes, each with
  a node of its own, holds the graph in each phase for the device to observe, and kills the workers.
  Processes and pipes are operations of the world; the worker is a loop on a state of its own, and its
  rounds are a step relation, because it ends only when it is told to or when an operation raises.
\<close>

section \<open>The parent\<close>

definition start_graph_worker :: "'w wifi_env \<Rightarrow> nat \<Rightarrow> string \<Rightarrow> ('w wifi_peer, unit) io" where
  "start_graph_worker env k profile =
     bindI (tryI (query (wv_pipe env k))) (\<lambda>_.
     bindI (doI (say [Open_pipe k])) (\<lambda>_.
     bindI (tryI (query (wv_start env k profile))) (\<lambda>_.
     doI (\<lambda>p. act env (Close_child k) (say [Started k profile] p)))))"

definition is_alive :: "'w wifi_env \<Rightarrow> nat \<Rightarrow> 'w wifi_peer \<Rightarrow> bool \<times> 'w wifi_peer" where
  "is_alive env k p = (case query (wv_alive env k) p of (alive, p1) \<Rightarrow> (alive, say [Alive k alive] p1))"

definition alive_step :: "'w wifi_env \<Rightarrow> nat \<Rightarrow> 'w wifi_peer \<Rightarrow> bool res option \<times> 'w wifi_peer" where
  "alive_step env k p = (case is_alive env k p of (alive, p1) \<Rightarrow> (if alive then None else Some (Inr False), p1))"

definition worker_step :: "'w wifi_env \<Rightarrow> nat \<Rightarrow> string \<Rightarrow> 'w wifi_peer \<Rightarrow> bool res option \<times> 'w wifi_peer" where
  "worker_step env k expected p =
     (case query (wv_poll env k 100000) p of (ready, p1) \<Rightarrow>
      if ready then
        (case query (wv_recv env k) p1 of
           (Inl e, p2) \<Rightarrow> (Some (Inl e), p2)
         | (Inr message, p2) \<Rightarrow>
             if message = expected then (Some (Inr True), p2)
             else if message = ''visibility_timeout'' then (Some (Inr False), p2)
             else alive_step env k p2)
      else alive_step env k p1)"

definition wait_for_worker :: "'w wifi_env \<Rightarrow> nat \<Rightarrow> string \<Rightarrow> int \<Rightarrow> ('w wifi_peer, bool) io" where
  "wait_for_worker env k expected timeout =
     bindI (askI (clock env)) (\<lambda>now.
     bindI (pollI always (clock env) (worker_step env k expected) (now + timeout)) (\<lambda>found.
     returnI (found = Some True)))"

definition terminate_worker :: "'w wifi_env \<Rightarrow> nat \<Rightarrow> 'w wifi_peer \<Rightarrow> 'w wifi_peer" where
  "terminate_worker env k p =
     (case is_alive env k p of (alive, p1) \<Rightarrow>
      if alive then act env (Join k 5000000) (act env (Kill k) p1) else p1)"

definition send :: "'w wifi_env \<Rightarrow> nat \<Rightarrow> string \<Rightarrow> 'w wifi_peer \<Rightarrow> unit res \<times> 'w wifi_peer" where
  "send env k message p =
     (case query (wv_send env k message) p of (r, p1) \<Rightarrow> (r, case r of Inl _ \<Rightarrow> p1 | Inr _ \<Rightarrow> say [Send k message] p1))"

definition inbound_error :: "string \<Rightarrow> ('w wifi_peer, int) io" where
  "inbound_error reason =
     bindI (doI (say [Err (''ROS2_ZEPHYR_PEER_ERROR role=graph-inbound reason='' @ reason)])) (\<lambda>_. returnI 1)"

definition hold_phase :: "'w wifi_env \<Rightarrow> string \<Rightarrow> int \<Rightarrow> ('w wifi_peer, unit) io" where
  "hold_phase env phase duration =
     doI (\<lambda>p. act env (Sleep duration) (say [Out (''ROS2_ZEPHYR_PEER_GRAPH_PHASE direction=inbound phase='' @ phase)] p))"

text \<open>\<open>not wait(...) or not wait(...)\<close> stops at the first wait that fails.\<close>

definition wait_both ::
  "'w wifi_env \<Rightarrow> nat \<times> string \<Rightarrow> nat \<times> string \<Rightarrow> int \<Rightarrow> ('w wifi_peer, bool) io" where
  "wait_both env first second timeout =
     bindI (wait_for_worker env (fst first) (snd first) timeout) (\<lambda>ok.
     if ok then wait_for_worker env (fst second) (snd second) timeout else returnI False)"

text \<open>\<open>restarted\<close> is assigned when the worker has started.\<close>

definition start_restarted :: "'w wifi_env \<Rightarrow> ('w wifi_peer, unit) io" where
  "start_restarted env =
     bindI (start_graph_worker env 2 ''restart'') (\<lambda>_. doI (\<lambda>p. p\<lparr>wp_restarted := True\<rparr>))"

definition inbound_restart :: "'w wifi_env \<Rightarrow> int \<Rightarrow> ('w wifi_peer, int) io" where
  "inbound_restart env timeout =
     bindI (start_restarted env) (\<lambda>_.
     bindI (wait_both env (2, ''ready'') (2, ''visible'') timeout) (\<lambda>ok.
     if \<not> ok then inbound_error ''restart_timeout'' else
     bindI (hold_phase env ''restart'' GRAPH_HOLD_SECONDS) (\<lambda>_.
     bindI (doI (terminate_worker env 2)) (\<lambda>_.
     bindI (hold_phase env ''restart_lost'' GRAPH_LOSS_HOLD_SECONDS) (\<lambda>_.
     bindI (doI (say [Out ''ROS2_ZEPHYR_PEER_PASS role=graph-inbound''])) (\<lambda>_. returnI 0))))))"

definition inbound_reduce :: "'w wifi_env \<Rightarrow> int \<Rightarrow> ('w wifi_peer, int) io" where
  "inbound_reduce env timeout =
     bindI (tryI (send env 0 ''reduce'')) (\<lambda>_.
     bindI (wait_for_worker env 0 ''reduced'' timeout) (\<lambda>ok.
     if \<not> ok then inbound_error ''reduce_timeout'' else
     bindI (doI (terminate_worker env 1)) (\<lambda>_.
     bindI (hold_phase env ''reduced'' GRAPH_LOSS_HOLD_SECONDS) (\<lambda>_.
     bindI (doI (terminate_worker env 0)) (\<lambda>_.
     bindI (hold_phase env ''participant_lost'' GRAPH_LOSS_HOLD_SECONDS) (\<lambda>_.
     inbound_restart env timeout))))))"

definition inbound_phases :: "'w wifi_env \<Rightarrow> int \<Rightarrow> ('w wifi_peer, int) io" where
  "inbound_phases env timeout =
     bindI (wait_both env (0, ''ready'') (1, ''ready'') timeout) (\<lambda>ready.
     if \<not> ready then inbound_error ''worker_start_timeout'' else
     bindI (wait_for_worker env 0 ''visible'' timeout) (\<lambda>visible.
     if \<not> visible then inbound_error ''device_discovery_timeout'' else
     bindI (hold_phase env ''initial'' GRAPH_HOLD_SECONDS) (\<lambda>_.
     inbound_reduce env timeout)))"

definition inbound_cleanup :: "'w wifi_env \<Rightarrow> 'w wifi_peer \<Rightarrow> 'w wifi_peer" where
  "inbound_cleanup env p =
     (let p1 = terminate_worker env 1 (terminate_worker env 0 p);
          p2 = (if wp_restarted p1 then terminate_worker env 2 p1 else p1);
          p3 = act env (Close 1) (act env (Close 0) p2)
      in if wp_restarted p3 then act env (Close 2) p3 else p3)"

definition run_graph_inbound :: "'w wifi_env \<Rightarrow> int \<Rightarrow> ('w wifi_peer, int) io" where
  "run_graph_inbound env timeout =
     bindI (start_graph_worker env 0 ''initial'') (\<lambda>_.
     bindI (start_graph_worker env 1 ''beta'') (\<lambda>_.
     bindI (doI (\<lambda>p. p\<lparr>wp_restarted := False\<rparr>)) (\<lambda>_.
     finallyI (inbound_phases env timeout) (inbound_cleanup env))))"

section \<open>The worker\<close>

record 'w worker =
  wk_peer :: "'w wifi_peer"
  wk_publishers :: "string list"
  wk_subscriptions :: "string list"
  wk_deadline :: int
  wk_reported :: bool

definition create_graph_node :: "string \<Rightarrow> string \<Rightarrow> wifi_event" where
  "create_graph_node name namespace = Create_node name (Some namespace)"

text \<open>What a profile creates: the node, the topics of its publishers and those of its subscriptions.\<close>

definition worker_profile :: "string \<Rightarrow> wifi_event \<times> string list \<times> string list" where
  "worker_profile profile =
     (if profile = ''beta'' then (create_graph_node ''graph_peer_beta'' ''/graph_acceptance_alt'', [GRAPH_REMOTE_B], [])
      else (create_graph_node ''graph_peer_alpha'' ''/graph_acceptance'',
        (if profile = ''initial'' then [GRAPH_REMOTE_A, GRAPH_REMOTE_A] else []),
        (if profile = ''initial'' then [GRAPH_REMOTE_A, GRAPH_REMOTE_A] else [GRAPH_REMOTE_A])))"

text \<open>An operation on the part of the state that is the peer. The pipe of a worker has the number 0.\<close>

definition on_peer :: "('w wifi_peer \<Rightarrow> 'a \<times> 'w wifi_peer) \<Rightarrow> 'w worker \<Rightarrow> 'a \<times> 'w worker" where
  "on_peer f s = (case f (wk_peer s) of (x, p) \<Rightarrow> (x, s\<lparr>wk_peer := p\<rparr>))"

definition peer_do :: "('w wifi_peer \<Rightarrow> 'w wifi_peer) \<Rightarrow> 'w worker \<Rightarrow> 'w worker" where
  "peer_do f s = s\<lparr>wk_peer := f (wk_peer s)\<rparr>"

definition worker_send :: "'w wifi_env \<Rightarrow> string \<Rightarrow> ('w worker, unit) io" where
  "worker_send env message = tryI (on_peer (send env 0 message))"

definition worker_create :: "'w wifi_env \<Rightarrow> string \<Rightarrow> 'w \<Rightarrow> 'w worker" where
  "worker_create env profile w =
     (case worker_profile profile of (node, publishers, subscriptions) \<Rightarrow>
      \<lparr>wk_peer = fold (act env) ([Rcl_init, node] @ map (\<lambda>t. Create_publisher t None) publishers @
         map (\<lambda>t. Create_subscription t None) subscriptions) (wifi_start w),
       wk_publishers = publishers, wk_subscriptions = subscriptions, wk_deadline = 0, wk_reported = False\<rparr>)"

definition worker_start :: "'w wifi_env \<Rightarrow> int \<Rightarrow> ('w worker, unit) io" where
  "worker_start env timeout =
     bindI (worker_send env ''ready'') (\<lambda>_.
     bindI (askI (on_peer (clock env))) (\<lambda>now.
     doI (\<lambda>s. s\<lparr>wk_deadline := now + timeout\<rparr>)))"

definition worker_report :: "'w wifi_env \<Rightarrow> string \<Rightarrow> ('w worker, unit) io" where
  "worker_report env message =
     bindI (worker_send env message) (\<lambda>_. doI (\<lambda>s. s\<lparr>wk_reported := True\<rparr>))"

definition worker_visibility :: "'w wifi_env \<Rightarrow> ('w worker, unit) io" where
  "worker_visibility env s =
     (if wk_reported s then returnI () s else
      bindI (askI (on_peer (device_node_visible env))) (\<lambda>visible.
      if visible then worker_report env ''visible'' else
      bindI (askI (on_peer (clock env))) (\<lambda>now s.
      if wk_deadline s \<le> now then worker_report env ''visibility_timeout'' s else returnI () s)) s)"

definition worker_reduce :: "'w wifi_env \<Rightarrow> ('w worker, unit) io" where
  "worker_reduce env s =
     (if wk_publishers s = [] then raiseI IndexError s else
      bindI (doI (\<lambda>s. peer_do (act env (Destroy_publisher (last (wk_publishers s)))) (s\<lparr>wk_publishers := butlast (wk_publishers s)\<rparr>))) (\<lambda>_.
      bindI (doI (\<lambda>s. (peer_do (fold (\<lambda>t. act env (Destroy_subscription t)) (wk_subscriptions s)) s)\<lparr>wk_subscriptions := []\<rparr>)) (\<lambda>_.
      worker_send env ''reduced'')) s)"

text \<open>One command of the parent, when there is one; the answer is whether to stop.\<close>

definition worker_command :: "'w wifi_env \<Rightarrow> ('w worker, bool) io" where
  "worker_command env =
     bindI (askI (on_peer (query (wv_poll env 0 0)))) (\<lambda>ready.
     if \<not> ready then returnI False else
     bindI (tryI (on_peer (query (wv_recv env 0)))) (\<lambda>command.
     if command = ''reduce'' then bindI (worker_reduce env) (\<lambda>_. returnI False)
     else returnI (command = ''stop'')))"

definition worker_round :: "'w wifi_env \<Rightarrow> ('w worker, bool) io" where
  "worker_round env =
     bindI (doI (peer_do (wifi_spin env 100000))) (\<lambda>_.
     bindI (worker_visibility env) (\<lambda>_. worker_command env))"

partial_function (option) worker_loop :: "'w wifi_env \<Rightarrow> 'w worker \<Rightarrow> (unit res \<times> 'w worker) option" where
  "worker_loop env s =
     (case worker_round env s of
        None \<Rightarrow> None
      | Some (Inl e, s1) \<Rightarrow> Some (Inl e, s1)
      | Some (Inr stop, s1) \<Rightarrow> if stop then Some (Inr (), s1) else worker_loop env s1)"

definition graph_inbound_worker :: "'w wifi_env \<Rightarrow> string \<Rightarrow> int \<Rightarrow> 'w \<Rightarrow> (unit res \<times> 'w worker) option" where
  "graph_inbound_worker env profile timeout w =
     bindI (worker_start env timeout) (\<lambda>_.
     finallyI (worker_loop env) (peer_do (\<lambda>p. act env Rcl_shutdown (act env Destroy_node p)))) (worker_create env profile w)"

text \<open>The states that the rounds of a worker reach.\<close>

inductive worker_reaches :: "'w wifi_env \<Rightarrow> string \<Rightarrow> int \<Rightarrow> 'w \<Rightarrow> 'w worker \<Rightarrow> bool"
  for env :: "'w wifi_env" and profile :: string and timeout :: int and w :: 'w where
  started: "worker_start env timeout (worker_create env profile w) = Some (Inr (), s) \<Longrightarrow> worker_reaches env profile timeout w s"
| round: "worker_reaches env profile timeout w s \<Longrightarrow> worker_round env s = Some (Inr False, s') \<Longrightarrow>
    worker_reaches env profile timeout w s'"

section \<open>The parent cleans up\<close>

text \<open>The trace only grows, and a restarted worker is on record exactly when one was started.\<close>

definition tracked :: "'w wifi_peer \<Rightarrow> 'w wifi_peer \<Rightarrow> bool" where
  "tracked p p' \<longleftrightarrow> (\<exists>t. wp_trace p' = wp_trace p @ t \<and>
     (wp_restarted p' \<longleftrightarrow> wp_restarted p \<or> Started 2 ''restart'' \<in> set t))"

lemma trackedI:
  "wp_trace p' = wp_trace p @ t \<Longrightarrow> wp_restarted p' = (wp_restarted p \<or> Started 2 ''restart'' \<in> set t) \<Longrightarrow> tracked p p'"
  unfolding tracked_def by blast

lemma tracked_trans: "tracked p q \<Longrightarrow> tracked q r \<Longrightarrow> tracked p r"
  unfolding tracked_def by (elim exE conjE) (rule exI, rule conjI, simp, auto)

lemma tracked_preorder [simp]: "preorder_on_states tracked"
  unfolding preorder_on_states_def reflp_def transp_def using tracked_trans by (auto intro: trackedI)

lemma tracked_basic:
  "tracked p (snd (query f p))" "\<nexists>k s. e = Started k s \<Longrightarrow> tracked p (say [e] p)"
  "\<nexists>k s. e = Started k s \<Longrightarrow> tracked p (act env e p)"
  by (auto intro!: trackedI)

lemma is_alive_trace:
  "wp_trace (snd (is_alive env k p)) = wp_trace p @ [Alive k (fst (is_alive env k p))]"
  "wp_restarted (snd (is_alive env k p)) = wp_restarted p"
proof -
  obtain alive p1 where q: "query (wv_alive env k) p = (alive, p1)" by (cases "query (wv_alive env k) p")
  then have "p1 = snd (query (wv_alive env k) p)" by simp
  then have "wp_trace p1 = wp_trace p" "wp_restarted p1 = wp_restarted p" by simp_all
  with q show "wp_trace (snd (is_alive env k p)) = wp_trace p @ [Alive k (fst (is_alive env k p))]"
    "wp_restarted (snd (is_alive env k p)) = wp_restarted p" by (simp_all add: is_alive_def)
qed

text \<open>The worker was found dead, or it was killed and joined.\<close>

definition stopped :: "nat \<Rightarrow> wifi_event list \<Rightarrow> bool" where
  "stopped k t \<longleftrightarrow> t = [Alive k False] \<or> t = [Alive k True, Kill k, Join k 5000000]"

lemma terminate_worker_trace:
  obtains t where "stopped k t" "wp_trace (terminate_worker env k p) = wp_trace p @ t"
    "wp_restarted (terminate_worker env k p) = wp_restarted p"
proof -
  obtain alive p1 where q: "is_alive env k p = (alive, p1)" by (cases "is_alive env k p")
  with is_alive_trace [of env k p] have "wp_trace p1 = wp_trace p @ [Alive k alive]" "wp_restarted p1 = wp_restarted p" by simp_all
  with q show thesis
    by (cases alive) (auto simp: terminate_worker_def stopped_def intro: that)
qed

lemma tracked_terminate: "tracked p (terminate_worker env k p)"
proof (rule terminate_worker_trace [of k env p])
  fix t
  assume "stopped k t" "wp_trace (terminate_worker env k p) = wp_trace p @ t"
    "wp_restarted (terminate_worker env k p) = wp_restarted p"
  then show ?thesis by (intro trackedI) (auto simp: stopped_def)
qed

lemma tracked_send: "tracked p (snd (send env k m p))"
proof -
  obtain r p1 where q: "query (wv_send env k m) p = (r, p1)" by (cases "query (wv_send env k m) p")
  with tracked_basic(1) [of p "wv_send env k m"] have "tracked p p1" by simp
  then have "tracked p (say [Send k m] p1)" by (rule tracked_trans) (simp add: tracked_basic)
  with \<open>tracked p p1\<close> q show ?thesis by (simp add: send_def split: sum.splits)
qed

lemma tracked_alive: "tracked p (snd (alive_step env k p))"
proof -
  have "tracked p (snd (is_alive env k p))" by (rule trackedI [OF is_alive_trace(1)]) (simp add: is_alive_trace)
  then show ?thesis by (cases "is_alive env k p") (simp add: alive_step_def)
qed

lemma tracked_worker_step: "tracked p (snd (worker_step env k expected p))"
proof -
  obtain ready p1 where q1: "query (wv_poll env k 100000) p = (ready, p1)" by (cases "query (wv_poll env k 100000) p")
  obtain r p2 where q2: "query (wv_recv env k) p1 = (r, p2)" by (cases "query (wv_recv env k) p1")
  from q1 tracked_basic(1) [of p] have 1: "tracked p p1" by (metis snd_conv)
  from q2 tracked_basic(1) [of p1] have "tracked p1 p2" by (metis snd_conv)
  with 1 have 2: "tracked p p2" by (rule tracked_trans)
  from tracked_trans [OF 1 tracked_alive] tracked_trans [OF 2 tracked_alive] 2 q1 q2 show ?thesis
    by (simp add: worker_step_def split: sum.splits)
qed

lemma keeps_tracked [keeps]:
  "keeps tracked (wait_for_worker env k expected timeout)" "keeps tracked (inbound_error reason)"
  "keeps tracked (hold_phase env phase duration)"
proof -
  have clock: "tracked p (snd (clock env p))" for p by (simp add: clock_def tracked_basic)
  show "keeps tracked (wait_for_worker env k expected timeout)"
    unfolding wait_for_worker_def
    by (intro keeps tracked_preorder clock tracked_worker_step) (auto intro: trackedI)
  show "keeps tracked (inbound_error reason)"
    unfolding inbound_error_def by (intro keeps tracked_preorder) (simp add: tracked_basic)
  show "keeps tracked (hold_phase env phase duration)"
    unfolding hold_phase_def by (intro keeps tracked_preorder) (auto intro: tracked_trans tracked_basic)
qed

lemma start_trace:
  assumes "start_graph_worker env k profile p = Some (r, p')"
  obtains e where "r = Inl e" "wp_trace p' = wp_trace p \<or> wp_trace p' = wp_trace p @ [Open_pipe k]" "wp_restarted p' = wp_restarted p"
  | "r = Inr ()" "wp_trace p' = wp_trace p @ [Open_pipe k, Started k profile, Close_child k]" "wp_restarted p' = wp_restarted p"
proof -
  have kept: "wp_trace q = wp_trace p \<and> wp_restarted q = wp_restarted p" if "query f p = (x, q)"
    for f :: "'a \<Rightarrow> unit res \<times> 'a" and p q x
    using query_simps [of f p] that by (metis snd_conv)
  obtain x p1 where pipe: "query (wv_pipe env k) p = (x, p1)" by fastforce
  obtain y p2 where start: "query (wv_start env k profile) (say [Open_pipe k] p1) = (y, p2)" by fastforce
  from kept [OF pipe] kept [OF start] pipe start assms that show thesis
    by (cases x; cases y) (auto simp: start_graph_worker_def bindI_def tryI_def doI_def)
qed

lemma keeps_start_restarted: "keeps tracked (start_restarted env)"
  unfolding keeps_def
proof (intro allI impI)
  fix p r p'
  assume "start_restarted env p = Some (r, p')"
  then obtain x q where q: "start_graph_worker env 2 ''restart'' p = Some (x, q)"
    and out: "(\<exists>e. x = Inl e \<and> p' = q) \<or> (\<exists>u. x = Inr u \<and> p' = q\<lparr>wp_restarted := True\<rparr>)"
    by (auto simp: start_restarted_def io_simps)
  from start_trace [OF q] out show "tracked p p'"
    by cases (auto intro: trackedI)
qed

lemma keeps_inbound: "keeps tracked (inbound_phases env timeout)"
  unfolding inbound_phases_def inbound_reduce_def inbound_restart_def wait_both_def
  by (intro keeps tracked_preorder keeps_start_restarted tracked_terminate tracked_send) (simp add: tracked_basic)


lemma inbound_cleanup_trace:
  obtains s0 s1 s2 where "stopped 0 s0" "stopped 1 s1"
    "wp_trace (inbound_cleanup env p) = wp_trace p @ s0 @ s1 @ s2 @ [Close 0, Close 1] @ (if wp_restarted p then [Close 2] else [])"
    "if wp_restarted p then stopped 2 s2 else s2 = []"
proof -
  let ?p0 = "terminate_worker env 0 p" and ?p1 = "terminate_worker env 1 (terminate_worker env 0 p)"
  obtain s0 where s0: "stopped 0 s0" "wp_trace ?p0 = wp_trace p @ s0" "wp_restarted ?p0 = wp_restarted p"
    by (rule terminate_worker_trace)
  obtain s1 where s1: "stopped 1 s1" "wp_trace ?p1 = wp_trace ?p0 @ s1" "wp_restarted ?p1 = wp_restarted ?p0"
    by (rule terminate_worker_trace)
  obtain s2 where s2: "stopped 2 s2" "wp_trace (terminate_worker env 2 ?p1) = wp_trace ?p1 @ s2"
    "wp_restarted (terminate_worker env 2 ?p1) = wp_restarted ?p1"
    by (rule terminate_worker_trace)
  show thesis
    by (rule that [where ?s2.0 = "if wp_restarted p then s2 else []", OF s0(1) s1(1)])
       (use s0 s1 s2 in \<open>simp_all add: inbound_cleanup_def Let_def\<close>)
qed

definition first_started :: "wifi_event list" where
  "first_started = [Open_pipe 0, Started 0 ''initial'', Close_child 0]"

definition both_started :: "wifi_event list" where
  "both_started = first_started @ [Open_pipe 1, Started 1 ''beta'', Close_child 1]"

lemma inbound_run:
  assumes "run_graph_inbound env timeout p = Some (r, p')" and "wp_trace p = []"
  obtains e where "r = Inl e" "wp_trace p' = [] \<or> wp_trace p' = [Open_pipe 0]"
  | e where "r = Inl e" "wp_trace p' = first_started \<or> wp_trace p' = first_started @ [Open_pipe 1]"
  | q0 q where "inbound_phases env timeout q0 = Some (r, q)" "p' = inbound_cleanup env q" "\<not> wp_restarted q0"
      "wp_trace q0 = both_started"
proof -
  let ?rest = "bindI (doI (\<lambda>p. p\<lparr>wp_restarted := False\<rparr>)) (\<lambda>_. finallyI (inbound_phases env timeout) (inbound_cleanup env))"
  from assms(1) obtain x p1 where 0: "start_graph_worker env 0 ''initial'' p = Some (x, p1)"
    and out0: "(\<exists>e. x = Inl e \<and> r = Inl e \<and> p' = p1) \<or> (\<exists>u. x = Inr u \<and> bindI (start_graph_worker env 1 ''beta'') (\<lambda>_. ?rest) p1 = Some (r, p'))"
    unfolding run_graph_inbound_def bindI_Some [of "start_graph_worker env 0 ''initial''"] by blast
  from start_trace [OF 0] show thesis
  proof cases
    case (1 e)
    with out0 assms(2) that(1) show ?thesis by auto
  next
    case 2
    with out0 obtain y p2 where y: "start_graph_worker env 1 ''beta'' p1 = Some (y, p2)"
      and out1: "(\<exists>e. y = Inl e \<and> r = Inl e \<and> p' = p2) \<or> (\<exists>u. y = Inr u \<and> ?rest p2 = Some (r, p'))"
      unfolding bindI_Some [of "start_graph_worker env 1 ''beta''"] by blast
    from start_trace [OF y] show ?thesis
    proof cases
      case (1 e)
      with out1 2 assms(2) that(2) show ?thesis by (auto simp: first_started_def)
    next
      case started: 2
      with out1 obtain q where "inbound_phases env timeout (p2\<lparr>wp_restarted := False\<rparr>) = Some (r, q)" "p' = inbound_cleanup env q"
        by (auto simp: io_simps)
      then show ?thesis by (rule that(3)) (use started 2 assms(2) in \<open>simp_all add: both_started_def first_started_def\<close>)
    qed
  qed
qed

section \<open>The parent returns\<close>

text \<open>The questions about processes and pipes take no negative time, and a look at a pipe takes some.\<close>

definition process_time :: "('w \<Rightarrow> int) \<Rightarrow> 'w wifi_env \<Rightarrow> bool" where
  "process_time now env \<longleftrightarrow> (\<forall>k d w. now w < now (snd (wv_poll env k d w))) \<and>
     (\<forall>k w. now w \<le> now (snd (wv_recv env k w))) \<and> (\<forall>k w. now w \<le> now (snd (wv_alive env k w)))"

lemma alive_step_world: "wp_world (snd (alive_step env k p)) = snd (wv_alive env k (wp_world p))"
proof -
  obtain alive p1 where q: "query (wv_alive env k) p = (alive, p1)" by (cases "query (wv_alive env k) p")
  then have "p1 = snd (query (wv_alive env k) p)" by simp
  then have "wp_world p1 = snd (wv_alive env k (wp_world p))" by simp
  with q show ?thesis by (simp add: alive_step_def is_alive_def)
qed

lemma worker_step_later:
  assumes "process_time now env"
  shows "now (wp_world p) < now (wp_world (snd (worker_step env k expected p)))"
proof -
  obtain ready p1 where q1: "query (wv_poll env k 100000) p = (ready, p1)" by (cases "query (wv_poll env k 100000) p")
  obtain r p2 where q2: "query (wv_recv env k) p1 = (r, p2)" by (cases "query (wv_recv env k) p1")
  have "p1 = snd (query (wv_poll env k 100000) p)" "p2 = snd (query (wv_recv env k) p1)" using q1 q2 by simp_all
  then have w: "wp_world p1 = snd (wv_poll env k 100000 (wp_world p))" "wp_world p2 = snd (wv_recv env k (wp_world p1))"
    by simp_all
  have alive: "now w \<le> now (snd (wv_alive env k w))" for w using assms by (simp add: process_time_def)
  have 1: "now (wp_world p) < now (wp_world p1)" unfolding w using assms by (simp add: process_time_def)
  have "now (wp_world p1) \<le> now (wp_world p2)" unfolding w(2) using assms by (simp add: process_time_def)
  with 1 have 2: "now (wp_world p) < now (wp_world p2)" by simp
  from less_le_trans [OF 1 alive] less_le_trans [OF 2 alive] 2 q1 q2 show ?thesis
    by (simp add: worker_step_def alive_step_world split: sum.splits)
qed

lemma returns_wait_for_worker:
  assumes "wifi_time now env" "process_time now env"
  shows "returns (wait_for_worker env k expected timeout)"
proof -
  have "(now \<circ> wp_world) p < (now \<circ> wp_world) p'" if "worker_step env k expected p = (None, p')" for p p'
    using worker_step_later [OF assms(2), of p k expected] that by simp
  then have "returns (pollI always (clock env) (worker_step env k expected) d)" for d
    by (intro returns_pollI [OF reads_clock [OF assms(1)]]) simp_all
  then show ?thesis unfolding wait_for_worker_def by (intro returns)
qed

lemma returns_run_graph_inbound:
  assumes "wifi_time now env" "process_time now env"
  shows "returns (run_graph_inbound env timeout)"
  unfolding run_graph_inbound_def inbound_phases_def inbound_reduce_def inbound_restart_def start_restarted_def
    start_graph_worker_def wait_both_def hold_phase_def inbound_error_def
  by (intro returns returns_wait_for_worker [OF assms])


section \<open>The worker keeps its protocol\<close>

fun sent_messages :: "wifi_event list \<Rightarrow> string list" where
  "sent_messages [] = []"
| "sent_messages (Send k m # es) = m # sent_messages es"
| "sent_messages (_ # es) = sent_messages es"

fun destroyed_publishers :: "wifi_event list \<Rightarrow> string list" where
  "destroyed_publishers [] = []"
| "destroyed_publishers (Destroy_publisher t # es) = t # destroyed_publishers es"
| "destroyed_publishers (_ # es) = destroyed_publishers es"

fun destroyed_subscriptions :: "wifi_event list \<Rightarrow> string list" where
  "destroyed_subscriptions [] = []"
| "destroyed_subscriptions (Destroy_subscription t # es) = t # destroyed_subscriptions es"
| "destroyed_subscriptions (_ # es) = destroyed_subscriptions es"

lemma event_lists_append [simp]:
  "sent_messages (a @ b) = sent_messages a @ sent_messages b"
  "destroyed_publishers (a @ b) = destroyed_publishers a @ destroyed_publishers b"
  "destroyed_subscriptions (a @ b) = destroyed_subscriptions a @ destroyed_subscriptions b"
  by (induction a rule: sent_messages.induct) simp_all

text \<open>
  The first message is \<open>ready\<close>; visibility is reported at most once; every reduction takes one publisher
  and the first one takes all subscriptions.
\<close>

definition worker_protocol :: "string \<Rightarrow> 'w worker \<Rightarrow> bool" where
  "worker_protocol profile s \<longleftrightarrow>
     (case worker_profile profile of (node, publishers, subscriptions) \<Rightarrow>
      let t = wp_trace (wk_peer s); sent = sent_messages t; n = count_list sent ''reduced''
      in sent \<noteq> [] \<and> hd sent = ''ready'' \<and> set (tl sent) \<subseteq> {''visible'', ''visibility_timeout'', ''reduced''} \<and>
         count_list sent ''visible'' + count_list sent ''visibility_timeout'' = of_bool (wk_reported s) \<and>
         publishers = wk_publishers s @ rev (destroyed_publishers t) \<and> length (destroyed_publishers t) = n \<and>
         subscriptions = destroyed_subscriptions t @ wk_subscriptions s \<and> (0 < n \<longrightarrow> wk_subscriptions s = []))"

definition worker_inv :: "string \<Rightarrow> 'w worker \<Rightarrow> bool" where
  "worker_inv profile s \<longleftrightarrow> \<not> wp_receiving (wk_peer s) \<and> worker_protocol profile s"

lemma worker_inv_frame:
  assumes "worker_inv profile s" and "wp_trace (wk_peer s') = wp_trace (wk_peer s)" "wp_receiving (wk_peer s') = wp_receiving (wk_peer s)"
    "wk_publishers s' = wk_publishers s" "wk_subscriptions s' = wk_subscriptions s" "wk_reported s' = wk_reported s"
  shows "worker_inv profile s'"
  using assms by (simp add: worker_inv_def worker_protocol_def)

lemma on_peer_simps [simp]:
  "fst (on_peer f s) = fst (f (wk_peer s))" "wk_peer (snd (on_peer f s)) = snd (f (wk_peer s))"
  "wk_publishers (snd (on_peer f s)) = wk_publishers s" "wk_subscriptions (snd (on_peer f s)) = wk_subscriptions s"
  "wk_reported (snd (on_peer f s)) = wk_reported s" "wk_deadline (snd (on_peer f s)) = wk_deadline s"
  by (simp_all add: on_peer_def split: prod.splits)

lemma send_trace:
  "fst (send env k m p) = Inr u \<Longrightarrow> wp_trace (snd (send env k m p)) = wp_trace p @ [Send k m]"
  "wp_receiving (snd (send env k m p)) = wp_receiving p"
proof -
  obtain r p1 where q: "query (wv_send env k m) p = (r, p1)" by (cases "query (wv_send env k m) p")
  then have "p1 = snd (query (wv_send env k m) p)" by simp
  then have "wp_trace p1 = wp_trace p" "wp_receiving p1 = wp_receiving p" by simp_all
  with q show "fst (send env k m p) = Inr u \<Longrightarrow> wp_trace (snd (send env k m p)) = wp_trace p @ [Send k m]"
    "wp_receiving (snd (send env k m p)) = wp_receiving p"
    by (simp_all add: send_def split: sum.splits)
qed

lemma worker_send_done:
  assumes "worker_send env m s = Some (Inr u, s')"
  shows "wp_trace (wk_peer s') = wp_trace (wk_peer s) @ [Send 0 m]" "wp_receiving (wk_peer s') = wp_receiving (wk_peer s)"
    "wk_publishers s' = wk_publishers s" "wk_subscriptions s' = wk_subscriptions s" "wk_reported s' = wk_reported s"
  using assms send_trace(1) [of env 0 m "wk_peer s" u] send_trace(2) [of env 0 m "wk_peer s"]
  by (auto simp: worker_send_def io_simps)

lemma clock_frame [simp]:
  "wp_trace (snd (clock env p)) = wp_trace p" "wp_receiving (snd (clock env p)) = wp_receiving p"
  "wp_trace (snd (device_node_visible env p)) = wp_trace p" "wp_receiving (snd (device_node_visible env p)) = wp_receiving p"
  by (simp_all add: clock_def device_node_visible_def)

lemma fold_act:
  "wp_trace (fold (act env) es p) = wp_trace p @ es" "wp_receiving (fold (act env) es p) = wp_receiving p"
  by (induction es arbitrary: p) simp_all

lemma worker_inv_start:
  assumes "worker_start env timeout (worker_create env profile w) = Some (Inr (), s)"
  shows "worker_inv profile s"
proof -
  obtain node ps ss where prof: "worker_profile profile = (node, ps, ss)" by (cases "worker_profile profile")
  let ?c = "worker_create env profile w"
  from assms obtain u s1 where s1: "worker_send env ''ready'' ?c = Some (Inr u, s1)"
    and s: "wp_trace (wk_peer s) = wp_trace (wk_peer s1)" "wp_receiving (wk_peer s) = wp_receiving (wk_peer s1)"
      "wk_publishers s = wk_publishers s1" "wk_subscriptions s = wk_subscriptions s1" "wk_reported s = wk_reported s1"
    by (auto simp: worker_start_def io_simps)
  have node: "\<exists>a b. node = Create_node a b"
    using prof by (auto simp: worker_profile_def create_graph_node_def split: if_splits)
  have made: "sent_messages (map (\<lambda>t. Create_publisher t None) xs) = []" "sent_messages (map (\<lambda>t. Create_subscription t None) xs) = []"
    "destroyed_publishers (map (\<lambda>t. Create_publisher t None) xs) = []" "destroyed_publishers (map (\<lambda>t. Create_subscription t None) xs) = []"
    "destroyed_subscriptions (map (\<lambda>t. Create_publisher t None) xs) = []" "destroyed_subscriptions (map (\<lambda>t. Create_subscription t None) xs) = []"
    for xs by (induction xs) simp_all
  have c: "wp_trace (wk_peer ?c) = [Rcl_init, node] @ map (\<lambda>t. Create_publisher t None) ps @ map (\<lambda>t. Create_subscription t None) ss"
    "\<not> wp_receiving (wk_peer ?c)" "wk_publishers ?c = ps" "wk_subscriptions ?c = ss" "\<not> wk_reported ?c"
    by (simp_all add: worker_create_def prof fold_act wifi_start_def)
  from node c show ?thesis
    by (auto simp: worker_inv_def worker_protocol_def prof s worker_send_done [OF s1] made)
qed


lemma worker_inv_report:
  assumes inv: "worker_inv profile s" and new: "\<not> wk_reported s" and m: "m = ''visible'' \<or> m = ''visibility_timeout''"
    and run: "worker_report env m s = Some (Inr u, s')"
  shows "worker_inv profile s'"
proof -
  obtain node ps ss where prof: "worker_profile profile = (node, ps, ss)" by (cases "worker_profile profile")
  from run obtain v s1 where s1: "worker_send env m s = Some (Inr v, s1)" and s': "s' = s1\<lparr>wk_reported := True\<rparr>"
    by (auto simp: worker_report_def io_simps)
  from inv new m show ?thesis
    by (auto simp: worker_inv_def worker_protocol_def prof s' worker_send_done [OF s1] Let_def count_list_append)
qed

lemma worker_inv_visibility:
  assumes inv: "worker_inv profile s" and run: "worker_visibility env s = Some (Inr u, s')"
  shows "worker_inv profile s'"
proof (cases "wk_reported s")
  case True
  with assms show ?thesis by (simp add: worker_visibility_def io_simps)
next
  case False
  let ?s1 = "snd (on_peer (device_node_visible env) s)"
  let ?s2 = "snd (on_peer (clock env) ?s1)"
  have frame: "worker_inv profile ?s1" "worker_inv profile ?s2" by (rule worker_inv_frame [OF inv]; simp)+
  have new: "\<not> wk_reported ?s1" "\<not> wk_reported ?s2" using False by simp_all
  have "worker_report env ''visible'' ?s1 = Some (Inr u, s') \<or> worker_report env ''visibility_timeout'' ?s2 = Some (Inr u, s') \<or> s' = ?s2"
    using run False by (auto simp: worker_visibility_def bindI_def askI_def returnI_def on_peer_def split: prod.splits if_splits)
  then show ?thesis
    using worker_inv_report [OF frame(1) new(1)] worker_inv_report [OF frame(2) new(2)] frame(2) by blast
qed

lemma fold_destroy:
  "wp_trace (fold (\<lambda>t. act env (Destroy_subscription t)) ts p) = wp_trace p @ map Destroy_subscription ts"
  "wp_receiving (fold (\<lambda>t. act env (Destroy_subscription t)) ts p) = wp_receiving p"
  by (induction ts arbitrary: p) simp_all

lemma worker_inv_reduce:
  assumes inv: "worker_inv profile s" and run: "worker_reduce env s = Some (Inr u, s')"
  shows "worker_inv profile s'"
proof -
  obtain node ps ss where prof: "worker_profile profile = (node, ps, ss)" by (cases "worker_profile profile")
  from run obtain s1 where nonempty: "wk_publishers s \<noteq> []" and s1: "worker_send env ''reduced'' s1 = Some (Inr u, s')"
    and fields: "wp_trace (wk_peer s1) = wp_trace (wk_peer s) @ [Destroy_publisher (last (wk_publishers s))] @ map Destroy_subscription (wk_subscriptions s)"
      "wp_receiving (wk_peer s1) = wp_receiving (wk_peer s)" "wk_publishers s1 = butlast (wk_publishers s)"
      "wk_subscriptions s1 = []" "wk_reported s1 = wk_reported s"
    by (auto simp: worker_reduce_def io_simps peer_do_def fold_destroy split: if_splits)
  have made: "sent_messages (map Destroy_subscription xs) = []" "destroyed_publishers (map Destroy_subscription xs) = []"
    "destroyed_subscriptions (map Destroy_subscription xs) = xs" for xs by (induction xs) simp_all
  have pubs: "butlast (wk_publishers s) @ last (wk_publishers s) # xs = wk_publishers s @ xs" for xs
    using append_butlast_last_id [OF nonempty] by (metis append.assoc append_Cons append_Nil)
  from inv show ?thesis
    by (auto simp: worker_inv_def worker_protocol_def prof fields worker_send_done [OF s1] Let_def count_list_append made pubs)
qed

lemma worker_inv_round:
  assumes inv: "worker_inv profile s" and run: "worker_round env s = Some (Inr b, s')"
  shows "worker_inv profile s'"
proof -
  let ?s0 = "peer_do (wifi_spin env 100000) s"
  have "worker_inv profile ?s0"
    using inv by (rule worker_inv_frame) (use inv in \<open>simp_all add: peer_do_def worker_inv_def spin_deaf\<close>)
  moreover from run obtain u s1 where "worker_visibility env ?s0 = Some (Inr u, s1)" and c: "worker_command env s1 = Some (Inr b, s')"
    by (auto simp: worker_round_def io_simps)
  ultimately have 1: "worker_inv profile s1" by (blast intro: worker_inv_visibility)
  let ?s2 = "snd (on_peer (query (wv_poll env 0 0)) s1)"
  let ?s3 = "snd (on_peer (query (wv_recv env 0)) ?s2)"
  have 2: "worker_inv profile ?s2" "worker_inv profile ?s3" by (rule worker_inv_frame [OF 1]; simp)+
  from c have "s' = ?s2 \<or> s' = ?s3 \<or> (\<exists>u. worker_reduce env ?s3 = Some (Inr u, s'))"
    by (auto simp: worker_command_def io_simps split: if_splits)
  with 2 show ?thesis by (auto intro: worker_inv_reduce)
qed

lemma worker_reaches_inv: "worker_reaches env profile timeout w s \<Longrightarrow> worker_inv profile s"
  by (induction rule: worker_reaches.induct) (auto intro: worker_inv_start worker_inv_round)

text \<open>The loop stops in a state that a last round reaches from a reachable one.\<close>

lemma worker_loop_last:
  assumes "worker_loop env s = Some (r, s')" and "worker_reaches env profile timeout w s"
  shows "\<exists>q x. worker_reaches env profile timeout w q \<and> worker_round env q = Some (x, s') \<and> (x = Inr True \<longleftrightarrow> r = Inr ()) \<and> x \<noteq> Inr False"
proof -
  define P where "P = (\<lambda>e s (out :: unit res \<times> 'a worker). e = env \<longrightarrow> worker_reaches env profile timeout w s \<longrightarrow>
    (\<exists>q x. worker_reaches env profile timeout w q \<and> worker_round env q = Some (x, snd out) \<and> (x = Inr True \<longleftrightarrow> fst out = Inr ()) \<and> x \<noteq> Inr False))"
  from assms(1) have "P env s (r, s')"
  proof (rule worker_loop.raw_induct [rotated])
    fix loop e s and out :: "unit res \<times> 'a worker"
    assume IH: "\<And>e s out. loop e s = Some out \<Longrightarrow> P e s out"
      and eq: "(case worker_round e s of None \<Rightarrow> None | Some (Inl e, s1) \<Rightarrow> Some (Inl e, s1)
        | Some (Inr stop, s1) \<Rightarrow> if stop then Some (Inr (), s1) else loop e s1) = Some out"
    show "P e s out"
      unfolding P_def
    proof (intro impI)
      assume e: "e = env" and reach: "worker_reaches env profile timeout w s"
      from eq obtain x s1 where x: "worker_round env s = Some (x, s1)" unfolding e by (auto split: option.splits)
      show "\<exists>q x. worker_reaches env profile timeout w q \<and> worker_round env q = Some (x, snd out) \<and> (x = Inr True \<longleftrightarrow> fst out = Inr ()) \<and> x \<noteq> Inr False"
      proof (cases "x = Inr False")
        case True
        with eq x have "loop env s1 = Some out" unfolding e by simp
        from IH [OF this] worker_reaches.round [OF reach x [unfolded True]] show ?thesis by (simp add: P_def)
      next
        case False
        with eq x have "snd out = s1 \<and> (x = Inr True \<longleftrightarrow> fst out = Inr ())" unfolding e by (auto split: sum.splits if_splits)
        with False reach x show ?thesis by blast
      qed
    qed
  qed
  with assms(2) show ?thesis by (simp add: P_def)
qed


section \<open>An example world\<close>

text \<open>A clock that ticks at every look, one pipe with messages to read, and workers that live until they are killed.\<close>

definition tick :: "int \<times> string list \<Rightarrow> int \<times> string list" where
  "tick w = (fst w + 1, snd w)"

definition example_wifi :: "(int \<times> string list) wifi_env" where
  "example_wifi =
     \<lparr>wv_clock = (\<lambda>w. (fst w + 1, tick w)), wv_spin = (\<lambda>d w. ([], tick w)), wv_act = (\<lambda>e w. w), wv_subscribers = (\<lambda>w. (0, w)),
      wv_publishers = (\<lambda>t w. ([], w)), wv_nodes = (\<lambda>w. ([], w)), wv_publishers_of = (\<lambda>n w. (Inr [], w)),
      wv_subscribers_of = (\<lambda>n w. (Inr [], w)), wv_pipe = (\<lambda>k w. (Inr (), w)), wv_start = (\<lambda>k s w. (Inr (), w)), wv_alive = (\<lambda>k w. (True, w)),
      wv_poll = (\<lambda>k d w. (True, tick w)),
      wv_recv = (\<lambda>k w. case snd w of [] \<Rightarrow> (Inl EOFError, w) | m # ms \<Rightarrow> (Inr m, (fst w, ms))),
      wv_send = (\<lambda>k m w. (Inr (), w))\<rparr>"

lemma example_wifi_time: "wifi_time fst example_wifi" "process_time fst example_wifi"
  by (simp_all add: wifi_time_def process_time_def reads_time_def example_wifi_def tick_def split: list.splits)

lemma example_answer:
  assumes "snd (wp_world p) \<noteq> []" "hd (snd (wp_world p)) = expected" and "1 < timeout"
  shows "wait_for_worker example_wifi k expected timeout p =
    Some (Inr True, p\<lparr>wp_world := (fst (wp_world p) + 3, tl (snd (wp_world p)))\<rparr>)"
proof -
  from assms obtain ms where ms: "snd (wp_world p) = expected # ms" by (cases "snd (wp_world p)") auto
  let ?d = "fst (wp_world p) + 1 + timeout"
  let ?q = "p\<lparr>wp_world := (fst (wp_world p) + 1, expected # ms)\<rparr>"
  have "poll always (clock example_wifi) (worker_step example_wifi k expected) ?d ?q =
      Some (Some (Inr True), p\<lparr>wp_world := (fst (wp_world p) + 3, ms)\<rparr>)"
    using assms(3) by (subst poll.simps)
      (simp add: always_def clock_def query_def example_wifi_def tick_def worker_step_def)
  then have "pollI always (clock example_wifi) (worker_step example_wifi k expected) ?d ?q =
      Some (Inr (Some True), p\<lparr>wp_world := (fst (wp_world p) + 3, ms)\<rparr>)" by (simp add: pollI_def)
  moreover have "clock example_wifi p = (fst (wp_world p) + 1, ?q)"
    using ms by (simp add: clock_def query_def example_wifi_def tick_def)
  ultimately show ?thesis by (simp add: wait_for_worker_def bindI_def askI_def returnI_def ms)
qed

lemma example_operations:
  "start_graph_worker example_wifi k profile p = Some (Inr (), say [Open_pipe k, Started k profile, Close_child k] p)"
  "send example_wifi k m p = (Inr (), say [Send k m] p)"
  "terminate_worker example_wifi k p = say [Alive k True, Kill k, Join k 5000000] p"
  "hold_phase example_wifi phase duration p =
     Some (Inr (), say [Out (''ROS2_ZEPHYR_PEER_GRAPH_PHASE direction=inbound phase='' @ phase), Sleep duration] p)"
  by (simp_all add: start_graph_worker_def send_def terminate_worker_def is_alive_def hold_phase_def bindI_def tryI_def doI_def
      query_def act_def say_def example_wifi_def)

definition example_messages :: "string list" where
  "example_messages = [''ready'', ''ready'', ''visible'', ''reduced'', ''ready'', ''visible'']"

lemma example_inbound: "\<exists>p'. run_graph_inbound example_wifi 9 (wifi_start (0, example_messages)) = Some (Inr 0, p')"
  by (simp add: run_graph_inbound_def inbound_phases_def inbound_reduce_def inbound_restart_def start_restarted_def wait_both_def
      bindI_def tryI_def doI_def returnI_def finallyI_def example_operations example_answer wifi_start_def example_messages_def
      inbound_cleanup_def Let_def)

lemma example_started:
  "\<exists>s. worker_start example_wifi 9 (worker_create example_wifi ''initial'' (0, [''reduce''])) = Some (Inr (), s) \<and>
     wk_publishers s = [GRAPH_REMOTE_A, GRAPH_REMOTE_A] \<and> wp_world (wk_peer s) = (1, [''reduce'']) \<and> wk_deadline s = 10 \<and>
     \<not> wp_receiving (wk_peer s) \<and> \<not> wk_reported s"
  by (simp add: worker_start_def worker_create_def worker_profile_def create_graph_node_def worker_send_def send_def tryI_def bindI_def
      askI_def doI_def
      on_peer_def peer_do_def clock_def query_def wifi_start_def act_def say_def example_wifi_def tick_def)

lemma example_worker:
  "\<exists>s. worker_reaches example_wifi ''initial'' 9 (0, [''reduce'']) s \<and> wk_publishers s = [GRAPH_REMOTE_A]"
proof -
  from example_started obtain s0 where s0: "worker_start example_wifi 9 (worker_create example_wifi ''initial'' (0, [''reduce''])) = Some (Inr (), s0)"
    "wk_publishers s0 = [GRAPH_REMOTE_A, GRAPH_REMOTE_A]" "wp_world (wk_peer s0) = (1, [''reduce''])" "wk_deadline s0 = 10"
    "\<not> wp_receiving (wk_peer s0)" "\<not> wk_reported s0" by blast
  have "\<exists>s. worker_round example_wifi s0 = Some (Inr False, s) \<and> wk_publishers s = [GRAPH_REMOTE_A]"
    using s0(2-)
    by (simp add: worker_round_def worker_visibility_def worker_command_def worker_reduce_def bindI_def doI_def askI_def tryI_def
        returnI_def on_peer_def peer_do_def wifi_spin_def device_node_visible_def clock_def query_def example_wifi_def tick_def
        worker_send_def send_def)
  then obtain s where "worker_round example_wifi s0 = Some (Inr False, s)" "wk_publishers s = [GRAPH_REMOTE_A]" by blast
  with worker_reaches.round [OF worker_reaches.started [OF s0(1)]] show ?thesis by blast
qed

section \<open>Properties\<close>

text \<open>A pipe that has ended says that there is something to read, and then raises.\<close>

definition pipe_ended :: "'w wifi_env \<Rightarrow> nat \<Rightarrow> ('w \<Rightarrow> bool) \<Rightarrow> bool" where
  "pipe_ended env k ended \<longleftrightarrow>
     (\<forall>d w. ended w \<longrightarrow> fst (wv_poll env k d w) \<and> ended (snd (wv_poll env k d w))) \<and>
     (\<forall>w. ended w \<longrightarrow> fst (wv_recv env k w) = Inl EOFError) \<and> (\<forall>w. ended w \<longrightarrow> ended (snd (wv_clock env w)))"

text \<open>
  Property C9. What the inbound role leaves behind, however it ends. When both first workers have started,
  then, with a status or with an exception, every worker that was started is found dead or is killed and
  joined, in the order in which they were started, and then every pipe of a started worker is closed; nothing
  else follows. The two first starts are outside of the \<open>try\<close>: when the first raises there is no worker, but
  when the second raises the first worker is left running and its pipe open.
\<close>

theorem inbound_cleans_up:
  assumes "run_graph_inbound env timeout (wifi_start w) = Some (r, p)"
  shows "(\<exists>t s0 s1 s2. wp_trace p = both_started @ t @ s0 @ s1 @ s2 @
        [Close 0, Close 1] @ (if Started 2 ''restart'' \<in> set t then [Close 2] else []) \<and>
      stopped 0 s0 \<and> stopped 1 s1 \<and> (if Started 2 ''restart'' \<in> set t then stopped 2 s2 else s2 = [])) \<or>
    (\<exists>e. r = Inl e \<and> (wp_trace p = [] \<or> wp_trace p = [Open_pipe 0])) \<or>
    (\<exists>e. r = Inl e \<and> (wp_trace p = first_started \<or> wp_trace p = first_started @ [Open_pipe 1]))"
proof -
  have "wp_trace (wifi_start w) = []" by (simp add: wifi_start_def)
  with assms show ?thesis
  proof (rule inbound_run)
    fix q0 q
    assume run: "inbound_phases env timeout q0 = Some (r, q)" and p: "p = inbound_cleanup env q" and "\<not> wp_restarted q0"
      and q0: "wp_trace q0 = both_started"
    with keepsD [OF keeps_inbound run] obtain t where t: "wp_trace q = wp_trace q0 @ t"
      "wp_restarted q \<longleftrightarrow> Started 2 ''restart'' \<in> set t" unfolding tracked_def by blast
    obtain s0 s1 s2 where s: "stopped 0 s0" "stopped 1 s1"
      "wp_trace p = wp_trace q @ s0 @ s1 @ s2 @ [Close 0, Close 1] @ (if wp_restarted q then [Close 2] else [])"
      "if wp_restarted q then stopped 2 s2 else s2 = []"
      unfolding p by (rule inbound_cleanup_trace)
    show ?thesis
      by (rule disjI1, rule exI [of _ t], rule exI [of _ s0], rule exI [of _ s1], rule exI [of _ s2]) (use s t q0 in simp)
  qed auto
qed

text \<open>In the example world, and where its second worker cannot be started.\<close>

theorem inbound_cleans_up_witness:
  "(\<exists>p t s0 s1 s2. run_graph_inbound example_wifi 9 (wifi_start (0, example_messages)) = Some (Inr 0, p) \<and>
     wp_trace p = both_started @ t @ s0 @ s1 @ s2 @
      [Close 0, Close 1] @ (if Started 2 ''restart'' \<in> set t then [Close 2] else []) \<and> stopped 0 s0 \<and> stopped 1 s1) \<and>
   (\<exists>p. run_graph_inbound (example_wifi\<lparr>wv_start := (\<lambda>k s w. (if k = 1 then Inl (OSError []) else Inr (), w))\<rparr>) 9 (wifi_start (0, [])) =
       Some (Inl (OSError []), p) \<and> wp_trace p = first_started @ [Open_pipe 1])"
proof
  obtain p where "run_graph_inbound example_wifi 9 (wifi_start (0, example_messages)) = Some (Inr 0, p)"
    using example_inbound by blast
  with inbound_cleans_up [OF this] show "\<exists>p t s0 s1 s2. run_graph_inbound example_wifi 9 (wifi_start (0, example_messages)) = Some (Inr 0, p) \<and>
     wp_trace p = both_started @ t @ s0 @ s1 @ s2 @
      [Close 0, Close 1] @ (if Started 2 ''restart'' \<in> set t then [Close 2] else []) \<and> stopped 0 s0 \<and> stopped 1 s1" by blast
next
  let ?env = "example_wifi\<lparr>wv_start := (\<lambda>k s w. (if k = 1 then Inl (OSError []) else Inr (), w))\<rparr>"
  have "\<exists>p. run_graph_inbound ?env 9 (wifi_start (0, [])) = Some (Inl (OSError []), p) \<and> length (wp_trace p) = 4"
    by (simp add: run_graph_inbound_def start_graph_worker_def bindI_def tryI_def doI_def query_def act_def say_def
        example_wifi_def wifi_start_def)
  then obtain p where p: "run_graph_inbound ?env 9 (wifi_start (0, [])) = Some (Inl (OSError []), p)" "length (wp_trace p) = 4"
    by blast
  from inbound_cleans_up [OF p(1)] p show "\<exists>p. run_graph_inbound ?env 9 (wifi_start (0, [])) = Some (Inl (OSError []), p) \<and>
      wp_trace p = first_started @ [Open_pipe 1]" by (auto simp: both_started_def first_started_def)
qed

text \<open>
  Property C34. What a worker of the inbound role tells its parent, in every state its rounds reach and when it
  returns: first \<open>ready\<close>, then at most one report on the visibility of the device, and one \<open>reduced\<close> for
  every publisher it has destroyed, the first of which also destroys all its subscriptions. When it returns, the
  last things it has done are to destroy its node and to shut down.
\<close>

theorem worker_keeps_protocol:
  shows "(\<forall>s. worker_reaches env profile timeout w s \<longrightarrow> worker_protocol profile s) \<and>
    (\<forall>s. graph_inbound_worker env profile timeout w = Some (Inr (), s) \<longrightarrow>
       worker_protocol profile s \<and> (\<exists>t. wp_trace (wk_peer s) = t @ [Destroy_node, Rcl_shutdown]))"
proof (intro conjI allI impI)
  show "worker_protocol profile s" if "worker_reaches env profile timeout w s" for s
    using worker_reaches_inv [OF that] by (simp add: worker_inv_def)
next
  fix s
  assume "graph_inbound_worker env profile timeout w = Some (Inr (), s)"
  then obtain s0 s1 where start: "worker_start env timeout (worker_create env profile w) = Some (Inr (), s0)"
    and loop: "worker_loop env s0 = Some (Inr (), s1)"
    and s: "s = peer_do (\<lambda>p. act env Rcl_shutdown (act env Destroy_node p)) s1"
    by (auto simp: graph_inbound_worker_def io_simps)
  from worker_loop_last [OF loop worker_reaches.started [OF start]]
  obtain q where q: "worker_reaches env profile timeout w q" "worker_round env q = Some (Inr True, s1)" by blast
  have "worker_protocol profile s1"
    using worker_inv_round [OF worker_reaches_inv [OF q(1)] q(2)] by (simp add: worker_inv_def)
  then show "worker_protocol profile s"
    by (cases "worker_profile profile") (simp add: s worker_protocol_def peer_do_def Let_def del: of_bool_eq_0_iff)
  show "\<exists>t. wp_trace (wk_peer s) = t @ [Destroy_node, Rcl_shutdown]" by (simp add: s peer_do_def)
qed

theorem worker_keeps_protocol_witness:
  "\<exists>s. worker_reaches example_wifi ''initial'' 9 (0, [''reduce'']) s \<and> wk_publishers s = [GRAPH_REMOTE_A] \<and>
     worker_protocol ''initial'' s"
proof -
  from example_worker obtain s where "worker_reaches example_wifi ''initial'' 9 (0, [''reduce'']) s" "wk_publishers s = [GRAPH_REMOTE_A]"
    by blast
  with worker_keeps_protocol [of example_wifi "''initial''" 9 "(0, [''reduce''])"] show ?thesis by blast
qed

text \<open>
  Property C36. A worker that is gone, with nothing left in its pipe, is not reported as a failed wait: the pipe
  looks readable and reading from it raises \<open>EOFError\<close>, before the test whether the process is alive. A pipe
  that has ended says that there is something to read and then raises, as the documentation of \<open>multiprocessing\<close> has it.
\<close>

theorem dead_worker_raises:
  assumes "pipe_ended env k ended" and "ended (wp_world p)"
  shows "\<exists>p'. wait_for_worker env k expected timeout p =
    Some (if fst (clock env (snd (clock env p))) < fst (clock env p) + timeout then Inl EOFError else Inr False, p') \<and>
    wp_trace p' = wp_trace p"
proof -
  obtain t p1 where c: "clock env p = (t, p1)" by (cases "clock env p")
  obtain t1 p2 where c1: "clock env p1 = (t1, p2)" by (cases "clock env p1")
  have "p1 = snd (clock env p)" "p2 = snd (clock env p1)" using c c1 by simp_all
  then have p: "ended (wp_world p1)" "ended (wp_world p2)" "wp_trace p1 = wp_trace p" "wp_trace p2 = wp_trace p"
    using assms by (simp_all add: pipe_ended_def clock_def)
  obtain ready p3 where r: "query (wv_poll env k 100000) p2 = (ready, p3)" by (cases "query (wv_poll env k 100000) p2")
  then have "ready = fst (query (wv_poll env k 100000) p2)" "p3 = snd (query (wv_poll env k 100000) p2)" by simp_all
  then have p3: "ready" "ended (wp_world p3)" "wp_trace p3 = wp_trace p" using p assms(1) by (simp_all add: pipe_ended_def)
  obtain x p4 where x: "query (wv_recv env k) p3 = (x, p4)" by (cases "query (wv_recv env k) p3")
  then have "x = fst (query (wv_recv env k) p3)" "p4 = snd (query (wv_recv env k) p3)" by simp_all
  then have p4: "x = Inl EOFError" "wp_trace p4 = wp_trace p" using p3 assms(1) by (simp_all add: pipe_ended_def)
  have "worker_step env k expected p2 = (Some (Inl EOFError), p4)" using r p3 x p4 by (simp add: worker_step_def)
  then have "poll always (clock env) (worker_step env k expected) (t + timeout) p1 =
      Some (if t1 < t + timeout then (Some (Inl EOFError), p4) else (None, p2))"
    by (subst poll.simps) (simp add: always_def c1)
  then show ?thesis
    using c c1 p p4 by (auto simp: wait_for_worker_def bindI_def askI_def returnI_def pollI_def)
qed

theorem dead_worker_raises_witness:
  "\<exists>p'. wait_for_worker example_wifi 0 ''ready'' 90000000 (wifi_start (0, [])) = Some (Inl EOFError, p')"
proof -
  have "pipe_ended example_wifi 0 (\<lambda>w. snd w = [])" by (simp add: pipe_ended_def example_wifi_def tick_def)
  from dead_worker_raises [OF this, of "wifi_start (0, [])" "''ready''" 90000000] show ?thesis
    by (auto simp: wifi_start_def clock_def query_def example_wifi_def tick_def)
qed


end
