(* ===== verification/Wifi_Main.thy ===== *)
theory Wifi_Main
  imports Wifi_Graph
begin

text \<open>
  \<open>main\<close> of \<open>src/samples/wifi/peer.py\<close>: the checks of the arguments, the choice of the role, and the node
  that every role but the inbound one has; with the properties of the roles as the command runs them.
\<close>

section \<open>The command\<close>

definition usage_error :: "wifi_args \<Rightarrow> string option" where
  "usage_error a =
     (if wa_depth a \<le> 0 then Some ''--depth must be a positive integer''
      else if wa_cycles a \<le> 0 then Some ''--cycles must be a positive integer''
      else if wa_cycles a \<noteq> 1 \<and> wa_role a \<noteq> ''graph-outbound'' then Some ''--cycles is only valid for graph-outbound''
      else None)"

fun outbound_cycles :: "'w wifi_env \<Rightarrow> int \<Rightarrow> int list \<Rightarrow> ('w wifi_peer, int) io" where
  "outbound_cycles env timeout [] = returnI 0"
| "outbound_cycles env timeout (cycle # cycles) =
     bindI (run_graph_outbound env timeout cycle) (\<lambda>code.
     if code \<noteq> 0 then returnI 1 else outbound_cycles env timeout cycles)"

definition run_role :: "'w wifi_env \<Rightarrow> wifi_args \<Rightarrow> ('w wifi_peer, int) io" where
  "run_role env a =
     (if wa_role a = ''pub'' then run_publisher env a
      else if wa_role a = ''sub'' then run_subscriber env a
      else outbound_cycles env (wa_timeout a) [1..wa_cycles a])"

definition peer_node_name :: "string \<Rightarrow> string" where
  "peer_node_name role = ''ros2_zephyr_wifi_peer_'' @ map (\<lambda>c. if c = CHR ''-'' then CHR ''_'' else c) role"

definition with_node :: "'w wifi_env \<Rightarrow> string \<Rightarrow> ('w wifi_peer, int) io \<Rightarrow> ('w wifi_peer, int) io" where
  "with_node env name role =
     bindI (doI (\<lambda>p. act env (Create_node name None) (act env Rcl_init p))) (\<lambda>_.
     finallyI role (\<lambda>p. act env Rcl_shutdown (act env Destroy_node p)))"

definition wifi_main :: "'w wifi_env \<Rightarrow> wifi_args \<Rightarrow> 'w \<Rightarrow> (int res \<times> 'w wifi_peer) option" where
  "wifi_main env a w =
     (case usage_error a of
        Some message \<Rightarrow> Some (Inr 2, say [Usage_error message] (wifi_start w))
      | None \<Rightarrow>
          (if wa_role a = ''graph-inbound'' then run_graph_inbound env (wa_timeout a)
           else with_node env (peer_node_name (wa_role a)) (run_role env a)) (wifi_start w))"

section \<open>The node around a role\<close>

lemma with_node_Some:
  "with_node env name role (wifi_start w) = Some (r, p) \<longleftrightarrow>
     (\<exists>q. role (act env (Create_node name None) (act env Rcl_init (wifi_start w))) = Some (r, q) \<and>
       p = act env Rcl_shutdown (act env Destroy_node q))"
  by (auto simp: with_node_def io_simps)

lemma node_start:
  "wp_trace (act env (Create_node name None) (act env Rcl_init (wifi_start w))) = [Rcl_init, Create_node name None]"
  "\<not> wp_receiving (act env (Create_node name None) (act env Rcl_init (wifi_start w)))"
  by (simp_all add: wifi_start_def)

lemma returns_run_role:
  assumes "wifi_time now env"
  shows "returns (run_role env a)"
proof -
  have "returns (outbound_cycles env timeout cycles)" for timeout cycles
    by (induction cycles) (auto intro!: returns returns_run_graph_outbound [OF assms])
  then show ?thesis
    unfolding run_role_def by (intro returns returns_run_publisher [OF assms] returns_run_subscriber [OF assms])
qed

lemma main_role:
  assumes "usage_error a = None" "wa_role a \<noteq> ''graph-inbound''" and "wifi_main env a w = Some (r, p)"
  obtains q where "run_role env a (act env (Create_node (peer_node_name (wa_role a)) None) (act env Rcl_init (wifi_start w))) = Some (r, q)"
    "p = act env Rcl_shutdown (act env Destroy_node q)"
  using assms by (auto simp: wifi_main_def with_node_Some)

lemma recovering_none:
  "recovering a vs p \<Longrightarrow> wa_durability a \<noteq> ''volatile'' \<or> wa_reliability a \<noteq> ''best_effort'' \<or> wa_skip_match a \<Longrightarrow>
     wp_recovery p = 0"
  unfolding recovering_def by linarith

section \<open>Examples\<close>

definition example_args :: "string \<Rightarrow> wifi_args" where
  "example_args role = \<lparr>wa_role = role, wa_timeout = 90000000, wa_reliability = ''best_effort'', wa_durability = ''volatile'',
     wa_depth = 32, wa_cycles = 1, wa_skip_match = True\<rparr>"

lemma example_args_valid: "usage_error (example_args role) = None"
  by (simp add: usage_error_def example_args_def)

text \<open>Without a match to wait for, the publisher ends with 0.\<close>

lemma skip_match_passes:
  assumes "wa_skip_match a" "\<not> transient a" and "run_publisher env a p = Some (r, p')"
  shows "r = Inr 0"
  using assms
  by (auto simp: run_publisher_def publish_all_def match_subscriber_def publish_samples_def complete_publisher_def io_simps
      dest: spin_for_no_raise rates_published)

text \<open>A device that delivers all samples at once.\<close>

definition example_device :: "(int \<times> string list) wifi_env" where
  "example_device = example_wifi\<lparr>wv_spin := (\<lambda>d w. (replicate EXPECTED_SAMPLES DEVICE_TO_DESKTOP_VALUE, tick w))\<rparr>"

lemma example_device_time: "wifi_time fst example_device"
  using example_wifi_time(1) by (simp add: wifi_time_def example_device_def example_wifi_def tick_def)

lemma receives_values: "received_values (wp_trace (fold (receive env) msgs p)) = received_values (wp_trace p) @ msgs"
proof (induction msgs arbitrary: p)
  case (Cons v msgs)
  from receive_trace(1) obtain t s where "wp_trace (receive env v p) = wp_trace p @ [Received v t, Out s]" by blast
  with Cons.IH [of "receive env v p"] show ?case by simp
qed simp

lemma received_length: "length (received_at t) = length (received_values t)"
  by (induction t rule: received_at.induct) simp_all

lemma example_collected:
  assumes "received_values (wp_trace p) = []" and "collect example_device (example_args ''sub'') p = Some (r, p')"
  shows "r = Inr 0"
proof -
  let ?env = "example_device" and ?a = "example_args ''sub''"
  define q where "q = (act ?env (Create_subscription DEVICE_TOPIC (args_qos ?a)) p)\<lparr>wp_receiving := True\<rparr>"
  have expected: "expected_values ?a = replicate EXPECTED_SAMPLES DEVICE_TO_DESKTOP_VALUE"
    by (simp add: expected_values_def transient_def example_args_def)
  have clock: "clock ?env q = (fst (wp_world q) + 1, q\<lparr>wp_world := tick (wp_world q)\<rparr>)" for q
    by (simp add: clock_def query_def example_device_def example_wifi_def)
  have more: "received_values (wp_trace q) = []" "wp_receiving q" using assms(1) by (simp_all add: q_def)
  define s where "s = wifi_spin ?env 100000 (q\<lparr>wp_world := tick (tick (wp_world q))\<rparr>)"
  have "query (wv_spin ?env 100000) p = (replicate EXPECTED_SAMPLES DEVICE_TO_DESKTOP_VALUE, p\<lparr>wp_world := tick (wp_world p)\<rparr>)" for p
    by (simp add: query_def example_device_def example_wifi_def)
  then have "s = fold (receive ?env) (expected_values ?a) (q\<lparr>wp_world := tick (tick (tick (wp_world q)))\<rparr>)"
    using more(2) unfolding s_def wifi_spin_def expected by simp
  then have s: "received_values (wp_trace s) = expected_values ?a" using more(1) by (simp only: receives_values) simp
  have "poll (needs_more ?a) (clock ?env) (idle_step ?env 100000) (fst (wp_world q) + 1 + wa_timeout ?a) (q\<lparr>wp_world := tick (wp_world q)\<rparr>) = Some (None, s)"
  proof -
    have "needs_more ?a s = (False, s)" using s by (simp add: needs_more_def received_length)
    then have 2: "poll (needs_more ?a) (clock ?env) (idle_step ?env 100000) d s = Some (None, s)" for d
      by (subst poll.simps) simp
    have "needs_more ?a (q\<lparr>wp_world := tick (wp_world q)\<rparr>) = (True, q\<lparr>wp_world := tick (wp_world q)\<rparr>)"
      using more by (simp add: needs_more_def received_length expected EXPECTED_SAMPLES_def)
    moreover have "idle_step ?env 100000 (q\<lparr>wp_world := tick (tick (wp_world q))\<rparr>) = (None, s)"
      by (simp add: idle_step_def s_def)
    moreover have "wa_timeout ?a = 90000000" by (simp add: example_args_def)
    ultimately show ?thesis by (subst poll.simps) (simp add: clock 2 tick_def)
  qed
  with assms(2) s show ?thesis
    by (auto simp: collect_def io_simps pollI_def clock subscriber_verdict_def Let_def simp flip: q_def)
qed

lemma example_received:
  assumes "wifi_main example_device (example_args ''sub'') w = Some (r, p)"
  shows "r = Inr 0"
proof -
  have role: "wa_role (example_args ''sub'') = ''sub''" and not: "\<not> transient (example_args ''sub'')"
    by (simp_all add: example_args_def transient_def)
  from main_role [OF example_args_valid _ assms] obtain q where q: "run_role example_device (example_args ''sub'')
      (act example_device (Create_node (peer_node_name ''sub'') None) (act example_device Rcl_init (wifi_start w))) = Some (r, q)"
    unfolding role by auto
  from q have "collect example_device (example_args ''sub'')
      (act example_device (Create_node (peer_node_name ''sub'') None) (act example_device Rcl_init (wifi_start w))) = Some (r, q)"
    by (simp add: run_role_def role run_subscriber_def not bindI_def returnI_def)
  then show ?thesis by (rule example_collected [rotated]) (simp add: wifi_start_def)
qed

lemma example_published:
  assumes "wifi_main env (example_args ''pub'') w = Some (r, p)"
  shows "r = Inr 0"
proof -
  have role: "wa_role (example_args ''pub'') = ''pub''" and "\<not> transient (example_args ''pub'')" "wa_skip_match (example_args ''pub'')"
    by (simp_all add: example_args_def transient_def)
  moreover from main_role [OF example_args_valid _ assms] obtain q where "run_publisher env (example_args ''pub'')
      (act env (Create_node (peer_node_name ''pub'') None) (act env Rcl_init (wifi_start w))) = Some (r, q)"
    unfolding role run_role_def by auto
  ultimately show ?thesis by (blast intro: skip_match_passes)
qed

lemma example_returns:
  assumes "wifi_time now env" "role \<noteq> ''graph-inbound''"
  shows "\<exists>r p. wifi_main env (example_args role) w = Some (r, p)"
proof -
  have "returns (with_node env name (run_role env (example_args role)))" for name
    unfolding with_node_def by (intro returns returns_run_role [OF assms(1)])
  from returnsD [OF this] assms(2) show ?thesis by (simp add: wifi_main_def example_args_valid) (simp add: example_args_def)
qed

section \<open>Properties\<close>

text \<open>
  Property C32. When the publisher exits with 0, it has published its whole schedule, the values 1 to 6 on a
  transient-local endpoint and otherwise 18 samples of the agreed value, and after that only the recovery
  samples that it reports: at most ten, and none unless the endpoint is volatile and best effort and the
  subscriber was matched.
\<close>

theorem publisher_sends_schedule:
  assumes "usage_error a = None" "wa_role a = ''pub''" and "wifi_main env a w = Some (r, p)"
  shows "r = Inr 1 \<or> r = Inr 0 \<and>
    published (wp_trace p) = scheduled_values a @ replicate (nat (wp_recovery p)) DESKTOP_TO_DEVICE_VALUE \<and>
    0 \<le> wp_recovery p \<and> wp_recovery p \<le> MAX_RECOVERY_SAMPLES \<and>
    (wa_durability a \<noteq> ''volatile'' \<or> wa_reliability a \<noteq> ''best_effort'' \<or> wa_skip_match a \<longrightarrow> wp_recovery p = 0) \<and>
    Out (''ROS2_ZEPHYR_PEER_PASS role=pub reliability='' @ wa_reliability a @ '' durability='' @ wa_durability a @
      '' depth='' @ show_int (wa_depth a) @ '' scheduled='' @ show_int (int (length (scheduled_values a))) @
      '' recovery='' @ show_int (wp_recovery p)) \<in> set (wp_trace p)"
proof -
  have "wa_role a \<noteq> ''graph-inbound''" using assms(2) by simp
  from main_role [OF assms(1) this assms(3)] obtain q where
    q: "run_publisher env a (act env (Create_node (peer_node_name (wa_role a)) None) (act env Rcl_init (wifi_start w))) = Some (r, q)"
    and p: "p = act env Rcl_shutdown (act env Destroy_node q)" using assms(2) by (auto simp: run_role_def)
  show ?thesis
  proof (rule run_publisher_sends [OF q])
    fix q0
    assume r: "r = Inr 0" and rec: "recovering a (scheduled_values a) q0"
      and q0: "q = publisher_verdict a (int (length (scheduled_values a))) True q0"
    have fields: "wp_recovery p = wp_recovery q0" "published (wp_trace p) = published (wp_trace q0)"
      by (simp_all add: p q0 publisher_verdict_def)
    have "Out (''ROS2_ZEPHYR_PEER_PASS role=pub reliability='' @ wa_reliability a @ '' durability='' @ wa_durability a @
      '' depth='' @ show_int (wa_depth a) @ '' scheduled='' @ show_int (int (length (scheduled_values a))) @
      '' recovery='' @ show_int (wp_recovery q0)) \<in> set (wp_trace p)"
      by (simp add: p q0 publisher_verdict_def)
    with r rec recovering_none [OF rec] show ?thesis unfolding fields recovering_def by blast
  qed (simp_all add: wifi_start_def)
qed

theorem publisher_sends_schedule_witness:
  "\<exists>p. wifi_main example_wifi (example_args ''pub'') (0, []) = Some (Inr 0, p) \<and>
     published (wp_trace p) = scheduled_values (example_args ''pub'') @ replicate (nat (wp_recovery p)) DESKTOP_TO_DEVICE_VALUE"
proof -
  have role: "wa_role (example_args ''pub'') = ''pub''" by (simp add: example_args_def)
  from example_returns [OF example_wifi_time(1), of "''pub''" "(0, [])"] obtain r p where
    p: "wifi_main example_wifi (example_args ''pub'') (0, []) = Some (r, p)" by auto
  from publisher_sends_schedule [OF example_args_valid role p] example_published [OF p] p show ?thesis by auto
qed

text \<open>
  Property C33. The subscriber exits with 0 exactly when the values that its callback received are the
  expected ones, in order: 18 samples of the agreed value, or on a transient-local endpoint the retained end
  of the history and the live value. It never raises.
\<close>

theorem subscriber_exact:
  assumes "usage_error a = None" "wa_role a = ''sub''" and "wifi_main env a w = Some (r, p)"
  shows "r = Inr (if received_values (wp_trace p) = expected_values a then 0 else 1)"
proof -
  have "wa_role a \<noteq> ''graph-inbound''" using assms(2) by simp
  from main_role [OF assms(1) this assms(3)] obtain q where
    q: "run_subscriber env a (act env (Create_node (peer_node_name (wa_role a)) None) (act env Rcl_init (wifi_start w))) = Some (r, q)"
    and p: "p = act env Rcl_shutdown (act env Destroy_node q)" using assms(2) by (auto simp: run_role_def)
  have "0 < wa_depth a" using assms(1) by (simp add: usage_error_def split: if_splits)
  note nonempty = expected_values_nonempty [OF this]
  have last: "received_values [e, Destroy_node, Rcl_shutdown] = received_values [e]" for e by (cases e) simp_all
  from q show ?thesis
    by (rule run_subscriber_result) (use nonempty in \<open>auto simp: node_start p wifi_start_def last\<close>)
qed

theorem subscriber_exact_witness:
  "\<exists>p. wifi_main example_device (example_args ''sub'') (0, []) = Some (Inr 0, p) \<and>
     received_values (wp_trace p) = expected_values (example_args ''sub'')"
proof -
  have "wa_role (example_args ''sub'') = ''sub''" by (simp add: example_args_def)
  moreover from example_returns [OF example_device_time, of "''sub''" "(0, [])"] obtain r p where
    p: "wifi_main example_device (example_args ''sub'') (0, []) = Some (r, p)" by auto
  ultimately have "r = Inr (if received_values (wp_trace p) = expected_values (example_args ''sub'') then 0 else 1)"
    by (intro subscriber_exact [OF example_args_valid])
  with example_received [OF p] p show ?thesis by (auto split: if_splits)
qed

text \<open>
  Property C35. The command returns whatever its role and whatever its peers do, when no operation turns the
  clock back and spinning and looking at a pipe take time; and a role with a node has destroyed it and
  shut the client library down as the last thing, also when the role raised.
\<close>

theorem wifi_main_returns:
  assumes "wifi_time now env" "process_time now env"
  shows "\<exists>r p. wifi_main env a w = Some (r, p) \<and>
    (usage_error a = None \<and> wa_role a \<noteq> ''graph-inbound'' \<longrightarrow> (\<exists>t. wp_trace p = t @ [Destroy_node, Rcl_shutdown]))"
proof -
  have "returns (with_node env name (run_role env a))" for name
    unfolding with_node_def by (intro returns returns_run_role [OF assms(1)])
  note returned = returnsD [OF this] returnsD [OF returns_run_graph_inbound [OF assms]]
  have "\<exists>r p. wifi_main env a w = Some (r, p)"
    unfolding wifi_main_def using returned by (cases "usage_error a") simp_all
  then obtain r p where m: "wifi_main env a w = Some (r, p)" by blast
  moreover have "\<exists>t. wp_trace p = t @ [Destroy_node, Rcl_shutdown]" if "usage_error a = None" "wa_role a \<noteq> ''graph-inbound''"
    using that m by (rule main_role) simp
  ultimately show ?thesis by (intro exI [of _ r] exI [of _ p]) simp
qed

theorem wifi_main_returns_witness:
  "\<exists>r p t. wifi_main example_wifi (example_args ''graph-outbound'') (0, []) = Some (r, p) \<and>
     wp_trace p = t @ [Destroy_node, Rcl_shutdown]"
  using wifi_main_returns [OF example_wifi_time, of "example_args ''graph-outbound''" "(0, [])"] example_args_valid [of "''graph-outbound''"]
  by (auto simp: example_args_def)

end
