(* ===== verification/Binary32.thy ===== *)
theory Binary32
  imports Complex_Main "HOL-Library.Log_Nat"
begin

text \<open>
  The \<open>float\<close> of C on the targets, IEEE 754 binary32 with rounding to nearest, ties to even: a finite value is its
  rational number. The two zeros are one value here; the only operation that tells them apart is a division by zero,
  and the sources divide by constants only. The lemmas bound the error of a rounding.
\<close>

section \<open>Rounding\<close>

text \<open>The nearest integer, ties to even.\<close>

definition nearest :: "rat \<Rightarrow> int" where
  "nearest y = (let f = \<lfloor>y\<rfloor>; d = y - of_int f in if d < 1 / 2 \<or> d = 1 / 2 \<and> even f then f else f + 1)"

text \<open>The distance of neighbours at \<open>x\<close>: 24 significant bits, and never less than \<open>2 ^ -149\<close>.\<close>

definition ulp :: "rat \<Rightarrow> rat" where
  "ulp x = 2 ^ (nat (bitlen \<lfloor>\<bar>x\<bar> * 2 ^ 149\<rfloor>) - 24) / 2 ^ 149"

definition rounded :: "rat \<Rightarrow> rat" where
  "rounded x = of_int (nearest (x / ulp x)) * ulp x"

section \<open>The operations\<close>

text \<open>\<open>Infinite True\<close> is the negative infinity.\<close>

datatype single = Finite rat | Infinite bool | NaN

definition to_single :: "rat \<Rightarrow> single" where
  "to_single x = (let r = rounded x in if 2 ^ 128 \<le> \<bar>r\<bar> then Infinite (r < 0) else Finite r)"

fun single_neg :: "single \<Rightarrow> single" where
  "single_neg (Finite x) = Finite (- x)"
| "single_neg (Infinite s) = Infinite (\<not> s)"
| "single_neg NaN = NaN"

fun single_add :: "single \<Rightarrow> single \<Rightarrow> single" where
  "single_add (Finite x) (Finite y) = to_single (x + y)"
| "single_add (Infinite s) (Infinite t) = (if s = t then Infinite s else NaN)"
| "single_add (Infinite s) (Finite y) = Infinite s"
| "single_add (Finite x) (Infinite t) = Infinite t"
| "single_add NaN b = NaN"
| "single_add a NaN = NaN"

definition single_sub :: "single \<Rightarrow> single \<Rightarrow> single" where
  "single_sub a b = single_add a (single_neg b)"

fun single_mul :: "single \<Rightarrow> single \<Rightarrow> single" where
  "single_mul (Finite x) (Finite y) = to_single (x * y)"
| "single_mul (Infinite s) (Infinite t) = Infinite (s \<noteq> t)"
| "single_mul (Infinite s) (Finite y) = (if y = 0 then NaN else Infinite (s \<noteq> (y < 0)))"
| "single_mul (Finite x) (Infinite t) = (if x = 0 then NaN else Infinite ((x < 0) \<noteq> t))"
| "single_mul NaN b = NaN"
| "single_mul a NaN = NaN"

fun single_div :: "single \<Rightarrow> single \<Rightarrow> single" where
  "single_div (Finite x) (Finite y) = (if y = 0 then if x = 0 then NaN else Infinite (x < 0) else to_single (x / y))"
| "single_div (Infinite s) (Infinite t) = NaN"
| "single_div (Infinite s) (Finite y) = Infinite (s \<noteq> (y < 0))"
| "single_div (Finite x) (Infinite t) = Finite 0"
| "single_div NaN b = NaN"
| "single_div a NaN = NaN"

fun single_less :: "single \<Rightarrow> single \<Rightarrow> bool" where
  "single_less (Finite x) (Finite y) \<longleftrightarrow> x < y"
| "single_less (Infinite s) (Infinite t) \<longleftrightarrow> s \<and> \<not> t"
| "single_less (Infinite s) (Finite y) \<longleftrightarrow> s"
| "single_less (Finite x) (Infinite t) \<longleftrightarrow> \<not> t"
| "single_less NaN b \<longleftrightarrow> False"
| "single_less a NaN \<longleftrightarrow> False"

fun is_finite :: "single \<Rightarrow> bool" where
  "is_finite (Finite x) = True"
| "is_finite (Infinite s) = False"
| "is_finite NaN = False"

section \<open>The error of a rounding\<close>

lemma nearest_error: "\<bar>of_int (nearest y) - y\<bar> \<le> 1 / 2"
proof -
  have "of_int \<lfloor>y\<rfloor> \<le> y" "y < of_int \<lfloor>y\<rfloor> + 1" by linarith+
  then show ?thesis by (auto simp: nearest_def Let_def)
qed

lemma nearest_le: "y \<le> of_int n \<Longrightarrow> nearest y \<le> n"
proof -
  assume y: "y \<le> of_int n"
  show "nearest y \<le> n"
  proof (cases "y = of_int n")
    case False
    with y have "\<lfloor>y\<rfloor> < n" by (simp add: floor_less_iff)
    then show ?thesis by (simp add: nearest_def Let_def)
  qed (simp add: nearest_def)
qed

lemma nearest_ge: "of_int n \<le> y \<Longrightarrow> n \<le> nearest y"
  using le_floor_iff [of n y] by (auto simp: nearest_def Let_def)

lemma ulp_pos: "0 < ulp x"
  by (simp add: ulp_def)

lemma ulp_le: "ulp x \<le> \<bar>x\<bar> / 2 ^ 23 + 1 / 2 ^ 149"
proof (cases "nat (bitlen \<lfloor>\<bar>x\<bar> * 2 ^ 149\<rfloor>) \<le> 24")
  case True
  then have "nat (bitlen \<lfloor>\<bar>x\<bar> * 2 ^ 149\<rfloor>) - 24 = 0" by simp
  then show ?thesis by (simp add: ulp_def)
next
  case False
  define k where "k = nat (bitlen \<lfloor>\<bar>x\<bar> * 2 ^ 149\<rfloor>)"
  have "0 < \<lfloor>\<bar>x\<bar> * 2 ^ 149\<rfloor>"
  proof (rule ccontr)
    assume "\<not> ?thesis"
    moreover have "0 \<le> \<lfloor>\<bar>x\<bar> * 2 ^ 149\<rfloor>" by simp
    ultimately have "\<lfloor>\<bar>x\<bar> * 2 ^ 149\<rfloor> = 0" by (rule order_antisym [OF leI])
    with False show False by (simp only: bitlen_zero nat_zero_as_int [symmetric] nat_0 zero_le not_True_eq_False)
  qed
  from bitlen_bounds [OF this] have "(2 :: int) ^ nat (bitlen \<lfloor>\<bar>x\<bar> * 2 ^ 149\<rfloor> - 1) \<le> \<lfloor>\<bar>x\<bar> * 2 ^ 149\<rfloor>" by simp
  moreover have "nat (bitlen \<lfloor>\<bar>x\<bar> * 2 ^ 149\<rfloor> - 1) = k - 24 + 23" using False by (simp add: k_def)
  ultimately have "(2 :: rat) ^ (k - 24 + 23) \<le> \<bar>x\<bar> * 2 ^ 149" by (simp add: le_floor_iff)
  then have "2 ^ (k - 24) / 2 ^ 149 \<le> \<bar>x\<bar> / 2 ^ 23" by (simp add: power_add field_simps)
  moreover have "ulp x = 2 ^ (k - 24) / 2 ^ 149" unfolding ulp_def k_def ..
  ultimately show ?thesis by (simp add: add_increasing2)
qed

lemma rounded_error: "\<bar>rounded x - x\<bar> \<le> \<bar>x\<bar> / 2 ^ 24 + 1 / 2 ^ 150"
proof -
  have "rounded x - x = (of_int (nearest (x / ulp x)) - x / ulp x) * ulp x"
    using ulp_pos [of x] by (simp add: rounded_def algebra_simps)
  then have "\<bar>rounded x - x\<bar> \<le> 1 / 2 * ulp x"
    using mult_right_mono [OF nearest_error [of "x / ulp x"], of "ulp x"] ulp_pos [of x] by (simp add: abs_mult)
  with ulp_le [of x] show ?thesis by simp
qed

text \<open>From \<open>2 ^ 24\<close> on the neighbours are 2 apart, so that adding less than 1 adds nothing.\<close>

lemma rounded_absorbs:
  assumes "\<bar>x\<bar> < 2 ^ 24 + 1"
  shows "\<bar>rounded x\<bar> \<le> 2 ^ 24"
proof (cases "\<bar>x\<bar> < 2 ^ 24")
  case True
  define s where "s = nat (bitlen \<lfloor>\<bar>x\<bar> * 2 ^ 149\<rfloor>) - 24"
  have "bitlen \<lfloor>\<bar>x\<bar> * 2 ^ 149\<rfloor> \<le> 173"
    using True by (simp add: bitlen_le_iff_power floor_less_iff)
  then have s: "s \<le> 149" by (simp add: s_def)
  have split: "(2 :: rat) ^ 149 = 2 ^ s * 2 ^ (149 - s)" using s by (simp flip: power_add)
  have "ulp x = 2 ^ s / 2 ^ 149" unfolding ulp_def s_def ..
  then have u: "ulp x = 1 / 2 ^ (149 - s)" unfolding split by simp
  define n :: int where "n = 2 ^ 24 * 2 ^ (149 - s)"
  have y: "x / ulp x = x * 2 ^ (149 - s)" by (simp add: u)
  have "\<bar>x / ulp x\<bar> \<le> of_int n" using True by (simp add: y abs_mult n_def)
  then have "x / ulp x \<le> of_int n" "of_int (- n) \<le> x / ulp x" unfolding of_int_minus abs_le_iff by (simp_all only: minus_le_iff)
  from nearest_le [OF this(1)] nearest_ge [OF this(2)] have "\<bar>nearest (x / ulp x)\<bar> \<le> n" by (simp only: abs_le_iff minus_le_iff)
  then have "\<bar>of_int (nearest (x / ulp x)) :: rat\<bar> \<le> of_int n" by (simp only: of_int_abs [symmetric] of_int_le_iff)
  then have "\<bar>rounded x\<bar> \<le> of_int n * ulp x"
    unfolding rounded_def abs_mult using ulp_pos [of x] by (simp add: mult_right_mono)
  also have "\<dots> = 2 ^ 24" by (simp add: u n_def)
  finally show ?thesis .
next
  case False
  have "2 ^ 173 \<le> \<lfloor>\<bar>x\<bar> * 2 ^ 149\<rfloor>" "\<lfloor>\<bar>x\<bar> * 2 ^ 149\<rfloor> < 2 ^ 174"
    using False assms by (simp_all add: le_floor_iff floor_less_iff)
  then have "\<not> bitlen \<lfloor>\<bar>x\<bar> * 2 ^ 149\<rfloor> \<le> 173" "bitlen \<lfloor>\<bar>x\<bar> * 2 ^ 149\<rfloor> \<le> 174"
    unfolding bitlen_le_iff_power by simp_all
  then have "bitlen \<lfloor>\<bar>x\<bar> * 2 ^ 149\<rfloor> = 174" by linarith
  then have u: "ulp x = 2" by (simp add: ulp_def)
  have "\<bar>of_int (nearest (x / 2)) :: rat\<bar> < 2 ^ 23 + 1" using nearest_error [of "x / 2"] assms by (simp add: abs_if split: if_splits)
  then have "(of_int \<bar>nearest (x / 2)\<bar> :: rat) < of_int (2 ^ 23 + 1)" by simp
  then have "\<bar>nearest (x / 2)\<bar> \<le> 2 ^ 23" unfolding of_int_less_iff by simp
  then have "(of_int \<bar>nearest (x / 2)\<bar> :: rat) \<le> of_int (2 ^ 23)" unfolding of_int_le_iff .
  then show ?thesis by (simp add: rounded_def u abs_mult)
qed

text \<open>The result of an operation whose exact value is far from the largest finite value.\<close>

lemma to_single_finite:
  assumes "\<bar>x\<bar> \<le> 2 ^ 100"
  shows "to_single x = Finite (rounded x)"
proof -
  have "\<bar>rounded x\<bar> < 2 ^ 128" using rounded_error [of x] assms by (simp add: abs_if split: if_splits)
  then show ?thesis by (simp add: to_single_def)
qed

text \<open>Small integers are exact.\<close>

lemma to_single_small:
  "to_single 0 = Finite 0" "to_single 1 = Finite 1" "to_single (-1) = Finite (-1)"
  "to_single 4 = Finite 4" "to_single 10 = Finite 10" "to_single 1000 = Finite 1000"
  by code_simp+

end
