(* ===== verification/Control_Loop.thy ===== *)
theory Control_Loop
  imports Binary32 "HOL-Library.Word"
begin

text \<open>
  The control thread of the static control sample, \<open>src/samples/static_control/src/control.c\<close>, with the
  plant of \<open>plant.c\<close> and the command callback of \<open>main.c\<close>. The arithmetic of C \<open>float\<close> is a
  parameter, a record of operations. What the kernel tells the thread in a cycle (the number of releases
  and two readings of the uptime, in milliseconds) is the input of the cycle, so that a history of the
  system is a list of events: commands, cycles, starts and stops, in any order.
\<close>

section \<open>The plant\<close>

text \<open>\<open>fl_lit n d\<close> is the literal or constant \<open>n / d\<close>.\<close>

record 'f c_float =
  fl_lit :: "int \<Rightarrow> int \<Rightarrow> 'f"
  fl_add :: "'f \<Rightarrow> 'f \<Rightarrow> 'f"
  fl_sub :: "'f \<Rightarrow> 'f \<Rightarrow> 'f"
  fl_mul :: "'f \<Rightarrow> 'f \<Rightarrow> 'f"
  fl_div :: "'f \<Rightarrow> 'f \<Rightarrow> 'f"
  fl_less :: "'f \<Rightarrow> 'f \<Rightarrow> bool"
  fl_finite :: "'f \<Rightarrow> bool"

record 'f plant =
  pl_position :: 'f
  pl_velocity :: 'f

record 'f plant_output =
  po_position :: 'f
  po_velocity :: 'f
  po_effort :: 'f

definition PROPORTIONAL_GAIN :: int where "PROPORTIONAL_GAIN = 4"
definition DAMPING_GAIN :: int where "DAMPING_GAIN = 1"

definition clamp :: "'f c_float \<Rightarrow> 'f \<Rightarrow> 'f \<Rightarrow> 'f \<Rightarrow> 'f" where
  "clamp F v lower upper = (if fl_less F v lower then lower else if fl_less F upper v then upper else v)"

definition plant_init :: "'f c_float \<Rightarrow> 'f plant" where
  "plant_init F = \<lparr>pl_position = fl_lit F 0 1, pl_velocity = fl_lit F 0 1\<rparr>"

definition plant_step ::
  "'f c_float \<Rightarrow> 'f plant \<Rightarrow> 'f \<Rightarrow> 'f \<Rightarrow> bool \<Rightarrow> 'f plant \<times> 'f plant_output" where
  "plant_step F plant target period_seconds output_enabled =
     (let effort =
            (if output_enabled
             then clamp F (fl_sub F (fl_mul F (fl_lit F PROPORTIONAL_GAIN 1) (fl_sub F target (pl_position plant)))
                    (fl_mul F (fl_lit F DAMPING_GAIN 1) (pl_velocity plant))) (fl_lit F (-1) 1) (fl_lit F 1 1)
             else fl_lit F 0 1);
          acceleration = fl_sub F effort (fl_mul F (fl_lit F 2 10) (pl_velocity plant));
          velocity = fl_add F (pl_velocity plant) (fl_mul F acceleration period_seconds);
          position = fl_add F (pl_position plant) (fl_mul F velocity period_seconds)
      in (\<lparr>pl_position = position, pl_velocity = velocity\<rparr>,
          \<lparr>po_position = position, po_velocity = velocity, po_effort = effort\<rparr>))"

section \<open>The control thread\<close>

definition CONTROL_PERIOD_MS :: int where "CONTROL_PERIOD_MS = 10"
definition CONTROL_DEADLINE_MS :: int where "CONTROL_DEADLINE_MS = 10"
definition COMMAND_EXPIRY_MS :: int where "COMMAND_EXPIRY_MS = 250"

definition CONTROL_DISABLED :: "8 word" where "CONTROL_DISABLED = 0"
definition CONTROL_ACTIVE :: "8 word" where "CONTROL_ACTIVE = 1"
definition CONTROL_STALE :: "8 word" where "CONTROL_STALE = 2"
definition CONTROL_FAULT :: "8 word" where "CONTROL_FAULT = 3"

record 'f control_command =
  co_target :: 'f
  co_sequence :: "32 word"

record 'f command_snapshot =
  sn_value :: "'f control_command"
  sn_receipt_ms :: int
  sn_valid :: bool

record 'f loop_state =
  ls_position :: 'f
  ls_velocity :: 'f
  ls_effort :: 'f
  ls_command_sequence :: "32 word"
  ls_control_cycles :: "32 word"
  ls_skipped_releases :: "32 word"
  ls_max_release_lateness_us :: "32 word"
  ls_status :: "8 word"

definition disabled_state :: "'f c_float \<Rightarrow> 'f loop_state" where
  "disabled_state F = \<lparr>ls_position = fl_lit F 0 1, ls_velocity = fl_lit F 0 1, ls_effort = fl_lit F 0 1,
     ls_command_sequence = 0, ls_control_cycles = 0, ls_skipped_releases = 0, ls_max_release_lateness_us = 0,
     ls_status = CONTROL_DISABLED\<rparr>"

text \<open>The local variables of \<open>control_entry\<close>.\<close>

record 'f control_thread =
  ct_plant :: "'f plant"
  ct_state :: "'f loop_state"
  ct_scheduled_release_ms :: int
  ct_faulted :: bool

record cycle =
  cy_releases :: "32 word"
  cy_start_ms :: int
  cy_completion_ms :: int

definition command_fresh :: "'f command_snapshot \<Rightarrow> int \<Rightarrow> bool" where
  "command_fresh sn start_ms \<longleftrightarrow>
     sn_valid sn \<and> sn_receipt_ms sn \<le> start_ms \<and> start_ms - sn_receipt_ms sn \<le> COMMAND_EXPIRY_MS"

definition release_lateness :: "32 word \<Rightarrow> int \<Rightarrow> 32 word" where
  "release_lateness old lateness_ms = (if 0 < lateness_ms then max old (word_of_int lateness_ms * 1000) else old)"

definition cycle_status :: "bool \<Rightarrow> bool \<Rightarrow> bool \<Rightarrow> 8 word" where
  "cycle_status faulted command_valid fresh =
     (if faulted then CONTROL_FAULT else if \<not> command_valid then CONTROL_DISABLED
      else if \<not> fresh then CONTROL_STALE else CONTROL_ACTIVE)"

text \<open>One round of the loop: the faults before the step, the step, and the deadline after it.\<close>

definition control_cycle :: "'f c_float \<Rightarrow> cycle \<Rightarrow> 'f command_snapshot \<Rightarrow> 'f control_thread \<Rightarrow> 'f control_thread" where
  "control_cycle F cy sn t =
     (let s = ct_state t;
          lateness = release_lateness (ls_max_release_lateness_us s) (cy_start_ms cy - ct_scheduled_release_ms t);
          skipped = (if 1 < cy_releases cy then ls_skipped_releases s + (cy_releases cy - 1) else ls_skipped_releases s);
          scheduled = ct_scheduled_release_ms t + uint (cy_releases cy) * CONTROL_PERIOD_MS;
          fresh = command_fresh sn (cy_start_ms cy);
          faulted = (ct_faulted t \<or> 1 < cy_releases cy \<or> scheduled < cy_start_ms cy);
          (plant, output) = plant_step F (ct_plant t) (co_target (sn_value sn)) (fl_div F (fl_lit F CONTROL_PERIOD_MS 1) (fl_lit F 1000 1))
             (fresh \<and> \<not> faulted);
          late = scheduled - CONTROL_PERIOD_MS + CONTROL_DEADLINE_MS < cy_completion_ms cy;
          effort = (if late then fl_lit F 0 1 else po_effort output);
          faulted' = (faulted \<or> late)
      in \<lparr>ct_plant = plant,
          ct_state = \<lparr>ls_position = po_position output, ls_velocity = po_velocity output,
            ls_effort = (if faulted' then fl_lit F 0 1 else effort), ls_command_sequence = co_sequence (sn_value sn),
            ls_control_cycles = ls_control_cycles s + 1, ls_skipped_releases = skipped,
            ls_max_release_lateness_us = lateness, ls_status = cycle_status faulted' (sn_valid sn) fresh\<rparr>,
          ct_scheduled_release_ms = scheduled, ct_faulted = faulted'\<rparr>)"

section \<open>The component and its history\<close>

text \<open>The static variables of the file, and the thread while it runs.\<close>

record 'f controller =
  cr_command :: "'f command_snapshot"
  cr_published :: "'f loop_state"
  cr_thread :: "'f control_thread option"

definition control_entry :: "'f c_float \<Rightarrow> int \<Rightarrow> 'f control_thread" where
  "control_entry F uptime_ms = \<lparr>ct_plant = plant_init F, ct_state = disabled_state F,
     ct_scheduled_release_ms = uptime_ms + CONTROL_PERIOD_MS, ct_faulted = False\<rparr>"

definition static_control_start :: "'f c_float \<Rightarrow> int \<Rightarrow> 'f controller \<Rightarrow> bool \<times> 'f controller" where
  "static_control_start F uptime_ms c =
     (if cr_thread c \<noteq> None then (False, c)
      else (True, c\<lparr>cr_command := (cr_command c)\<lparr>sn_valid := False\<rparr>, cr_published := disabled_state F,
              cr_thread := Some (control_entry F uptime_ms)\<rparr>))"

definition static_control_stop :: "'f controller \<Rightarrow> 'f controller" where
  "static_control_stop c = c\<lparr>cr_thread := None\<rparr>"

definition acceptable :: "'f c_float \<Rightarrow> 'f control_command \<Rightarrow> int \<Rightarrow> bool" where
  "acceptable F command receipt_ms \<longleftrightarrow>
     fl_finite F (co_target command) \<and> \<not> fl_less F (co_target command) (fl_lit F (-1) 1) \<and>
     \<not> fl_less F (fl_lit F 1 1) (co_target command) \<and> 0 \<le> receipt_ms"

text \<open>A null pointer is \<open>None\<close>.\<close>

definition static_control_submit :: "'f c_float \<Rightarrow> 'f control_command option \<Rightarrow> int \<Rightarrow> 'f controller \<Rightarrow> bool \<times> 'f controller" where
  "static_control_submit F command receipt_ms c =
     (case command of
        None \<Rightarrow> (False, c)
      | Some v \<Rightarrow>
          if \<not> acceptable F v receipt_ms then (False, c)
          else (True, c\<lparr>cr_command := \<lparr>sn_value = v, sn_receipt_ms = receipt_ms, sn_valid = True\<rparr>\<rparr>))"

definition static_control_read_state :: "'f controller \<Rightarrow> 'f loop_state" where
  "static_control_read_state c = cr_published c"

definition run_cycle :: "'f c_float \<Rightarrow> cycle \<Rightarrow> 'f controller \<Rightarrow> 'f controller" where
  "run_cycle F cy c =
     (case cr_thread c of
        None \<Rightarrow> c
      | Some t \<Rightarrow>
          let t' = control_cycle F cy (cr_command c) t in c\<lparr>cr_published := ct_state t', cr_thread := Some t'\<rparr>)"

datatype 'f loop_event =
    Submit "'f control_command option" int
  | Cycle cycle
  | Start int
  | Stop

fun loop_step :: "'f c_float \<Rightarrow> 'f loop_event \<Rightarrow> 'f controller \<Rightarrow> 'f controller" where
  "loop_step F (Submit command receipt_ms) c = snd (static_control_submit F command receipt_ms c)"
| "loop_step F (Cycle cy) c = run_cycle F cy c"
| "loop_step F (Start uptime_ms) c = snd (static_control_start F uptime_ms c)"
| "loop_step F Stop c = static_control_stop c"

definition loop_run :: "'f c_float \<Rightarrow> 'f loop_event list \<Rightarrow> 'f controller \<Rightarrow> 'f controller" where
  "loop_run F es c = fold (loop_step F) es c"

section \<open>What the thread must report\<close>

text \<open>
  The specification looks at the history since the start: the last command that was accepted, the
  releases so far, and whether a cycle has missed one of its times.
\<close>

fun latest_from :: "'f c_float \<Rightarrow> ('f control_command \<times> int) option \<Rightarrow> 'f loop_event list \<Rightarrow> ('f control_command \<times> int) option" where
  "latest_from F old [] = old"
| "latest_from F old (Submit (Some v) r # es) = latest_from F (if acceptable F v r then Some (v, r) else old) es"
| "latest_from F old (_ # es) = latest_from F old es"

definition latest :: "'f c_float \<Rightarrow> 'f loop_event list \<Rightarrow> ('f control_command \<times> int) option" where
  "latest F es = latest_from F None es"

fun cycles_of :: "'f loop_event list \<Rightarrow> cycle list" where
  "cycles_of [] = []"
| "cycles_of (Cycle cy # es) = cy # cycles_of es"
| "cycles_of (_ # es) = cycles_of es"

text \<open>The release that is due after the cycles \<open>cs\<close>; a cycle has to start and to complete before it.\<close>

definition due :: "int \<Rightarrow> cycle list \<Rightarrow> int" where
  "due t0 cs = t0 + CONTROL_PERIOD_MS + CONTROL_PERIOD_MS * sum_list (map (\<lambda>cy. uint (cy_releases cy)) cs)"

definition missed_one :: "int \<Rightarrow> cycle \<Rightarrow> bool" where
  "missed_one limit cy \<longleftrightarrow> 1 < cy_releases cy \<or> limit < cy_start_ms cy \<or> limit < cy_completion_ms cy"

fun missed_from :: "int \<Rightarrow> cycle list \<Rightarrow> bool" where
  "missed_from release [] = False"
| "missed_from release (cy # cs) =
     (let next_release = release + uint (cy_releases cy) * CONTROL_PERIOD_MS
      in missed_one next_release cy \<or> missed_from next_release cs)"

definition missed :: "int \<Rightarrow> cycle list \<Rightarrow> bool" where
  "missed t0 cs = missed_from (t0 + CONTROL_PERIOD_MS) cs"

definition spec_status :: "'f c_float \<Rightarrow> int \<Rightarrow> 'f loop_event list \<Rightarrow> cycle \<Rightarrow> 8 word" where
  "spec_status F t0 es cy =
     (if missed t0 (cycles_of es @ [cy]) then CONTROL_FAULT
      else case latest F es of
             None \<Rightarrow> CONTROL_DISABLED
           | Some (v, r) \<Rightarrow>
               if r \<le> cy_start_ms cy \<and> cy_start_ms cy - r \<le> COMMAND_EXPIRY_MS then CONTROL_ACTIVE else CONTROL_STALE)"

lemma latest_snoc:
  "latest F (es @ [e]) =
     (case e of Submit (Some v) r \<Rightarrow> if acceptable F v r then Some (v, r) else latest F es | _ \<Rightarrow> latest F es)"
proof -
  have "latest_from F old (es @ [e]) =
     (case e of Submit (Some v) r \<Rightarrow> if acceptable F v r then Some (v, r) else latest_from F old es | _ \<Rightarrow> latest_from F old es)" for old
    by (induction F old es rule: latest_from.induct) (auto split: loop_event.splits option.splits)
  then show ?thesis unfolding latest_def .
qed

lemma cycles_of_append [simp]: "cycles_of (a @ b) = cycles_of a @ cycles_of b"
  by (induction a rule: cycles_of.induct) simp_all

lemma due_snoc: "due t0 (cs @ [cy]) = due t0 cs + uint (cy_releases cy) * CONTROL_PERIOD_MS"
  by (simp add: due_def algebra_simps)

lemma missed_simps: "\<not> missed t0 []" "missed t0 (cs @ [cy]) \<longleftrightarrow> missed t0 cs \<or> missed_one (due t0 (cs @ [cy])) cy"
proof -
  have "missed_from (release + CONTROL_PERIOD_MS) (cs @ [cy]) \<longleftrightarrow>
      missed_from (release + CONTROL_PERIOD_MS) cs \<or> missed_one (due release (cs @ [cy])) cy" for release
  proof (induction cs arbitrary: release)
    case (Cons d ds)
    from Cons.IH [of "release + uint (cy_releases d) * CONTROL_PERIOD_MS"] show ?case
      by (simp add: Let_def due_def algebra_simps)
  qed (simp add: Let_def due_def algebra_simps)
  then show "missed t0 (cs @ [cy]) \<longleftrightarrow> missed t0 cs \<or> missed_one (due t0 (cs @ [cy])) cy" by (simp add: missed_def)
qed (simp add: missed_def)

lemma missed_append: "missed t0 cs \<Longrightarrow> missed t0 (cs @ ds)"
  by (induction ds rule: rev_induct) (simp_all add: missed_simps flip: append_assoc)

section \<open>The thread does report it\<close>

definition tracks :: "'f c_float \<Rightarrow> int \<Rightarrow> 'f loop_event list \<Rightarrow> 'f controller \<Rightarrow> bool" where
  "tracks F t0 es c \<longleftrightarrow>
     (\<exists>t. cr_thread c = Some t \<and> cr_published c = ct_state t \<and> ct_scheduled_release_ms t = due t0 (cycles_of es) \<and>
        ct_faulted t = missed t0 (cycles_of es) \<and> ls_control_cycles (ct_state t) = of_nat (length (cycles_of es)) \<and>
        (ls_status (ct_state t) = CONTROL_FAULT \<longleftrightarrow> ct_faulted t) \<and>
        (ls_status (ct_state t) \<noteq> CONTROL_ACTIVE \<longrightarrow> ls_effort (ct_state t) = fl_lit F 0 1) \<and>
        (ls_status (ct_state t) = CONTROL_ACTIVE \<longrightarrow> latest F es \<noteq> None)) \<and>
     sn_valid (cr_command c) = (latest F es \<noteq> None) \<and>
     (\<forall>v r. latest F es = Some (v, r) \<longrightarrow> sn_value (cr_command c) = v \<and> sn_receipt_ms (cr_command c) = r)"

lemmas status_defs = CONTROL_DISABLED_def CONTROL_ACTIVE_def CONTROL_STALE_def CONTROL_FAULT_def

lemma tracks_start:
  assumes "cr_thread c = None"
  shows "tracks F t0 [] (loop_step F (Start t0) c)"
  using assms by (simp add: tracks_def static_control_start_def control_entry_def due_def missed_simps latest_def disabled_state_def status_defs)

text \<open>What a cycle leaves in the thread.\<close>

lemma control_cycle_facts:
  assumes "ct_scheduled_release_ms t = due t0 cs" and "ct_faulted t = missed t0 cs"
  shows "ct_scheduled_release_ms (control_cycle F cy sn t) = due t0 (cs @ [cy])"
    and "ct_faulted (control_cycle F cy sn t) = missed t0 (cs @ [cy])"
    and "ls_status (ct_state (control_cycle F cy sn t)) =
      cycle_status (missed t0 (cs @ [cy])) (sn_valid sn) (command_fresh sn (cy_start_ms cy))"
    and "ls_control_cycles (ct_state (control_cycle F cy sn t)) = ls_control_cycles (ct_state t) + 1"
    and "ls_command_sequence (ct_state (control_cycle F cy sn t)) = co_sequence (sn_value sn)"
  using assms
  by (auto simp: control_cycle_def Let_def due_snoc missed_simps missed_one_def CONTROL_PERIOD_MS_def CONTROL_DEADLINE_MS_def
      algebra_simps split: prod.splits)

lemma control_cycle_effort:
  assumes "ls_status (ct_state (control_cycle F cy sn t)) \<noteq> CONTROL_ACTIVE"
  shows "ls_effort (ct_state (control_cycle F cy sn t)) = fl_lit F 0 1"
  using assms
  by (auto simp: control_cycle_def Let_def plant_step_def cycle_status_def command_fresh_def split: prod.splits if_splits)

lemma tracks_step:
  assumes "tracks F t0 es c" and "e \<noteq> Stop"
  shows "tracks F t0 (es @ [e]) (loop_step F e c)"
proof -
  from assms(1) obtain t where t: "cr_thread c = Some t" "cr_published c = ct_state t"
    "ct_scheduled_release_ms t = due t0 (cycles_of es)" "ct_faulted t = missed t0 (cycles_of es)"
    "ls_control_cycles (ct_state t) = of_nat (length (cycles_of es))"
    "ls_status (ct_state t) = CONTROL_FAULT \<longleftrightarrow> ct_faulted t"
    "ls_status (ct_state t) \<noteq> CONTROL_ACTIVE \<longrightarrow> ls_effort (ct_state t) = fl_lit F 0 1"
    "ls_status (ct_state t) = CONTROL_ACTIVE \<longrightarrow> latest F es \<noteq> None"
    and sn: "sn_valid (cr_command c) = (latest F es \<noteq> None)"
    "\<forall>v r. latest F es = Some (v, r) \<longrightarrow> sn_value (cr_command c) = v \<and> sn_receipt_ms (cr_command c) = r"
    unfolding tracks_def by blast
  show ?thesis
  proof (cases e)
    case (Submit command r)
    with t sn show ?thesis
      by (auto simp: tracks_def static_control_submit_def latest_snoc split: option.splits)
  next
    case (Cycle cy)
    let ?t = "control_cycle F cy (cr_command c) t"
    note facts = control_cycle_facts [OF t(3,4), of F cy "cr_command c"]
    have "ls_status (ct_state ?t) = CONTROL_FAULT \<longleftrightarrow> ct_faulted ?t"
      by (simp add: facts cycle_status_def status_defs)
    moreover have "ls_status (ct_state ?t) = CONTROL_ACTIVE \<longrightarrow> latest F es \<noteq> None"
      using sn(1) by (simp add: facts cycle_status_def status_defs)
    ultimately show ?thesis
      using Cycle t sn facts control_cycle_effort [of F cy "cr_command c" t]
      by (simp add: tracks_def run_cycle_def Let_def latest_snoc)
  next
    case (Start x)
    with t sn assms(1) show ?thesis
      by (simp add: tracks_def static_control_start_def latest_snoc)
  qed (use assms(2) in simp)
qed

lemma tracks_run:
  assumes "cr_thread c = None" and "Stop \<notin> set es"
  shows "tracks F t0 es (loop_run F (Start t0 # es) c)"
  using assms(2)
proof (induction es rule: rev_induct)
  case Nil
  show ?case using tracks_start [OF assms(1)] by (simp add: loop_run_def)
next
  case (snoc e es)
  then have "tracks F t0 es (loop_run F (Start t0 # es) c)" "e \<noteq> Stop" by auto
  from tracks_step [OF this] show ?case by (simp add: loop_run_def)
qed


section \<open>The effort\<close>

definition binary32 :: "single c_float" where
  "binary32 = \<lparr>fl_lit = (\<lambda>n d. to_single (of_int n / of_int d)), fl_add = single_add, fl_sub = single_sub,
     fl_mul = single_mul, fl_div = single_div, fl_less = single_less, fl_finite = is_finite\<rparr>"

text \<open>The rounding of numbers of the size of an effort, a velocity or a gain.\<close>

lemma rounded_near: "\<bar>x\<bar> \<le> 16 \<Longrightarrow> \<bar>rounded x - x\<bar> \<le> 1 / 500000"
  using rounded_error [of x] by simp

lemma rounded_coarse: "\<bar>rounded x\<bar> \<le> 2 * \<bar>x\<bar> + 1"
  using rounded_error [of x] by (simp add: abs_if split: if_splits)

text \<open>The friction keeps the velocity within 8, whatever the errors of the roundings are.\<close>

lemma velocity_bounded:
  assumes "\<bar>v\<bar> \<le> 8" and "\<bar>e\<bar> \<le> 1" and "\<bar>g - 1 / 5\<bar> \<le> 1 / 500000" and "\<bar>h - 1 / 100\<bar> \<le> 1 / 500000"
  shows "\<bar>g * v\<bar> \<le> 2" and "\<bar>e - rounded (g * v)\<bar> \<le> 4" and "\<bar>rounded (e - rounded (g * v)) * h\<bar> \<le> 1"
    and "\<bar>v + rounded (rounded (e - rounded (g * v)) * h)\<bar> \<le> 10"
    and "\<bar>rounded (v + rounded (rounded (e - rounded (g * v)) * h))\<bar> \<le> 8"
proof -
  define m where "m = rounded (g * v)"
  define a where "a = rounded (e - m)"
  define w where "w = rounded (a * h)"
  have scaled: "\<bar>x * y - c * y\<bar> \<le> b / 500000" if "\<bar>x - c\<bar> \<le> 1 / 500000" "\<bar>y\<bar> \<le> b" for x y c b :: rat
    using mult_mono [OF that] by (simp add: abs_mult [symmetric] left_diff_distrib)
  have gv: "\<bar>g * v - v / 5\<bar> \<le> 8 / 500000" using scaled [OF assms(3,1)] by simp
  then show b1: "\<bar>g * v\<bar> \<le> 2" using assms(1) by linarith
  then have m: "\<bar>m - v / 5\<bar> \<le> 9 / 500000" using rounded_near [of "g * v"] gv unfolding m_def by linarith
  then show b2: "\<bar>e - rounded (g * v)\<bar> \<le> 4" using assms(1,2) unfolding m_def by linarith
  then have a: "\<bar>a - (e - v / 5)\<bar> \<le> 10 / 500000" using rounded_near [of "e - m"] m unfolding a_def m_def by linarith
  then have a3: "\<bar>a\<bar> \<le> 3" using assms(1,2) by linarith
  have ah: "\<bar>a * h - a / 100\<bar> \<le> 3 / 500000" using scaled [OF assms(4) a3] by (simp add: mult.commute)
  then show b3: "\<bar>rounded (e - rounded (g * v)) * h\<bar> \<le> 1" using a3 unfolding a_def m_def by linarith
  then have w: "\<bar>w - a / 100\<bar> \<le> 4 / 500000" using rounded_near [of "a * h"] ah unfolding w_def a_def m_def by linarith
  then show b4: "\<bar>v + rounded (rounded (e - rounded (g * v)) * h)\<bar> \<le> 10"
    using a3 assms(1) unfolding w_def a_def m_def by linarith
  then show "\<bar>rounded (v + rounded (rounded (e - rounded (g * v)) * h))\<bar> \<le> 8"
    using rounded_near [of "v + w"] w a assms(1,2) unfolding w_def a_def m_def by linarith
qed

definition plant_ok :: "single plant \<Rightarrow> bool" where
  "plant_ok plant \<longleftrightarrow>
     (\<exists>p v. plant = \<lparr>pl_position = Finite p, pl_velocity = Finite v\<rparr> \<and> \<bar>p\<bar> \<le> 2 ^ 24 \<and> \<bar>v\<bar> \<le> 8)"

definition unit_value :: "single \<Rightarrow> bool" where
  "unit_value e \<longleftrightarrow> (\<exists>x. e = Finite x \<and> \<bar>x\<bar> \<le> 1)"

lemma unit_value_bounds: "unit_value e \<longleftrightarrow> (\<exists>x. e = Finite x \<and> -1 \<le> x \<and> x \<le> 1)"
  by (auto simp: unit_value_def abs_le_iff)

lemma binary32_literals:
  "fl_lit binary32 0 1 = Finite 0" "fl_lit binary32 1 1 = Finite 1" "fl_lit binary32 (-1) 1 = Finite (-1)"
  "fl_lit binary32 4 1 = Finite 4" "fl_lit binary32 10 1 = Finite 10" "fl_lit binary32 1000 1 = Finite 1000"
  by (simp_all add: binary32_def to_single_small)

lemma plant_init_ok: "plant_ok (plant_init binary32)"
  by (simp add: plant_ok_def plant_init_def binary32_literals)

text \<open>The demand of the controller is finite, so that the clamp gives an effort in range.\<close>

lemma effort_unit:
  assumes "\<bar>t\<bar> \<le> 1" and "\<bar>p\<bar> \<le> 2 ^ 24" and "\<bar>v\<bar> \<le> 8"
  shows "unit_value (clamp binary32 (fl_sub binary32 (fl_mul binary32 (Finite 4) (fl_sub binary32 (Finite t) (Finite p)))
    (fl_mul binary32 (Finite 1) (Finite v))) (Finite (-1)) (Finite 1))"
proof -
  have d: "\<bar>t - p\<bar> \<le> 2 ^ 25" using assms(1,2) by (simp add: abs_le_iff)
  then have r1: "\<bar>rounded (t - p)\<bar> \<le> 2 ^ 27" using rounded_coarse [of "t - p"] by simp
  then have r2: "\<bar>rounded (4 * rounded (t - p))\<bar> \<le> 2 ^ 31" using rounded_coarse [of "4 * rounded (t - p)"] by (simp add: abs_mult)
  have r3: "\<bar>rounded v\<bar> \<le> 17" using rounded_coarse [of v] assms(3) by simp
  have "\<bar>rounded (4 * rounded (t - p)) - rounded v\<bar> \<le> 2 ^ 32" using r2 r3 by (simp add: abs_if split: if_splits)
  with d r1 assms(3) show ?thesis
    by (simp add: binary32_def single_sub_def to_single_finite abs_mult clamp_def unit_value_def abs_le_iff)
qed

lemma plant_step_moves:
  assumes "plant_step F plant target period enabled = (plant', out)"
  shows "pl_velocity plant' = fl_add F (pl_velocity plant)
      (fl_mul F (fl_sub F (po_effort out) (fl_mul F (fl_lit F 2 10) (pl_velocity plant))) period)"
    and "pl_position plant' = fl_add F (pl_position plant) (fl_mul F (pl_velocity plant') period)"
    and "po_velocity out = pl_velocity plant'" and "po_position out = pl_position plant'"
  using assms by (auto simp: plant_step_def Let_def)

lemma plant_step_ok:
  assumes "plant_ok plant" and "enabled \<Longrightarrow> unit_value target"
    and "plant_step binary32 plant target (fl_div binary32 (fl_lit binary32 CONTROL_PERIOD_MS 1) (fl_lit binary32 1000 1)) enabled =
      (plant', out)"
  shows "plant_ok plant' \<and> po_position out = pl_position plant' \<and> po_velocity out = pl_velocity plant' \<and>
    unit_value (po_effort out)"
proof -
  from assms(1) obtain p v where plant: "plant = \<lparr>pl_position = Finite p, pl_velocity = Finite v\<rparr>"
    and p: "\<bar>p\<bar> \<le> 2 ^ 24" and v: "\<bar>v\<bar> \<le> 8" unfolding plant_ok_def by blast
  define g where "g = rounded (1 / 5)"
  define h where "h = rounded (1 / 100)"
  have g: "fl_lit binary32 2 10 = Finite g" "\<bar>g - 1 / 5\<bar> \<le> 1 / 500000"
    using rounded_near [of "1 / 5"] by (simp_all add: g_def binary32_def to_single_finite)
  have h: "fl_div binary32 (fl_lit binary32 CONTROL_PERIOD_MS 1) (fl_lit binary32 1000 1) = Finite h"
    "\<bar>h - 1 / 100\<bar> \<le> 1 / 500000"
    using rounded_near [of "1 / 100"] unfolding CONTROL_PERIOD_MS_def binary32_literals
    by (simp_all add: h_def binary32_def to_single_finite)
  have "unit_value (po_effort out)"
    using assms(2,3) effort_unit [OF _ p v]
    by (auto simp: plant_step_def Let_def plant binary32_literals PROPORTIONAL_GAIN_def DAMPING_GAIN_def unit_value_def)
  then obtain e where e: "po_effort out = Finite e" "\<bar>e\<bar> \<le> 1" unfolding unit_value_def by blast
  note bounds = velocity_bounded [OF v e(2) g(2) h(2)]
  define v' where "v' = rounded (v + rounded (rounded (e - rounded (g * v)) * h))"
  note moves = plant_step_moves [OF assms(3), unfolded plant plant.simps e(1) g(1) h(1)]
  have velocity: "pl_velocity plant' = Finite v'"
    using bounds unfolding moves(1) by (simp add: binary32_def single_sub_def to_single_finite v'_def)
  have "\<bar>v' * h\<bar> \<le> 8 * (1 / 50)"
  proof (unfold abs_mult, rule mult_mono)
    show "\<bar>h\<bar> \<le> 1 / 50" using h(2) by linarith
  qed (use bounds(5) in \<open>simp_all add: v'_def\<close>)
  then have step: "\<bar>rounded (v' * h)\<bar> < 1" "\<bar>v' * h\<bar> \<le> 1" using rounded_near [of "v' * h"] by linarith+
  then have sum: "\<bar>p + rounded (v' * h)\<bar> < 2 ^ 24 + 1" using p by linarith
  have position: "pl_position plant' = Finite (rounded (p + rounded (v' * h)))"
    using step sum unfolding moves(2) velocity by (simp add: binary32_def to_single_finite)
  have "plant' = \<lparr>pl_position = Finite (rounded (p + rounded (v' * h))), pl_velocity = Finite v'\<rparr>"
    using position velocity by (cases plant') simp
  then have "plant_ok plant'"
    using bounds(5) rounded_absorbs [OF sum] unfolding plant_ok_def v'_def by blast
  with moves(3,4) \<open>unit_value (po_effort out)\<close> show ?thesis by simp
qed

text \<open>A cycle keeps the plant finite when the command it may act on has a target in range.\<close>

definition state_safe :: "single loop_state \<Rightarrow> bool" where
  "state_safe s \<longleftrightarrow> is_finite (ls_position s) \<and> is_finite (ls_velocity s) \<and> unit_value (ls_effort s)"

lemma control_cycle_ok:
  assumes "plant_ok (ct_plant t)" and "sn_valid sn \<Longrightarrow> unit_value (co_target (sn_value sn))"
  shows "plant_ok (ct_plant (control_cycle binary32 cy sn t)) \<and> state_safe (ct_state (control_cycle binary32 cy sn t))"
proof -
  let ?enabled = "command_fresh sn (cy_start_ms cy) \<and> \<not> (ct_faulted t \<or> 1 < cy_releases cy \<or>
    ct_scheduled_release_ms t + uint (cy_releases cy) * CONTROL_PERIOD_MS < cy_start_ms cy)"
  obtain plant' out where step: "plant_step binary32 (ct_plant t) (co_target (sn_value sn))
      (fl_div binary32 (fl_lit binary32 CONTROL_PERIOD_MS 1) (fl_lit binary32 1000 1)) ?enabled = (plant', out)"
    by (cases "plant_step binary32 (ct_plant t) (co_target (sn_value sn))
      (fl_div binary32 (fl_lit binary32 CONTROL_PERIOD_MS 1) (fl_lit binary32 1000 1)) ?enabled")
  have "plant_ok plant' \<and> po_position out = pl_position plant' \<and> po_velocity out = pl_velocity plant' \<and>
      unit_value (po_effort out)"
    using assms(2) by (intro plant_step_ok [OF assms(1) _ step]) (simp add: command_fresh_def)
  moreover have "unit_value (Finite 0)" by (simp add: unit_value_def)
  ultimately show ?thesis
    using step by (auto simp: control_cycle_def Let_def state_safe_def plant_ok_def binary32_literals)
qed

lemma latest_accepted: "latest F es = Some (v, r) \<Longrightarrow> Submit (Some v) r \<in> set es \<and> acceptable F v r"
proof (induction es rule: rev_induct)
  case (snoc e es)
  then show ?case by (auto simp: latest_snoc split: loop_event.splits option.splits if_splits)
qed (simp add: latest_def)

lemma acceptable_unit: "acceptable binary32 v r \<Longrightarrow> unit_value (co_target v)"
  by (cases "co_target v") (auto simp: acceptable_def binary32_literals unit_value_def binary32_def [symmetric], auto simp: binary32_def)

text \<open>What the thread and its snapshot keep after a start: a finite plant, and a target in range in a valid command.\<close>

lemma loop_safe:
  assumes "cr_thread c = None" and "Stop \<notin> set es"
  shows "\<exists>t. cr_thread (loop_run binary32 (Start t0 # es) c) = Some t \<and> plant_ok (ct_plant t) \<and>
    state_safe (cr_published (loop_run binary32 (Start t0 # es) c))"
  using assms(2)
proof (induction es rule: rev_induct)
  case Nil
  from assms(1) show ?case
    by (simp add: loop_run_def static_control_start_def control_entry_def plant_init_ok disabled_state_def state_safe_def
        binary32_literals unit_value_def)
next
  case (snoc e es)
  let ?c = "loop_run binary32 (Start t0 # es) c"
  from snoc obtain t where t: "cr_thread ?c = Some t" "plant_ok (ct_plant t)" "state_safe (cr_published ?c)" by auto
  have "sn_valid (cr_command ?c) \<Longrightarrow> unit_value (co_target (sn_value (cr_command ?c)))"
    using tracks_run [OF assms(1), of es binary32 t0] snoc.prems latest_accepted [of binary32 es] acceptable_unit
    by (fastforce simp: tracks_def)
  note cycle = control_cycle_ok [OF t(2) this]
  have "loop_run binary32 (Start t0 # es @ [e]) c = loop_step binary32 e ?c" by (simp add: loop_run_def)
  with t cycle snoc.prems show ?case
    by (cases e) (auto simp: static_control_submit_def static_control_start_def run_cycle_def Let_def split: option.splits)
qed

section \<open>Examples\<close>

text \<open>Thousandths, for the examples.\<close>

definition milli :: "int c_float" where
  "milli = \<lparr>fl_lit = (\<lambda>n d. n * 1000 div d), fl_add = (+), fl_sub = (-), fl_mul = (\<lambda>a b. a * b div 1000),
     fl_div = (\<lambda>a b. a * 1000 div b), fl_less = (<), fl_finite = (\<lambda>_. True)\<rparr>"

definition example_controller :: "int controller" where
  "example_controller = \<lparr>cr_command = \<lparr>sn_value = \<lparr>co_target = 0, co_sequence = 0\<rparr>, sn_receipt_ms = 0, sn_valid = False\<rparr>,
     cr_published = disabled_state milli, cr_thread = None\<rparr>"

definition example_history :: "int loop_event list" where
  "example_history = [Submit (Some \<lparr>co_target = 500, co_sequence = 7\<rparr>) 5, Cycle \<lparr>cy_releases = 1, cy_start_ms = 10, cy_completion_ms = 11\<rparr>]"

section \<open>Properties\<close>

text \<open>
  Property C7. After every cycle the thread reports exactly what the history since its start says, whatever
  commands came in and in whatever order: a fault when some cycle so far was released more than once at a
  time or started or completed after the next release; otherwise disabled when no command was accepted,
  active when the last accepted command is at most 250 ms old, and stale when it is not; and it reports
  the sequence number of that command and the number of cycles.
\<close>

theorem control_status_exact:
  assumes "cr_thread c = None" and "Stop \<notin> set es"
  shows "let s = static_control_read_state (loop_run F (Start t0 # es @ [Cycle cy]) c) in
    ls_status s = spec_status F t0 es cy \<and>
    (\<forall>v r. latest F es = Some (v, r) \<longrightarrow> ls_command_sequence s = co_sequence v) \<and>
    ls_control_cycles s = of_nat (length (cycles_of es) + 1)"
proof -
  let ?c = "loop_run F (Start t0 # es) c"
  from tracks_run [OF assms, of F t0] obtain t where t: "cr_thread ?c = Some t"
    "ct_scheduled_release_ms t = due t0 (cycles_of es)" "ct_faulted t = missed t0 (cycles_of es)"
    "ls_control_cycles (ct_state t) = of_nat (length (cycles_of es))"
    and sn: "sn_valid (cr_command ?c) = (latest F es \<noteq> None)"
    "\<forall>v r. latest F es = Some (v, r) \<longrightarrow> sn_value (cr_command ?c) = v \<and> sn_receipt_ms (cr_command ?c) = r"
    unfolding tracks_def by blast
  have "loop_run F (Start t0 # es @ [Cycle cy]) c = run_cycle F cy ?c" by (simp add: loop_run_def)
  then have s: "static_control_read_state (loop_run F (Start t0 # es @ [Cycle cy]) c) = ct_state (control_cycle F cy (cr_command ?c) t)"
    using t(1) by (simp add: static_control_read_state_def run_cycle_def Let_def)
  show ?thesis
    unfolding s Let_def using t(4) sn control_cycle_facts [OF t(2,3), of F cy "cr_command ?c"]
    by (auto simp: spec_status_def cycle_status_def command_fresh_def split: option.splits)
qed

theorem control_status_exact_witness:
  "ls_status (static_control_read_state (loop_run milli (Start 0 # example_history @
     [Cycle \<lparr>cy_releases = 1, cy_start_ms = 20, cy_completion_ms = 21\<rparr>]) example_controller)) = CONTROL_ACTIVE"
proof -
  let ?cy = "\<lparr>cy_releases = 1, cy_start_ms = 20, cy_completion_ms = 21\<rparr>"
  have "cr_thread example_controller = None" "Stop \<notin> set example_history"
    by (simp_all add: example_controller_def example_history_def)
  moreover have "spec_status milli 0 example_history ?cy = CONTROL_ACTIVE"
    by (simp add: spec_status_def example_history_def latest_def acceptable_def milli_def COMMAND_EXPIRY_MS_def
        missed_def missed_one_def CONTROL_PERIOD_MS_def Let_def)
  ultimately show ?thesis using control_status_exact [of example_controller example_history milli 0 ?cy] by (simp add: Let_def)
qed

text \<open>
  Property C8. With the binary32 arithmetic of C, the output is safe at every moment after a start, for every sequence
  of commands, those with an infinite or undefined target included, and of cycles, however many: the reported
  position and velocity are finite, and the reported effort is a number between -1 and 1, and zero unless the
  state is active. A fault stays, with zero effort, whatever happens, until the thread is stopped. An active state
  has a command with a finite target between -1 and 1 and a receipt time that is not negative.
\<close>

theorem control_output_safe:
  assumes "cr_thread c = None" and "Stop \<notin> set es"
  shows "let s = static_control_read_state (loop_run binary32 (Start t0 # es) c) in
    is_finite (ls_position s) \<and> is_finite (ls_velocity s) \<and> (\<exists>x. ls_effort s = Finite x \<and> -1 \<le> x \<and> x \<le> 1) \<and>
    (ls_status s \<noteq> CONTROL_ACTIVE \<longrightarrow> ls_effort s = Finite 0) \<and>
    (ls_status s = CONTROL_FAULT \<longrightarrow> (\<forall>es'. Stop \<notin> set es' \<longrightarrow>
       ls_status (static_control_read_state (loop_run binary32 (Start t0 # es @ es') c)) = CONTROL_FAULT \<and>
       ls_effort (static_control_read_state (loop_run binary32 (Start t0 # es @ es') c)) = Finite 0)) \<and>
    (ls_status s = CONTROL_ACTIVE \<longrightarrow>
       (\<exists>v r x. Submit (Some v) r \<in> set es \<and> co_target v = Finite x \<and> -1 \<le> x \<and> x \<le> 1 \<and> 0 \<le> r))"
proof -
  let ?s = "\<lambda>es. static_control_read_state (loop_run binary32 (Start t0 # es) c)"
  have fault: "ls_status (?s es) = CONTROL_FAULT \<longleftrightarrow> missed t0 (cycles_of es)"
    and idle: "ls_status (?s es) \<noteq> CONTROL_ACTIVE \<Longrightarrow> ls_effort (?s es) = Finite 0" if "Stop \<notin> set es" for es
    using tracks_run [OF assms(1) that, of binary32 t0]
    by (auto simp: tracks_def static_control_read_state_def binary32_literals)
  have safe: "is_finite (ls_position (?s es)) \<and> is_finite (ls_velocity (?s es)) \<and>
      (\<exists>x. ls_effort (?s es) = Finite x \<and> -1 \<le> x \<and> x \<le> 1)"
    using loop_safe [OF assms, of t0]
    by (auto simp: static_control_read_state_def state_safe_def unit_value_bounds)
  have latched: "ls_status (?s (es @ es')) = CONTROL_FAULT \<and> ls_effort (?s (es @ es')) = Finite 0"
    if "ls_status (?s es) = CONTROL_FAULT" "Stop \<notin> set es'" for es'
  proof -
    have stop: "Stop \<notin> set (es @ es')" using assms(2) that(2) by simp
    from that(1) fault [OF assms(2)] have "missed t0 (cycles_of (es @ es'))" by (simp add: missed_append)
    with fault [OF stop] have "ls_status (?s (es @ es')) = CONTROL_FAULT" by simp
    with idle [OF stop] show ?thesis by (simp add: status_defs)
  qed
  have active: "\<exists>v r x. Submit (Some v) r \<in> set es \<and> co_target v = Finite x \<and> -1 \<le> x \<and> x \<le> 1 \<and> 0 \<le> r"
    if "ls_status (?s es) = CONTROL_ACTIVE"
  proof -
    from tracks_run [OF assms, of binary32 t0] that obtain v r where "latest binary32 es = Some (v, r)"
      by (auto simp: tracks_def static_control_read_state_def)
    with latest_accepted have v: "Submit (Some v) r \<in> set es" "acceptable binary32 v r" by blast+
    from acceptable_unit [OF v(2)] obtain x where "co_target v = Finite x" "-1 \<le> x" "x \<le> 1"
      by (auto simp: unit_value_bounds)
    moreover have "0 \<le> r" using v(2) by (simp add: acceptable_def)
    ultimately show ?thesis using v(1) by blast
  qed
  show ?thesis
    unfolding Let_def using safe idle [OF assms(2)] latched active by simp
qed

definition single_history :: "single loop_event list" where
  "single_history =
     [Submit (Some \<lparr>co_target = NaN, co_sequence = 1\<rparr>) 4, Submit (Some \<lparr>co_target = Infinite True, co_sequence = 2\<rparr>) 4,
      Submit (Some \<lparr>co_target = Finite (1 / 2), co_sequence = 7\<rparr>) 5,
      Cycle \<lparr>cy_releases = 1, cy_start_ms = 10, cy_completion_ms = 11\<rparr>]"

theorem control_output_safe_witness:
  "let s = static_control_read_state (loop_run binary32 (Start 0 # single_history)
       \<lparr>cr_command = \<lparr>sn_value = \<lparr>co_target = NaN, co_sequence = 0\<rparr>, sn_receipt_ms = 0, sn_valid = False\<rparr>,
        cr_published = disabled_state binary32, cr_thread = None\<rparr>)
   in \<exists>x. ls_effort s = Finite x \<and> -1 \<le> x \<and> x \<le> 1"
proof -
  let ?c = "\<lparr>cr_command = \<lparr>sn_value = \<lparr>co_target = NaN, co_sequence = 0\<rparr>, sn_receipt_ms = 0, sn_valid = False\<rparr>,
    cr_published = disabled_state binary32, cr_thread = None\<rparr>"
  have "cr_thread ?c = None" "Stop \<notin> set single_history" by (simp_all add: single_history_def)
  from control_output_safe [OF this, of 0] show ?thesis unfolding Let_def by blast
qed


end
