(* ===== verification/Allocator.thy ===== *)
theory Allocator
  imports "HOL-Library.Word"
begin

text \<open>
  The tracked allocator, \<open>src/platform/allocator.c\<close>: blocks with a header in front, counters for each
  domain, and two pools. It is modelled for the 32-bit targets, where \<open>size_t\<close> has 32 bits and the header
  has eight bytes. The C library and the shared multi-heap below it are operations on a heap that is a
  parameter. The contents of the blocks are not modelled; copies and fills are recorded as events.
\<close>

section \<open>Data\<close>

type_synonym size = "32 word"
type_synonym addr = "32 word"

datatype domain = ROS2_ZEPHYR_ALLOCATION_ROS | ROS2_ZEPHYR_ALLOCATION_MIDDLEWARE

definition ALLOCATION_POOL_INTERNAL :: "32 word" where "ALLOCATION_POOL_INTERNAL = 0"
definition ALLOCATION_POOL_EXTERNAL :: "32 word" where "ALLOCATION_POOL_EXTERNAL = 1"
definition ROS_EXTERNAL_ALLOCATION_MIN :: size where "ROS_EXTERNAL_ALLOCATION_MIN = 4096"
definition MIDDLEWARE_EXTERNAL_ALLOCATION_MIN :: size where "MIDDLEWARE_EXTERNAL_ALLOCATION_MIN = 8192"

record allocation_header =
  hd_size :: size
  hd_pool :: "32 word"

definition HEADER_SIZE :: size where "HEADER_SIZE = 8"

record allocation_metrics =
  me_calls :: size
  me_frees :: size
  me_live_bytes :: size
  me_high_water_bytes :: size

text \<open>
  The heaps, whether there is an external one (\<open>CONFIG_ESP_SPIRAM\<close>), and the attempt at which a test
  build fails an allocation, 0 in other builds.
\<close>

record 'h heap_env =
  hp_malloc :: "size \<Rightarrow> 'h \<Rightarrow> addr option \<times> 'h"
  hp_realloc :: "addr \<Rightarrow> size \<Rightarrow> 'h \<Rightarrow> addr option \<times> 'h"
  hp_free :: "addr \<Rightarrow> 'h \<Rightarrow> 'h"
  hp_ext_alloc :: "size \<Rightarrow> 'h \<Rightarrow> addr option \<times> 'h"
  hp_ext_realloc :: "addr \<Rightarrow> size \<Rightarrow> 'h \<Rightarrow> addr option \<times> 'h"
  hp_ext_free :: "addr \<Rightarrow> 'h \<Rightarrow> 'h"
  hp_spiram :: bool
  hp_failure_at :: size

datatype alloc_event =
    Failure domain size size size
  | Memcpy addr addr size
  | Memset addr size

record 'h allocator =
  al_heap :: 'h
  al_headers :: "addr \<Rightarrow> allocation_header"
  al_metrics :: "domain \<Rightarrow> allocation_metrics"
  al_attempts :: size
  al_log :: "alloc_event list"

section \<open>Operations\<close>

definition external_threshold :: "domain \<Rightarrow> size" where
  "external_threshold d =
     (case d of ROS2_ZEPHYR_ALLOCATION_ROS \<Rightarrow> ROS_EXTERNAL_ALLOCATION_MIN
      | ROS2_ZEPHYR_ALLOCATION_MIDDLEWARE \<Rightarrow> MIDDLEWARE_EXTERNAL_ALLOCATION_MIN)"

definition raise_high_water :: "allocation_metrics \<Rightarrow> allocation_metrics" where
  "raise_high_water m =
     (if me_high_water_bytes m < me_live_bytes m then m\<lparr>me_high_water_bytes := me_live_bytes m\<rparr> else m)"

definition update_metrics :: "domain \<Rightarrow> (allocation_metrics \<Rightarrow> allocation_metrics) \<Rightarrow> 'h allocator \<Rightarrow> 'h allocator" where
  "update_metrics d f a = a\<lparr>al_metrics := (al_metrics a)(d := f (al_metrics a d))\<rparr>"

definition metrics_add :: "domain \<Rightarrow> size \<Rightarrow> 'h allocator \<Rightarrow> 'h allocator" where
  "metrics_add d n = update_metrics d (\<lambda>m. raise_high_water (m\<lparr>me_calls := me_calls m + 1, me_live_bytes := me_live_bytes m + n\<rparr>))"

definition report_allocation_failure :: "domain \<Rightarrow> size \<Rightarrow> 'h allocator \<Rightarrow> 'h allocator" where
  "report_allocation_failure d requested a =
     a\<lparr>al_log := al_log a @ [Failure d requested (me_live_bytes (al_metrics a d)) (me_high_water_bytes (al_metrics a d))]\<rparr>"

definition inject_allocation_failure :: "'h heap_env \<Rightarrow> domain \<Rightarrow> 'h allocator \<Rightarrow> bool \<times> 'h allocator" where
  "inject_allocation_failure env d a =
     (if 0 < hp_failure_at env \<and> d = ROS2_ZEPHYR_ALLOCATION_ROS
      then let attempt = al_attempts a + 1 in (attempt = hp_failure_at env, a\<lparr>al_attempts := attempt\<rparr>)
      else (False, a))"

definition pool_for :: "'h heap_env \<Rightarrow> domain \<Rightarrow> size \<Rightarrow> 32 word" where
  "pool_for env d n =
     (if hp_spiram env \<and> external_threshold d \<le> n then ALLOCATION_POOL_EXTERNAL else ALLOCATION_POOL_INTERNAL)"

definition pool_alloc :: "'h heap_env \<Rightarrow> 32 word \<Rightarrow> size \<Rightarrow> 'h \<Rightarrow> addr option \<times> 'h" where
  "pool_alloc env pool n = (if pool = ALLOCATION_POOL_EXTERNAL then hp_ext_alloc env n else hp_malloc env n)"

definition pool_free :: "'h heap_env \<Rightarrow> 32 word \<Rightarrow> addr \<Rightarrow> 'h \<Rightarrow> 'h" where
  "pool_free env pool p =
     (if hp_spiram env \<and> pool = ALLOCATION_POOL_EXTERNAL then hp_ext_free env p else hp_free env p)"

definition set_header :: "addr \<Rightarrow> size \<Rightarrow> 32 word \<Rightarrow> 'h allocator \<Rightarrow> 'h allocator" where
  "set_header p n pool a = a\<lparr>al_headers := (al_headers a)(p := \<lparr>hd_size = n, hd_pool = pool\<rparr>)\<rparr>"

definition ros2_zephyr_allocate :: "'h heap_env \<Rightarrow> size \<Rightarrow> domain \<Rightarrow> 'h allocator \<Rightarrow> addr option \<times> 'h allocator" where
  "ros2_zephyr_allocate env n d a =
     (case inject_allocation_failure env d a of (inject, a1) \<Rightarrow>
      if inject then (None, report_allocation_failure d n a1) else
      (case pool_alloc env (pool_for env d n) (HEADER_SIZE + n) (al_heap a1) of
         (None, h) \<Rightarrow> (None, report_allocation_failure d n (a1\<lparr>al_heap := h\<rparr>))
       | (Some header, h) \<Rightarrow>
           (Some (header + HEADER_SIZE), metrics_add d n (set_header header n (pool_for env d n) (a1\<lparr>al_heap := h\<rparr>)))))"

definition ros2_zephyr_deallocate :: "'h heap_env \<Rightarrow> addr option \<Rightarrow> domain \<Rightarrow> 'h allocator \<Rightarrow> 'h allocator" where
  "ros2_zephyr_deallocate env pointer d a =
     (case pointer of
        None \<Rightarrow> a
      | Some p \<Rightarrow>
          let header = al_headers a (p - HEADER_SIZE);
              a1 = update_metrics d (\<lambda>m. m\<lparr>me_frees := me_frees m + 1, me_live_bytes := me_live_bytes m - hd_size header\<rparr>) a
          in a1\<lparr>al_heap := pool_free env (hd_pool header) (p - HEADER_SIZE) (al_heap a1)\<rparr>)"

text \<open>The new block of a reallocation: in place or moved by the same pool, or a block of the other pool.\<close>

definition new_block :: "'h heap_env \<Rightarrow> 32 word \<Rightarrow> 32 word \<Rightarrow> addr \<Rightarrow> size \<Rightarrow> 'h \<Rightarrow> addr option \<times> 'h" where
  "new_block env old_pool new_pool old_header n =
     (if hp_spiram env \<and> old_pool = new_pool \<and> new_pool = ALLOCATION_POOL_EXTERNAL then hp_ext_realloc env old_header n
      else if hp_spiram env \<and> old_pool \<noteq> new_pool \<and> new_pool = ALLOCATION_POOL_EXTERNAL then hp_ext_alloc env n
      else if old_pool = new_pool then hp_realloc env old_header n
      else hp_malloc env n)"

definition move_block :: "'h heap_env \<Rightarrow> 32 word \<Rightarrow> addr \<Rightarrow> addr \<Rightarrow> size \<Rightarrow> 'h allocator \<Rightarrow> 'h allocator" where
  "move_block env old_pool new_header old_header n a =
     a\<lparr>al_log := al_log a @ [Memcpy (new_header + HEADER_SIZE) (old_header + HEADER_SIZE) n],
       al_heap := pool_free env old_pool old_header (al_heap a)\<rparr>"

definition ros2_zephyr_reallocate :: "'h heap_env \<Rightarrow> addr option \<Rightarrow> size \<Rightarrow> domain \<Rightarrow> 'h allocator \<Rightarrow> addr option \<times> 'h allocator" where
  "ros2_zephyr_reallocate env pointer n d a =
     (case pointer of
        None \<Rightarrow> ros2_zephyr_allocate env n d a
      | Some p \<Rightarrow>
     (case inject_allocation_failure env d a of (inject, a1) \<Rightarrow>
      if inject then (None, report_allocation_failure d n a1) else
      let old_header = p - HEADER_SIZE;
          old_size = hd_size (al_headers a1 old_header);
          old_pool = hd_pool (al_headers a1 old_header);
          new_pool = pool_for env d n
      in (case new_block env old_pool new_pool old_header (HEADER_SIZE + n) (al_heap a1) of
            (None, h) \<Rightarrow> (None, report_allocation_failure d n (a1\<lparr>al_heap := h\<rparr>))
          | (Some new_header, h) \<Rightarrow>
              let a2 = a1\<lparr>al_heap := h\<rparr>;
                  a3 = (if old_pool \<noteq> new_pool then move_block env old_pool new_header old_header (min old_size n) a2 else a2);
                  a4 = update_metrics d (\<lambda>m. raise_high_water
                         (m\<lparr>me_calls := me_calls m + 1, me_live_bytes := me_live_bytes m - old_size + n\<rparr>)) a3
              in (Some (new_header + HEADER_SIZE), set_header new_header n new_pool a4))))"

text \<open>\<open>SIZE_MAX\<close> is the word with all bits set.\<close>

definition ros2_zephyr_zero_allocate :: "'h heap_env \<Rightarrow> size \<Rightarrow> size \<Rightarrow> domain \<Rightarrow> 'h allocator \<Rightarrow> addr option \<times> 'h allocator" where
  "ros2_zephyr_zero_allocate env count n d a =
     (if n \<noteq> 0 \<and> (- 1) div n < count then (None, a)
      else let bytes = count * n
           in (case ros2_zephyr_allocate env bytes d a of
                 (None, a1) \<Rightarrow> (None, a1)
               | (Some p, a1) \<Rightarrow> (Some p, a1\<lparr>al_log := al_log a1 @ [Memset p bytes]\<rparr>)))"

definition ros2_zephyr_allocation_metrics :: "domain \<Rightarrow> 'h allocator \<Rightarrow> allocation_metrics" where
  "ros2_zephyr_allocation_metrics d a = al_metrics a d"

definition allocation_states :: "'h \<Rightarrow> (addr \<Rightarrow> allocation_header) \<Rightarrow> 'h allocator" where
  "allocation_states h memory =
     \<lparr>al_heap = h, al_headers = memory,
      al_metrics = (\<lambda>_. \<lparr>me_calls = 0, me_frees = 0, me_live_bytes = 0, me_high_water_bytes = 0\<rparr>),
      al_attempts = 0, al_log = []\<rparr>"

section \<open>What the heaps promise\<close>

text \<open>
  The blocks of a heap: for each pool, the address and the capacity of every block. An allocation that
  succeeds returns a new block of at least the size asked for, a reallocation moves or resizes its block,
  a failure changes nothing, and all blocks together fit into the address space.
\<close>

type_synonym blocks = "32 word \<Rightarrow> addr \<rightharpoonup> nat"

definition new_at :: "32 word \<Rightarrow> addr \<Rightarrow> size \<Rightarrow> blocks \<Rightarrow> blocks \<Rightarrow> bool" where
  "new_at pool p n B B' \<longleftrightarrow> (\<forall>x. B x p = None) \<and> (\<exists>cap \<ge> unat n. B' = B(pool := (B pool)(p \<mapsto> cap)))"

definition removed :: "32 word \<Rightarrow> addr \<Rightarrow> blocks \<Rightarrow> blocks" where
  "removed pool p B = B(pool := (B pool)(p := None))"

definition alloc_law :: "('h \<Rightarrow> blocks) \<Rightarrow> 32 word \<Rightarrow> (size \<Rightarrow> 'h \<Rightarrow> addr option \<times> 'h) \<Rightarrow> bool" where
  "alloc_law blocks pool f \<longleftrightarrow>
     (\<forall>n h r h'. f n h = (r, h') \<longrightarrow>
        (case r of None \<Rightarrow> blocks h' = blocks h | Some p \<Rightarrow> new_at pool p n (blocks h) (blocks h')))"

definition free_law :: "('h \<Rightarrow> blocks) \<Rightarrow> 32 word \<Rightarrow> (addr \<Rightarrow> 'h \<Rightarrow> 'h) \<Rightarrow> bool" where
  "free_law blocks pool f \<longleftrightarrow> (\<forall>p h. blocks h pool p \<noteq> None \<longrightarrow> blocks (f p h) = removed pool p (blocks h))"

definition realloc_law :: "('h \<Rightarrow> blocks) \<Rightarrow> 32 word \<Rightarrow> (addr \<Rightarrow> size \<Rightarrow> 'h \<Rightarrow> addr option \<times> 'h) \<Rightarrow> bool" where
  "realloc_law blocks pool f \<longleftrightarrow>
     (\<forall>p n h r h'. blocks h pool p \<noteq> None \<longrightarrow> n \<noteq> 0 \<longrightarrow> f p n h = (r, h') \<longrightarrow>
        (case r of None \<Rightarrow> blocks h' = blocks h | Some q \<Rightarrow> new_at pool q n (removed pool p (blocks h)) (blocks h')))"

definition fits_memory :: "blocks \<Rightarrow> bool" where
  "fits_memory B \<longleftrightarrow> (\<forall>X. finite X \<longrightarrow> (\<forall>(x, p) \<in> X. B x p \<noteq> None) \<longrightarrow> (\<Sum>(x, p) \<in> X. the (B x p)) < 2 ^ 32)"

definition heap_laws :: "'h heap_env \<Rightarrow> ('h \<Rightarrow> blocks) \<Rightarrow> bool" where
  "heap_laws env blocks \<longleftrightarrow>
     alloc_law blocks ALLOCATION_POOL_INTERNAL (hp_malloc env) \<and> realloc_law blocks ALLOCATION_POOL_INTERNAL (hp_realloc env) \<and>
     free_law blocks ALLOCATION_POOL_INTERNAL (hp_free env) \<and>
     alloc_law blocks ALLOCATION_POOL_EXTERNAL (hp_ext_alloc env) \<and> realloc_law blocks ALLOCATION_POOL_EXTERNAL (hp_ext_realloc env) \<and>
     free_law blocks ALLOCATION_POOL_EXTERNAL (hp_ext_free env) \<and> (\<forall>h. fits_memory (blocks h))"

section \<open>What the clients hold\<close>

type_synonym holdings = "addr \<rightharpoonup> domain \<times> size"

definition live_total :: "holdings \<Rightarrow> domain \<Rightarrow> nat" where
  "live_total live d = (\<Sum>p \<in> dom live. case the (live p) of (e, n) \<Rightarrow> if e = d then unat n else 0)"

lemma live_total_insert:
  assumes "finite (dom live)" and "live p = None"
  shows "live_total (live(p \<mapsto> (e, n))) d = live_total live d + (if e = d then unat n else 0)"
proof -
  have "p \<notin> dom live" using assms(2) by auto
  then have "live_total (live(p \<mapsto> (e, n))) d = (if e = d then unat n else 0) +
      (\<Sum>q \<in> dom live. case the ((live(p \<mapsto> (e, n))) q) of (e, n) \<Rightarrow> if e = d then unat n else 0)"
    using assms(1) by (simp add: live_total_def)
  also have "(\<Sum>q \<in> dom live. case the ((live(p \<mapsto> (e, n))) q) of (e, n) \<Rightarrow> if e = d then unat n else 0) = live_total live d"
    unfolding live_total_def using \<open>p \<notin> dom live\<close> by (intro sum.cong) auto
  finally show ?thesis by (simp only: add.commute)
qed

lemma live_total_remove:
  assumes "finite (dom live)" and "live p = Some (e, n)"
  shows "live_total live d = live_total (live(p := None)) d + (if e = d then unat n else 0)"
proof -
  have "live = (live(p := None))(p \<mapsto> (e, n))" using assms(2) by auto
  moreover have "finite (dom (live(p := None)))" using assms(1) by simp
  ultimately show ?thesis using live_total_insert [of "live(p := None)" p e n d] by simp
qed

text \<open>A block that a client holds has its size in its header and room for it in its pool.\<close>

definition placed :: "'h heap_env \<Rightarrow> blocks \<Rightarrow> (addr \<Rightarrow> allocation_header) \<Rightarrow> addr \<Rightarrow> size \<Rightarrow> bool" where
  "placed env B headers p n \<longleftrightarrow>
     (let header = headers (p - HEADER_SIZE)
      in hd_size header = n \<and> (hd_pool header = ALLOCATION_POOL_INTERNAL \<or> hp_spiram env \<and> hd_pool header = ALLOCATION_POOL_EXTERNAL) \<and>
         (\<exists>cap. B (hd_pool header) (p - HEADER_SIZE) = Some cap \<and> unat n + 8 \<le> cap))"

definition accounted_in :: "'h heap_env \<Rightarrow> blocks \<Rightarrow> (addr \<Rightarrow> allocation_header) \<Rightarrow> (domain \<Rightarrow> size) \<Rightarrow> holdings \<Rightarrow> bool" where
  "accounted_in env B headers bytes live \<longleftrightarrow>
     finite (dom live) \<and> (\<forall>d. bytes d = of_nat (live_total live d)) \<and>
     (\<forall>p d n. live p = Some (d, n) \<longrightarrow> placed env B headers p n)"

definition accounted :: "'h heap_env \<Rightarrow> ('h \<Rightarrow> blocks) \<Rightarrow> holdings \<Rightarrow> 'h allocator \<Rightarrow> bool" where
  "accounted env blocks live a \<longleftrightarrow>
     accounted_in env (blocks (al_heap a)) (al_headers a) (\<lambda>d. me_live_bytes (al_metrics a d)) live"

text \<open>The live bytes fit into a word, because the blocks fit into memory.\<close>

lemma live_total_bound:
  assumes "heap_laws env blocks" and acc: "accounted env blocks live a"
  shows "live_total live d < 2 ^ 32"
proof -
  let ?at = "\<lambda>p. (hd_pool (al_headers a (p - HEADER_SIZE)), p - HEADER_SIZE)"
  let ?B = "blocks (al_heap a)"
  have room: "?B (fst (?at p)) (snd (?at p)) \<noteq> None \<and> (case the (live p) of (e, n) \<Rightarrow> if e = d then unat n else 0) \<le> the (?B (fst (?at p)) (snd (?at p)))"
    if "p \<in> dom live" for p
  proof -
    from that obtain e n where "live p = Some (e, n)" by (cases "live p") auto
    with acc have "placed env ?B (al_headers a) p n" by (auto simp: accounted_def accounted_in_def)
    with \<open>live p = Some (e, n)\<close> show ?thesis by (auto simp: placed_def Let_def)
  qed
  have inj: "inj_on ?at (dom live)" by (auto simp: inj_on_def)
  have fin: "finite (dom live)" using acc by (simp add: accounted_def accounted_in_def)
  have "live_total live d \<le> (\<Sum>p \<in> dom live. the (?B (fst (?at p)) (snd (?at p))))"
    unfolding live_total_def by (rule sum_mono) (use room in blast)
  also have "\<dots> = (\<Sum>(x, p) \<in> ?at ` dom live. the (?B x p))"
    unfolding sum.reindex [OF inj] by (simp add: comp_def case_prod_beta)
  also have "\<dots> < 2 ^ 32"
  proof -
    have "fits_memory ?B" using assms(1) by (simp add: heap_laws_def)
    then show ?thesis
      unfolding fits_memory_def using fin room by (elim allE [of _ "?at ` dom live"]) auto
  qed
  finally show ?thesis .
qed

lemma live_bytes_exact:
  assumes "heap_laws env blocks" and "accounted env blocks live a"
  shows "unat (me_live_bytes (al_metrics a d)) = live_total live d"
  using live_total_bound [OF assms, of d] assms(2)
  by (simp add: accounted_def accounted_in_def unat_of_nat)


section \<open>The operations keep the accounts\<close>

lemma accounted_placed: "accounted_in env B headers bytes live \<Longrightarrow> live p = Some (d, n) \<Longrightarrow> placed env B headers p n"
  by (simp add: accounted_in_def)

text \<open>A new block, with its header written, is one more holding.\<close>

lemma accounted_insert:
  assumes acc: "accounted_in env B headers bytes live" and new: "new_at pool q (HEADER_SIZE + n) B B'"
    and pool: "pool = ALLOCATION_POOL_INTERNAL \<or> hp_spiram env \<and> pool = ALLOCATION_POOL_EXTERNAL"
    and size: "unat n + 8 < 2 ^ 32"
    and bytes': "bytes' = bytes(d := bytes d + n)" and headers': "headers' = headers(q := \<lparr>hd_size = n, hd_pool = pool\<rparr>)"
  shows "live (q + HEADER_SIZE) = None" and "accounted_in env B' headers' bytes' (live(q + HEADER_SIZE \<mapsto> (d, n)))"
proof -
  from new obtain cap where fresh: "\<And>x. B x q = None" and cap: "unat (HEADER_SIZE + n) \<le> cap" "B' = B(pool := (B pool)(q \<mapsto> cap))"
    by (auto simp: new_at_def)
  have other: "p - HEADER_SIZE \<noteq> q" if "live p = Some x" for p x
    using that fresh accounted_placed [OF acc, of p] by (cases x) (auto simp: placed_def Let_def)
  show none: "live (q + HEADER_SIZE) = None"
    using other [of "q + HEADER_SIZE"] by (cases "live (q + HEADER_SIZE)") auto
  have "unat (HEADER_SIZE + n) = 8 + unat n"
    using size by (simp add: HEADER_SIZE_def unat_word_ariths)
  with cap pool have here: "placed env B' headers' (q + HEADER_SIZE) n" by (auto simp: placed_def headers')
  have "placed env B' headers' p m" if "live p = Some (e, m)" for p e m
    using accounted_placed [OF acc that] other [OF that] by (auto simp: placed_def Let_def cap headers')
  with here acc none show "accounted_in env B' headers' bytes' (live(q + HEADER_SIZE \<mapsto> (d, n)))"
    by (auto simp: accounted_in_def bytes' live_total_insert)
qed

text \<open>A block that is given back is one holding less.\<close>

lemma accounted_delete:
  assumes acc: "accounted_in env B headers bytes live" and p: "live p = Some (d, n)"
    and bytes': "bytes' = bytes(d := bytes d - n)"
  shows "accounted_in env (removed (hd_pool (headers (p - HEADER_SIZE))) (p - HEADER_SIZE) B) headers bytes' (live(p := None))"
proof -
  let ?B = "removed (hd_pool (headers (p - HEADER_SIZE))) (p - HEADER_SIZE) B"
  have "placed env ?B headers q m" if "(live(p := None)) q = Some (e, m)" for q e m
  proof -
    from that have "q \<noteq> p" "live q = Some (e, m)" by (auto split: if_splits)
    with accounted_placed [OF acc, of q] show ?thesis by (auto simp: placed_def Let_def removed_def)
  qed
  moreover have "bytes' e = of_nat (live_total (live(p := None)) e)" for e
    using acc live_total_remove [of live p d n e] p by (auto simp: accounted_in_def bytes')
  ultimately show ?thesis using acc by (auto simp: accounted_in_def)
qed

lemma high_water_raised:
  "me_live_bytes (raise_high_water m) = me_live_bytes m"
  "unat (me_high_water_bytes (raise_high_water m)) = max (unat (me_high_water_bytes m)) (unat (me_live_bytes m))"
  by (auto simp: raise_high_water_def word_less_nat_alt)

text \<open>A step is right when it keeps the accounts and the high water marks the most that was ever live.\<close>

definition keeps_accounts ::
  "'h heap_env \<Rightarrow> ('h \<Rightarrow> blocks) \<Rightarrow> domain \<Rightarrow> holdings \<Rightarrow> 'h allocator \<Rightarrow> holdings \<Rightarrow> 'h allocator \<Rightarrow> bool" where
  "keeps_accounts env blocks d live a live' a' \<longleftrightarrow>
     accounted env blocks live' a' \<and>
     (\<forall>e. e \<noteq> d \<longrightarrow> al_metrics a' e = al_metrics a e \<and> live_total live' e = live_total live e) \<and>
     (unat (me_high_water_bytes (al_metrics a' d)) = max (unat (me_high_water_bytes (al_metrics a d))) (live_total live' d) \<or>
      me_high_water_bytes (al_metrics a' d) = me_high_water_bytes (al_metrics a d) \<and> live_total live' d \<le> live_total live d)"

lemma report_fields [simp]:
  "al_heap (report_allocation_failure d n a) = al_heap a" "al_headers (report_allocation_failure d n a) = al_headers a"
  "al_metrics (report_allocation_failure d n a) = al_metrics a"
  by (simp_all add: report_allocation_failure_def)

lemma inject_fields:
  assumes "inject_allocation_failure env d a = (b, a1)"
  shows "al_heap a1 = al_heap a" "al_headers a1 = al_headers a" "al_metrics a1 = al_metrics a"
  using assms by (auto simp: inject_allocation_failure_def Let_def split: if_splits)

lemma pool_for_cases:
  "pool_for env d n = ALLOCATION_POOL_INTERNAL \<or> hp_spiram env \<and> pool_for env d n = ALLOCATION_POOL_EXTERNAL"
  by (simp add: pool_for_def)

lemma pools_differ [simp]: "ALLOCATION_POOL_INTERNAL \<noteq> ALLOCATION_POOL_EXTERNAL" "ALLOCATION_POOL_EXTERNAL \<noteq> ALLOCATION_POOL_INTERNAL"
  by (simp_all add: ALLOCATION_POOL_INTERNAL_def ALLOCATION_POOL_EXTERNAL_def)

lemma pool_operations:
  "pool_alloc env ALLOCATION_POOL_INTERNAL = hp_malloc env" "pool_alloc env ALLOCATION_POOL_EXTERNAL = hp_ext_alloc env"
  "pool_free env ALLOCATION_POOL_INTERNAL = hp_free env"
  "hp_spiram env \<Longrightarrow> pool_free env ALLOCATION_POOL_EXTERNAL = hp_ext_free env"
  by (simp_all add: fun_eq_iff pool_alloc_def pool_free_def)

lemma pool_alloc_law:
  assumes "heap_laws env blocks" and "pool = ALLOCATION_POOL_INTERNAL \<or> hp_spiram env \<and> pool = ALLOCATION_POOL_EXTERNAL"
  shows "alloc_law blocks pool (pool_alloc env pool)"
  using assms by (auto simp: heap_laws_def pool_operations)

lemma pool_free_law:
  assumes "heap_laws env blocks" and "pool = ALLOCATION_POOL_INTERNAL \<or> hp_spiram env \<and> pool = ALLOCATION_POOL_EXTERNAL"
  shows "free_law blocks pool (pool_free env pool)"
  using assms by (auto simp: heap_laws_def pool_operations)


lemma keeps_same:
  assumes "accounted env blocks live a" and "blocks (al_heap a') = blocks (al_heap a)" "al_headers a' = al_headers a" "al_metrics a' = al_metrics a"
  shows "keeps_accounts env blocks d live a live a'"
  using assms by (simp add: keeps_accounts_def accounted_def)

lemma allocate_accounts:
  assumes laws: "heap_laws env blocks" and acc: "accounted env blocks live a" and size: "unat n + 8 < 2 ^ 32"
    and run: "ros2_zephyr_allocate env n d a = (r, a')"
  shows "case r of None \<Rightarrow> keeps_accounts env blocks d live a live a'
    | Some p \<Rightarrow> keeps_accounts env blocks d live a (live(p \<mapsto> (d, n))) a' \<and> live p = None"
proof -
  obtain inject a1 where i: "inject_allocation_failure env d a = (inject, a1)" by (cases "inject_allocation_failure env d a")
  note f = inject_fields [OF i]
  obtain q h where q: "pool_alloc env (pool_for env d n) (HEADER_SIZE + n) (al_heap a1) = (q, h)"
    by (cases "pool_alloc env (pool_for env d n) (HEADER_SIZE + n) (al_heap a1)")
  have law: "case q of None \<Rightarrow> blocks h = blocks (al_heap a) | Some p \<Rightarrow> new_at (pool_for env d n) p (HEADER_SIZE + n) (blocks (al_heap a)) (blocks h)"
    using pool_alloc_law [OF laws pool_for_cases] q unfolding alloc_law_def f(1) by blast
  show ?thesis
  proof (cases "inject \<or> q = None")
    case True
    with run i q f law acc show ?thesis
      by (auto simp: ros2_zephyr_allocate_def intro!: keeps_same split: if_splits)
  next
    case False
    then obtain header where header: "q = Some header" by blast
    have a': "r = Some (header + HEADER_SIZE)" "a' = metrics_add d n (set_header header n (pool_for env d n) (a1\<lparr>al_heap := h\<rparr>))"
      using run i q False header by (simp_all add: ros2_zephyr_allocate_def)
    have fields: "al_heap a' = h" "al_headers a' = (al_headers a)(header := \<lparr>hd_size = n, hd_pool = pool_for env d n\<rparr>)"
      "(\<lambda>e. me_live_bytes (al_metrics a' e)) = (\<lambda>e. me_live_bytes (al_metrics a e))(d := me_live_bytes (al_metrics a d) + n)"
      by (auto simp: a' f metrics_add_def update_metrics_def set_header_def high_water_raised fun_eq_iff)
    have new: "new_at (pool_for env d n) header (HEADER_SIZE + n) (blocks (al_heap a)) (blocks h)" using law header by simp
    note ins = accounted_insert [OF acc [unfolded accounted_def] new pool_for_cases size fields(3,2)]
    have acc': "accounted env blocks (live(header + HEADER_SIZE \<mapsto> (d, n))) a'" using ins(2) by (simp add: accounted_def fields(1))
    have "finite (dom live)" using acc by (simp add: accounted_def accounted_in_def)
    then have "keeps_accounts env blocks d live a (live(header + HEADER_SIZE \<mapsto> (d, n))) a'"
      using acc' live_bytes_exact [OF laws acc', of d] ins(1)
      by (auto simp: keeps_accounts_def a' f metrics_add_def update_metrics_def set_header_def high_water_raised live_total_insert)
    with a'(1) ins(1) show ?thesis by simp
  qed
qed

lemma deallocate_accounts:
  assumes laws: "heap_laws env blocks" and acc: "accounted env blocks live a" and p: "live p = Some (d, n)"
  shows "keeps_accounts env blocks d live a (live(p := None)) (ros2_zephyr_deallocate env (Some p) d a)"
proof -
  let ?header = "al_headers a (p - HEADER_SIZE)" and ?a = "ros2_zephyr_deallocate env (Some p) d a"
  have pl: "placed env (blocks (al_heap a)) (al_headers a) p n"
    using accounted_placed [OF acc [unfolded accounted_def] p] .
  then have pool: "hd_pool ?header = ALLOCATION_POOL_INTERNAL \<or> hp_spiram env \<and> hd_pool ?header = ALLOCATION_POOL_EXTERNAL"
    and size: "hd_size ?header = n" and block: "blocks (al_heap a) (hd_pool ?header) (p - HEADER_SIZE) \<noteq> None"
    by (auto simp: placed_def Let_def)
  have heap: "blocks (al_heap ?a) = removed (hd_pool ?header) (p - HEADER_SIZE) (blocks (al_heap a))"
    using pool_free_law [OF laws pool] block unfolding free_law_def by (simp add: ros2_zephyr_deallocate_def Let_def update_metrics_def)
  have fields: "al_headers ?a = al_headers a"
    "(\<lambda>e. me_live_bytes (al_metrics ?a e)) = (\<lambda>e. me_live_bytes (al_metrics a e))(d := me_live_bytes (al_metrics a d) - n)"
    by (auto simp: ros2_zephyr_deallocate_def Let_def update_metrics_def size fun_eq_iff)
  have "accounted env blocks (live(p := None)) ?a"
    unfolding accounted_def heap fields(1) by (rule accounted_delete [OF acc [unfolded accounted_def] p fields(2)])
  moreover have "finite (dom live)" using acc by (simp add: accounted_def accounted_in_def)
  ultimately show ?thesis
    using live_total_remove [of live p d n] p
    by (auto simp: keeps_accounts_def) (auto simp: ros2_zephyr_deallocate_def Let_def update_metrics_def)
qed


lemma new_block_law:
  assumes laws: "heap_laws env blocks" and "n \<noteq> 0" and "blocks h old p \<noteq> None"
    and "old = ALLOCATION_POOL_INTERNAL \<or> hp_spiram env \<and> old = ALLOCATION_POOL_EXTERNAL"
    and "new = ALLOCATION_POOL_INTERNAL \<or> hp_spiram env \<and> new = ALLOCATION_POOL_EXTERNAL"
    and "new_block env old new p n h = (r, h')"
  shows "case r of None \<Rightarrow> blocks h' = blocks h
    | Some q \<Rightarrow> new_at new q n (if old = new then removed old p (blocks h) else blocks h) (blocks h')"
proof -
  have laws': "alloc_law blocks ALLOCATION_POOL_INTERNAL (hp_malloc env)" "realloc_law blocks ALLOCATION_POOL_INTERNAL (hp_realloc env)"
    "alloc_law blocks ALLOCATION_POOL_EXTERNAL (hp_ext_alloc env)" "realloc_law blocks ALLOCATION_POOL_EXTERNAL (hp_ext_realloc env)"
    using laws by (simp_all add: heap_laws_def)
  consider "old = new" "new = ALLOCATION_POOL_EXTERNAL" "hp_ext_realloc env p n h = (r, h')"
    | "old = new" "new = ALLOCATION_POOL_INTERNAL" "hp_realloc env p n h = (r, h')"
    | "old \<noteq> new" "new = ALLOCATION_POOL_EXTERNAL" "hp_ext_alloc env n h = (r, h')"
    | "old \<noteq> new" "new = ALLOCATION_POOL_INTERNAL" "hp_malloc env n h = (r, h')"
    using assms(4-6) by (auto simp: new_block_def split: if_splits)
  then show ?thesis
  proof cases
    case 1
    with laws'(4) assms(2,3) show ?thesis unfolding realloc_law_def by auto
  next
    case 2
    with laws'(2) assms(2,3) show ?thesis unfolding realloc_law_def by auto
  next
    case 3
    with laws'(3) show ?thesis unfolding alloc_law_def by auto
  next
    case 4
    with laws'(1) show ?thesis unfolding alloc_law_def by auto
  qed
qed

text \<open>A block that takes the place of another, of the same pool or of the other one.\<close>

lemma accounted_replace:
  assumes acc: "accounted_in env B headers bytes live" and p: "live p = Some (d, m)" and old: "old = hd_pool (headers (p - HEADER_SIZE))"
    and new: "new_at new q (HEADER_SIZE + n) (if old = new then removed old (p - HEADER_SIZE) B else B) B'"
    and pool: "new = ALLOCATION_POOL_INTERNAL \<or> hp_spiram env \<and> new = ALLOCATION_POOL_EXTERNAL" and size: "unat n + 8 < 2 ^ 32"
    and bytes': "bytes' = bytes(d := bytes d - m + n)" and headers': "headers' = headers(q := \<lparr>hd_size = n, hd_pool = new\<rparr>)"
  shows "accounted_in env (if old = new then B' else removed old (p - HEADER_SIZE) B') headers' bytes'
      ((live(p := None))(q + HEADER_SIZE \<mapsto> (d, n)))"
    and "(live(p := None)) (q + HEADER_SIZE) = None" and "old \<noteq> new \<Longrightarrow> B' old (p - HEADER_SIZE) \<noteq> None"
proof -
  have "accounted_in env (if old = new then B' else removed old (p - HEADER_SIZE) B') headers' bytes'
      ((live(p := None))(q + HEADER_SIZE \<mapsto> (d, n))) \<and> (live(p := None)) (q + HEADER_SIZE) = None \<and>
      (old \<noteq> new \<longrightarrow> B' old (p - HEADER_SIZE) \<noteq> None)"
  proof (cases "old = new")
    case True
    note del = accounted_delete [OF acc p refl, folded old]
    have "new_at new q (HEADER_SIZE + n) (removed old (p - HEADER_SIZE) B) B'" using new True by simp
    from accounted_insert [where d = d and bytes' = bytes', OF del this pool size _ headers'] bytes' True show ?thesis by simp
  next
    case False
    then have "new_at new q (HEADER_SIZE + n) B B'" using new by simp
    note ins = accounted_insert [where d = d, OF acc this pool size refl headers']
    have neq: "q + HEADER_SIZE \<noteq> p" using ins(1) p by auto
    then have "q \<noteq> p - HEADER_SIZE" by auto
    then have header: "headers' (p - HEADER_SIZE) = headers (p - HEADER_SIZE)" by (simp add: headers')
    have p': "(live(q + HEADER_SIZE \<mapsto> (d, n))) p = Some (d, m)" using neq p by simp
    have "bytes' = (bytes(d := bytes d + n))(d := (bytes(d := bytes d + n)) d - m)" by (simp add: bytes' fun_eq_iff)
    from accounted_delete [OF ins(2) p' this] have "accounted_in env (removed old (p - HEADER_SIZE) B') headers' bytes'
        ((live(q + HEADER_SIZE \<mapsto> (d, n)))(p := None))" unfolding header old .
    moreover have "(live(q + HEADER_SIZE \<mapsto> (d, n)))(p := None) = (live(p := None))(q + HEADER_SIZE \<mapsto> (d, n))"
      using neq by auto
    moreover have "placed env B' headers' p m" using accounted_placed [OF ins(2) p'] .
    ultimately show ?thesis using False ins(1) by (auto simp: placed_def Let_def header old)
  qed
  then show "accounted_in env (if old = new then B' else removed old (p - HEADER_SIZE) B') headers' bytes'
      ((live(p := None))(q + HEADER_SIZE \<mapsto> (d, n)))"
    and "(live(p := None)) (q + HEADER_SIZE) = None" and "old \<noteq> new \<Longrightarrow> B' old (p - HEADER_SIZE) \<noteq> None" by blast+
qed


lemma reallocate_accounts:
  assumes laws: "heap_laws env blocks" and acc: "accounted env blocks live a" and p: "live p = Some (d, m)"
    and size: "unat n + 8 < 2 ^ 32" and run: "ros2_zephyr_reallocate env (Some p) n d a = (r, a')"
  shows "case r of None \<Rightarrow> keeps_accounts env blocks d live a live a'
    | Some q \<Rightarrow> keeps_accounts env blocks d live a ((live(p := None))(q \<mapsto> (d, n))) a'"
proof -
  obtain inject a1 where i: "inject_allocation_failure env d a = (inject, a1)" by (cases "inject_allocation_failure env d a")
  note f = inject_fields [OF i]
  define old where "old = hd_pool (al_headers a (p - HEADER_SIZE))"
  define new where "new = pool_for env d n"
  obtain q h where q: "new_block env old new (p - HEADER_SIZE) (HEADER_SIZE + n) (al_heap a) = (q, h)"
    by (cases "new_block env old new (p - HEADER_SIZE) (HEADER_SIZE + n) (al_heap a)")
  have "placed env (blocks (al_heap a)) (al_headers a) p m" using accounted_placed [OF acc [unfolded accounted_def] p] .
  then have oldp: "old = ALLOCATION_POOL_INTERNAL \<or> hp_spiram env \<and> old = ALLOCATION_POOL_EXTERNAL"
    and m: "hd_size (al_headers a (p - HEADER_SIZE)) = m" and block: "blocks (al_heap a) old (p - HEADER_SIZE) \<noteq> None"
    by (auto simp: placed_def Let_def old_def)
  have newp: "new = ALLOCATION_POOL_INTERNAL \<or> hp_spiram env \<and> new = ALLOCATION_POOL_EXTERNAL"
    unfolding new_def by (rule pool_for_cases)
  have "unat (HEADER_SIZE + n) = 8 + unat n" using size by (simp add: HEADER_SIZE_def unat_word_ariths)
  then have "HEADER_SIZE + n \<noteq> 0" by (metis add_is_0 unat_0 zero_neq_numeral)
  note law = new_block_law [OF laws this block oldp newp q]
  show ?thesis
  proof (cases "inject \<or> q = None")
    case True
    with run i q f law acc show ?thesis
      by (auto simp: ros2_zephyr_reallocate_def Let_def old_def new_def intro!: keeps_same split: if_splits)
  next
    case False
    then obtain header where header: "q = Some header" by blast
    let ?live = "(live(p := None))(header + HEADER_SIZE \<mapsto> (d, n))"
    have new_at: "new_at new header (HEADER_SIZE + n) (if old = new then removed old (p - HEADER_SIZE) (blocks (al_heap a)) else blocks (al_heap a)) (blocks h)"
      using law header by simp
    have r: "r = Some (header + HEADER_SIZE)" and heap: "al_heap a' = (if old = new then h else pool_free env old (p - HEADER_SIZE) h)"
      and headers: "al_headers a' = (al_headers a)(header := \<lparr>hd_size = n, hd_pool = new\<rparr>)"
      and metrics: "al_metrics a' = (al_metrics a)(d := raise_high_water
         ((al_metrics a d)\<lparr>me_calls := me_calls (al_metrics a d) + 1, me_live_bytes := me_live_bytes (al_metrics a d) - m + n\<rparr>))"
      using run i q False header f m
      by (auto simp: ros2_zephyr_reallocate_def Let_def old_def new_def set_header_def update_metrics_def move_block_def split: if_splits)
    have bytes: "(\<lambda>e. me_live_bytes (al_metrics a' e)) = (\<lambda>e. me_live_bytes (al_metrics a e))(d := me_live_bytes (al_metrics a d) - m + n)"
      by (auto simp: metrics high_water_raised)
    note rep = accounted_replace [OF acc [unfolded accounted_def] p old_def new_at newp size bytes headers]
    have "blocks (al_heap a') = (if old = new then blocks h else removed old (p - HEADER_SIZE) (blocks h))"
      using heap rep(3) pool_free_law [OF laws oldp] unfolding free_law_def by auto
    then have acc': "accounted env blocks ?live a'" using rep(1) by (simp add: accounted_def)
    have "finite (dom live)" using acc by (simp add: accounted_def accounted_in_def)
    then have other: "live_total ?live e = live_total live e" if "e \<noteq> d" for e
      using that rep(2) live_total_remove [of live p d m e] p live_total_insert [of "live(p := None)" "header + HEADER_SIZE" d n e] by simp
    show ?thesis
      using acc' live_bytes_exact [OF laws acc', of d] other
      by (auto simp: r keeps_accounts_def metrics high_water_raised)
  qed
qed


lemma zero_allocate_overflow:
  "n \<noteq> 0 \<and> (- 1) div n < count \<longleftrightarrow> 2 ^ 32 \<le> unat count * unat (n :: size)"
proof (cases "n = 0")
  case False
  then have n: "0 < unat n" by (simp add: unat_gt_0)
  have "unat ((- 1) div n) = (2 ^ 32 - 1) div unat n"
    by (simp add: unat_div unsigned_minus_1_eq_mask mask_eq_exp_minus_1)
  moreover have "(2 ^ 32 - 1) div unat n < unat count \<longleftrightarrow> 2 ^ 32 - 1 < unat count * unat n"
    using n by (rule div_less_iff_less_mult)
  ultimately show ?thesis using False by (auto simp: word_less_nat_alt)
qed simp

section \<open>Clients\<close>

datatype alloc_op =
    Allocate domain size
  | Zero_allocate domain size size
  | Reallocate domain "addr option" size
  | Deallocate domain "addr option"

definition hold :: "addr option \<Rightarrow> domain \<Rightarrow> size \<Rightarrow> holdings \<Rightarrow> holdings" where
  "hold r d n live = (case r of None \<Rightarrow> live | Some q \<Rightarrow> live(q \<mapsto> (d, n)))"

definition drop_block :: "addr option \<Rightarrow> holdings \<Rightarrow> holdings" where
  "drop_block pointer live = (case pointer of None \<Rightarrow> live | Some p \<Rightarrow> live(p := None))"

fun client_step :: "'h heap_env \<Rightarrow> alloc_op \<Rightarrow> holdings \<times> 'h allocator \<Rightarrow> holdings \<times> 'h allocator" where
  "client_step env (Allocate d n) (live, a) =
     (case ros2_zephyr_allocate env n d a of (r, a') \<Rightarrow> (hold r d n live, a'))"
| "client_step env (Zero_allocate d count n) (live, a) =
     (case ros2_zephyr_zero_allocate env count n d a of (r, a') \<Rightarrow> (hold r d (count * n) live, a'))"
| "client_step env (Reallocate d pointer n) (live, a) =
     (case ros2_zephyr_reallocate env pointer n d a of (r, a') \<Rightarrow>
       (if r = None then live else hold r d n (drop_block pointer live), a'))"
| "client_step env (Deallocate d pointer) (live, a) =
     (drop_block pointer live, ros2_zephyr_deallocate env pointer d a)"

text \<open>
  What a client may ask: a pointer it passes back is null or one that it holds in that domain, and a
  size leaves room for the header in a word.
\<close>

definition held :: "holdings \<Rightarrow> domain \<Rightarrow> addr option \<Rightarrow> bool" where
  "held live d pointer = (case pointer of None \<Rightarrow> True | Some p \<Rightarrow> (case live p of None \<Rightarrow> False | Some (e, _) \<Rightarrow> e = d))"

fun client_may :: "holdings \<Rightarrow> alloc_op \<Rightarrow> bool" where
  "client_may live (Allocate d n) \<longleftrightarrow> unat n + 8 < 2 ^ 32"
| "client_may live (Zero_allocate d count n) \<longleftrightarrow> unat count * unat n + 8 < 2 ^ 32 \<or> 2 ^ 32 \<le> unat count * unat n"
| "client_may live (Reallocate d pointer n) \<longleftrightarrow> unat n + 8 < 2 ^ 32 \<and> held live d pointer"
| "client_may live (Deallocate d pointer) \<longleftrightarrow> held live d pointer"

fun permitted :: "'h heap_env \<Rightarrow> alloc_op list \<Rightarrow> holdings \<times> 'h allocator \<Rightarrow> bool" where
  "permitted env [] st \<longleftrightarrow> True"
| "permitted env (op # ops) st \<longleftrightarrow> client_may (fst st) op \<and> permitted env ops (client_step env op st)"

text \<open>The most bytes that were live at once.\<close>

fun peak :: "'h heap_env \<Rightarrow> domain \<Rightarrow> alloc_op list \<Rightarrow> holdings \<times> 'h allocator \<Rightarrow> nat \<Rightarrow> nat" where
  "peak env d [] st most = most"
| "peak env d (op # ops) st most =
     (let st' = client_step env op st in peak env d ops st' (max most (live_total (fst st') d)))"

fun domain_of :: "alloc_op \<Rightarrow> domain" where
  "domain_of (Allocate d n) = d"
| "domain_of (Zero_allocate d count n) = d"
| "domain_of (Reallocate d pointer n) = d"
| "domain_of (Deallocate d pointer) = d"

lemma zero_allocate_accounts:
  assumes laws: "heap_laws env blocks" and acc: "accounted env blocks live a"
    and may: "client_may live (Zero_allocate d count n)" and run: "ros2_zephyr_zero_allocate env count n d a = (r, a')"
  shows "keeps_accounts env blocks d live a (hold r d (count * n) live) a'"
proof (cases "2 ^ 32 \<le> unat count * unat n")
  case True
  then have "n \<noteq> 0 \<and> (- 1) div n < count" unfolding zero_allocate_overflow .
  with run have "r = None" "a' = a" by (simp_all add: ros2_zephyr_zero_allocate_def)
  with keeps_same [OF acc, of a] show ?thesis by (simp add: hold_def)
next
  case False
  then have ok: "\<not> (n \<noteq> 0 \<and> (- 1) div n < count)" unfolding zero_allocate_overflow .
  obtain q a1 where q: "ros2_zephyr_allocate env (count * n) d a = (q, a1)" by (cases "ros2_zephyr_allocate env (count * n) d a")
  from False may have "unat (count * n) + 8 < 2 ^ 32" by (simp add: unat_word_ariths)
  from allocate_accounts [OF laws acc this q] have "keeps_accounts env blocks d live a (hold q d (count * n) live) a1"
    by (auto simp: hold_def split: option.splits)
  moreover have "r = q" "al_heap a' = al_heap a1" "al_headers a' = al_headers a1" "al_metrics a' = al_metrics a1"
    using run q ok by (auto simp: ros2_zephyr_zero_allocate_def Let_def split: option.splits if_splits)
  ultimately show ?thesis by (simp add: keeps_accounts_def accounted_def)
qed

lemma client_step_accounts:
  assumes laws: "heap_laws env blocks" and acc: "accounted env blocks live a" and may: "client_may live op"
    and run: "client_step env op (live, a) = (live', a')"
  shows "keeps_accounts env blocks (domain_of op) live a live' a'"
proof (cases op)
  case (Allocate d n)
  obtain r a1 where r: "ros2_zephyr_allocate env n d a = (r, a1)" by (cases "ros2_zephyr_allocate env n d a")
  from allocate_accounts [OF laws acc _ r] Allocate may run r show ?thesis
    by (auto simp: hold_def split: option.splits)
next
  case (Zero_allocate d count n)
  with zero_allocate_accounts [OF laws acc] may run show ?thesis by (auto split: prod.splits)
next
  case (Reallocate d pointer n)
  obtain r a1 where r: "ros2_zephyr_reallocate env pointer n d a = (r, a1)" by (cases "ros2_zephyr_reallocate env pointer n d a")
  show ?thesis
  proof (cases pointer)
    case None
    with r have "ros2_zephyr_allocate env n d a = (r, a1)" by (simp add: ros2_zephyr_reallocate_def)
    from allocate_accounts [OF laws acc _ this] Reallocate None may run r show ?thesis
      by (auto simp: hold_def drop_block_def split: option.splits if_splits)
  next
    case (Some p)
    with Reallocate may obtain m where "live p = Some (d, m)" by (auto simp: held_def split: option.splits)
    from reallocate_accounts [OF laws acc this _ r [unfolded Some]] Reallocate Some may run r show ?thesis
      by (auto simp: hold_def drop_block_def split: option.splits if_splits)
  qed
next
  case (Deallocate d pointer)
  show ?thesis
  proof (cases pointer)
    case None
    with Deallocate run keeps_same [OF acc, of a] show ?thesis by (simp add: drop_block_def ros2_zephyr_deallocate_def)
  next
    case (Some p)
    with Deallocate may obtain m where "live p = Some (d, m)" by (auto simp: held_def split: option.splits)
    from deallocate_accounts [OF laws acc this] Deallocate Some run show ?thesis by (simp add: drop_block_def)
  qed
qed


lemma accounted_start: "accounted env blocks Map.empty (allocation_states h memory)"
  by (simp add: accounted_def accounted_in_def allocation_states_def live_total_def)

lemma high_water_step:
  assumes "keeps_accounts env blocks e live a live' a'" and "live_total live d \<le> unat (me_high_water_bytes (al_metrics a d))"
  shows "unat (me_high_water_bytes (al_metrics a' d)) = max (unat (me_high_water_bytes (al_metrics a d))) (live_total live' d)"
  using assms by (cases "d = e") (auto simp: keeps_accounts_def max_def)

lemma client_run_accounts:
  assumes laws: "heap_laws env blocks"
  shows "accounted env blocks live a \<Longrightarrow> permitted env ops (live, a) \<Longrightarrow>
    live_total live d \<le> unat (me_high_water_bytes (al_metrics a d)) \<Longrightarrow> fold (client_step env) ops (live, a) = (live', a') \<Longrightarrow>
    accounted env blocks live' a' \<and>
    unat (me_high_water_bytes (al_metrics a' d)) = peak env d ops (live, a) (unat (me_high_water_bytes (al_metrics a d)))"
proof (induction ops arbitrary: live a)
  case (Cons op ops)
  obtain live1 a1 where st: "client_step env op (live, a) = (live1, a1)" by (cases "client_step env op (live, a)")
  from Cons.prems(2) have may: "client_may live op" "permitted env ops (live1, a1)" by (simp_all add: st)
  note keeps = client_step_accounts [OF laws Cons.prems(1) may(1) st]
  note high = high_water_step [OF keeps Cons.prems(3)]
  have "accounted env blocks live1 a1" using keeps by (simp add: keeps_accounts_def)
  moreover have "live_total live1 d \<le> unat (me_high_water_bytes (al_metrics a1 d))" unfolding high by simp
  moreover have "fold (client_step env) ops (live1, a1) = (live', a')" using Cons.prems(4) by (simp add: st)
  ultimately show ?case using Cons.IH [OF _ may(2)] by (simp add: st Let_def high)
qed simp

section \<open>An example heap\<close>

text \<open>A heap with one block of a hundred bytes; the flag says whether it is taken.\<close>

definition example_blocks :: "bool \<Rightarrow> blocks" where
  "example_blocks h = (\<lambda>x. if h \<and> x = ALLOCATION_POOL_INTERNAL then [16 \<mapsto> 100] else Map.empty)"

definition example_heap :: "bool heap_env" where
  "example_heap =
     \<lparr>hp_malloc = (\<lambda>n h. if \<not> h \<and> unat n \<le> 100 then (Some 16, True) else (None, h)),
      hp_realloc = (\<lambda>p n h. if unat n \<le> 100 then (Some p, h) else (None, h)),
      hp_free = (\<lambda>p h. False), hp_ext_alloc = (\<lambda>n h. (None, h)), hp_ext_realloc = (\<lambda>p n h. (None, h)),
      hp_ext_free = (\<lambda>p h. h), hp_spiram = False, hp_failure_at = 0\<rparr>"

lemma example_heap_laws: "heap_laws example_heap example_blocks"
proof -
  have "(\<Sum>(x, p) \<in> X. the (example_blocks h x p)) < 2 ^ 32" if "finite X" "\<forall>(x, p) \<in> X. example_blocks h x p \<noteq> None" for X h
  proof -
    have sub: "X \<subseteq> {(ALLOCATION_POOL_INTERNAL, 16)}" using that(2) by (auto simp: example_blocks_def split: if_splits)
    then consider "X = {}" | "X = {(ALLOCATION_POOL_INTERNAL, 16)}" by blast
    then show ?thesis
    proof cases
      case 2
      with that(2) show ?thesis by (auto simp: example_blocks_def split: if_splits)
    qed simp
  qed
  then have "fits_memory (example_blocks h)" for h by (simp add: fits_memory_def)
  then show ?thesis
    by (auto simp: heap_laws_def alloc_law_def realloc_law_def free_law_def example_heap_def new_at_def removed_def example_blocks_def
        fun_eq_iff split: if_splits)
qed

definition example_ops :: "alloc_op list" where
  "example_ops = [Allocate ROS2_ZEPHYR_ALLOCATION_ROS 40, Reallocate ROS2_ZEPHYR_ALLOCATION_ROS (Some 24) 60,
     Deallocate ROS2_ZEPHYR_ALLOCATION_ROS (Some 24)]"

definition example_start :: "bool allocator" where
  "example_start = allocation_states False (\<lambda>_. \<lparr>hd_size = 0, hd_pool = 0\<rparr>)"

lemma example_permitted:
  "permitted example_heap example_ops (Map.empty, example_start)"
  "peak example_heap ROS2_ZEPHYR_ALLOCATION_ROS example_ops (Map.empty, example_start) 0 = 60"
  "fst (fold (client_step example_heap) example_ops (Map.empty, example_start)) = Map.empty"
  by (simp_all add: example_ops_def example_start_def ros2_zephyr_allocate_def ros2_zephyr_reallocate_def ros2_zephyr_deallocate_def
      inject_allocation_failure_def pool_alloc_def pool_for_def pool_free_def new_block_def hold_def drop_block_def held_def
      metrics_add_def update_metrics_def set_header_def HEADER_SIZE_def example_heap_def allocation_states_def live_total_def Let_def
      ALLOCATION_POOL_INTERNAL_def ALLOCATION_POOL_EXTERNAL_def)

section \<open>Properties\<close>

text \<open>
  Property C6. For heaps that keep their promises and for clients that keep theirs, to ask for no size that
  leaves no room for the header of 8 bytes in 32 bits and to reallocate and free only pointers that they hold in
  that domain (or null): whatever they allocate, zero-allocate, reallocate and free, in whatever order and with
  whatever failures, the live bytes of a domain are exactly the bytes its clients hold, the high-water mark is exactly the most they
  ever held at once, and every block they hold has its size in its header and room for it in its pool.
\<close>

theorem allocator_accounts:
  assumes "heap_laws env blocks" and "permitted env ops (Map.empty, allocation_states h memory)"
    and "fold (client_step env) ops (Map.empty, allocation_states h memory) = (live, a)"
  shows "unat (me_live_bytes (ros2_zephyr_allocation_metrics d a)) = live_total live d \<and>
    unat (me_high_water_bytes (ros2_zephyr_allocation_metrics d a)) = peak env d ops (Map.empty, allocation_states h memory) 0 \<and>
    (\<forall>p n. live p = Some (d, n) \<longrightarrow> placed env (blocks (al_heap a)) (al_headers a) p n)"
proof -
  have "live_total Map.empty d \<le> unat (me_high_water_bytes (al_metrics (allocation_states h memory) d))" by (simp add: live_total_def)
  from client_run_accounts [OF assms(1) accounted_start assms(2) this assms(3)]
  have acc: "accounted env blocks live a"
    and high: "unat (me_high_water_bytes (al_metrics a d)) = peak env d ops (Map.empty, allocation_states h memory) 0"
    by (simp_all add: allocation_states_def)
  from live_bytes_exact [OF assms(1) acc] high accounted_placed [OF acc [unfolded accounted_def]] show ?thesis
    by (simp add: ros2_zephyr_allocation_metrics_def)
qed

theorem allocator_accounts_witness:
  "\<exists>live a. fold (client_step example_heap) example_ops (Map.empty, example_start) = (live, a) \<and> live = Map.empty \<and>
     unat (me_live_bytes (ros2_zephyr_allocation_metrics ROS2_ZEPHYR_ALLOCATION_ROS a)) = 0 \<and>
     unat (me_high_water_bytes (ros2_zephyr_allocation_metrics ROS2_ZEPHYR_ALLOCATION_ROS a)) = 60"
proof -
  obtain live a where run: "fold (client_step example_heap) example_ops (Map.empty, example_start) = (live, a)"
    by (cases "fold (client_step example_heap) example_ops (Map.empty, example_start)")
  from allocator_accounts [OF example_heap_laws example_permitted(1) [unfolded example_start_def] run [unfolded example_start_def],
      of ROS2_ZEPHYR_ALLOCATION_ROS] example_permitted(2,3) run
  show ?thesis by (simp add: live_total_def flip: example_start_def)
qed

text \<open>
  The size of the header is added without a check: a request for all the bytes a word can
  count asks the heap for seven bytes, and when the heap has them it succeeds, with the full size in a header
  for which there is not even room.
\<close>

lemma allocate_wraps:
  assumes "hp_failure_at env = 0" "hp_spiram env = False" and "hp_malloc env 7 (al_heap a) = (Some header, h)"
  shows "\<exists>a'. ros2_zephyr_allocate env (- 1) d a = (Some (header + HEADER_SIZE), a') \<and> hd_size (al_headers a' header) = - 1"
  using assms
  by (simp add: ros2_zephyr_allocate_def inject_allocation_failure_def pool_alloc_def pool_for_def HEADER_SIZE_def metrics_add_def
      update_metrics_def set_header_def)

end
