(* ===== verification/Spec2Isabelle.thy ===== *)
theory Spec2Isabelle
  imports Resource_Admission Resource_Verdict Elf_Image Deployment_Header Control_Probe Source_Pins
    C6_Admission Resource_Verify Serial_Capture Control_Peer Wifi_Main Control_Loop Allocator
begin

text \<open>
  A verification of the Python tools of ROS 2 Zephyr.
\<close>

section \<open>The generated configuration reaches the resource planner\<close>


lemma show_int_no_break: "c \<in> set (show_int i) \<Longrightarrow> \<not> is_linebreak c \<and> c \<noteq> CHR 0x22"
  by (auto simp: show_int_def is_linebreak_def in_range_def split: if_splits
      dest!: show_nat_digits)

lemma wf_value_show_int: "wf_value (show_int i)"
proof -
  have "CHR 0x22 \<notin> set (show_int i)" using show_int_no_break by blast
  then have "\<not> startswith (show_int i) dq" "\<not> endswith (show_int i) dq"
    by (auto simp: startswith_iff endswith_iff dq_def)
  with show_int_no_break show ?thesis by (auto simp: wf_value_def)
qed

lemma show_int_number: "show_int i \<noteq> ''n''" "show_int i \<noteq> ''y''"
proof -
  have "py_int 0 (show_int i) = Some i" by (rule py_int_show_int) simp
  moreover have "py_int 0 ''n'' = None" "py_int 0 ''y'' = None"
    by (simp_all add: py_int_def strip_def strip_by_def lstrip_by_def is_space_def in_range_def unsigned_val_def has_prefix_def digit_val_def)
  ultimately show "show_int i \<noteq> ''n''" "show_int i \<noteq> ''y''" by auto
qed

definition config_settings :: "deployment \<Rightarrow> string \<Rightarrow> string \<Rightarrow> (string \<times> setting) list" where
  "config_settings D backend symbol =
     [(''CONFIG_ROS2_ZEPHYR'', Value ''y''), (symbol, Value ''y''),
      (''CONFIG_ROS2_ZEPHYR_DOMAIN_ID'', Value (show_int (dep_domain D)))]
     @ (if backend = ''rmw_zenoh_pico'' then [(''CONFIG_NET_TCP'', Value ''y'')] else [])"

lemma config_settings_wf:
  assumes "backend_symbol backend = Some symbol"
  shows "\<forall>ks \<in> set (config_settings D backend symbol). wf_setting ks" "wf_dict (config_settings D backend symbol)"
proof -
  have y: "wf_value ''y''" by (simp add: wf_value_def startswith_def endswith_def dq_def is_linebreak_def in_range_def)
  have key: "wf_key ''CONFIG_ROS2_ZEPHYR''" "wf_key symbol" "wf_key ''CONFIG_ROS2_ZEPHYR_DOMAIN_ID''" "wf_key ''CONFIG_NET_TCP''"
    using assms by (auto simp: backend_symbol_def wf_key_def startswith_def is_linebreak_def in_range_def split: if_splits)
  show "\<forall>ks \<in> set (config_settings D backend symbol). wf_setting ks"
    by (simp add: config_settings_def wf_setting_def y key wf_value_show_int)
  show "wf_dict (config_settings D backend symbol)"
    using assms by (auto simp: config_settings_def backend_symbol_def split: if_splits)
qed


text \<open>
  Property C31. The configuration fragment that the compiler generates reaches the resource planner: the
  planner's parser reads from it exactly the middleware switch, the chosen backend, the domain and, for
  Zenoh, the TCP switch, and reads the domain back as the number that the deployment has.
\<close>

theorem generated_config_read_back:
  assumes "generate_config D backend = Inr t" and "backend_symbol backend = Some symbol"
  shows "parse_config_text t =
      [(''CONFIG_ROS2_ZEPHYR'', ''y''), (symbol, ''y''), (''CONFIG_ROS2_ZEPHYR_DOMAIN_ID'', show_int (dep_domain D))]
      @ (if backend = ''rmw_zenoh_pico'' then [(''CONFIG_NET_TCP'', ''y'')] else []) \<and>
    integer_config (parse_config_text t) ''CONFIG_ROS2_ZEPHYR_DOMAIN_ID'' = Some (dep_domain D)"
proof -
  let ?kss = "config_settings D backend symbol" 
  define comment where "comment = ''# Generated by compile_deployment.py; do not edit.''"
  note wf = config_settings_wf [OF assms(2), of D]
  have lines: "map setting_line ?kss = [''CONFIG_ROS2_ZEPHYR=y'', symbol @ ''=y'', ''CONFIG_ROS2_ZEPHYR_DOMAIN_ID='' @ show_int (dep_domain D)]
      @ (if backend = ''rmw_zenoh_pico'' then [''CONFIG_NET_TCP=y''] else [])"
    by (simp add: config_settings_def)
  have whole: "t = join nl ((comment # map setting_line ?kss) @ [''''])"
    using assms by (simp add: generate_config_def lines comment_def)
  have "\<forall>c \<in> set comment. \<not> is_linebreak c" by (simp add: comment_def is_linebreak_def in_range_def)
  with wf(1) have "\<forall>l \<in> set (comment # map setting_line ?kss). \<forall>c \<in> set l. \<not> is_linebreak c"
    by (auto dest: setting_line_no_break)
  then have "splitlines t = comment # map setting_line ?kss" unfolding whole by (rule splitlines_join)
  moreover have "config_line [] comment = []" by (simp add: comment_def config_line_def startswith_def)
  ultimately have "parse_config_text t = foldl config_line [] (map setting_line ?kss)" by (simp add: parse_config_text_def)
  also have "\<dots> = map (apsnd setting_value) ?kss"
    using parse_lines [OF wf(1), of "[]"] foldl_dict_set [of "[]" ?kss setting_value] wf(2) by simp
  finally have parsed: "parse_config_text t = map (apsnd setting_value) ?kss" .
  have "symbol \<noteq> ''CONFIG_ROS2_ZEPHYR_DOMAIN_ID''" using assms(2) by (auto simp: backend_symbol_def split: if_splits)
  then have "integer_config (parse_config_text t) ''CONFIG_ROS2_ZEPHYR_DOMAIN_ID'' = Some (dep_domain D)"
    using show_int_number by (simp add: parsed config_settings_def integer_config_def py_int_show_int)
  then show ?thesis by (simp add: parsed config_settings_def)
qed

theorem generated_config_read_back_witness:
  "\<exists>text. generate_config example_deployment ''rmw_zenoh_pico'' = Inr text \<and>
     integer_config (parse_config_text text) ''CONFIG_ROS2_ZEPHYR_DOMAIN_ID'' = Some 7"
proof -
  have symbol: "backend_symbol ''rmw_zenoh_pico'' = Some ''CONFIG_ROS2_ZEPHYR_RMW_ZENOH_PICO''" by (simp add: backend_symbol_def)
  then obtain t where t: "generate_config example_deployment ''rmw_zenoh_pico'' = Inr t" by (simp add: generate_config_def)
  moreover have "dep_domain example_deployment = 7" by (simp add: example_deployment_def)
  ultimately show ?thesis using conjunct2 [OF generated_config_read_back [OF t symbol]] by simp
qed


end
